(* ===== verification/Poker_Prelude.thy ===== *)
theory Poker_Prelude
  imports Main "HOL-Library.Word"
begin

text \<open>
  What the components of the development share: the types that stand for Go's errors and
  integers, the collections of facts the component proofs draw on, generic lemmas on lists and
  sums, and the two interfaces every stateful component of the program is an instance of: a
  machine with an invariant, and a machine that conserves a quantity.
\<close>

section \<open>Types and collections\<close>

text \<open>
  A Go function that returns a value or an error is a function into \<open>'e + 'a\<close>, with \<open>Inl\<close>
  for the error. A Go method that mutates its receiver and returns an error is a function into
  \<open>'e option \<times> 's\<close>: the error, if any, and the receiver afterwards, since Go does not undo
  the writes that came before the error.
\<close>

type_synonym ('e, 'a) res = "'e + 'a"
type_synonym ('e, 's) outcome = "'e option \<times> 's"
type_synonym u32 = "32 word"
type_synonym u64 = "64 word"
type_synonym byte = "8 word"
type_synonym bytes = "8 word list"

named_theorems total_simps \<open>how an operation changes a total\<close>

section \<open>Lists\<close>

lemma sum_list_map_update:
  fixes f :: "'a \<Rightarrow> int"
  assumes "i < length xs"
  shows "sum_list (map f (xs[i := v])) = sum_list (map f xs) - f (xs ! i) + f v"
  using assms
proof (induction xs arbitrary: i)
  case (Cons x xs)
  then show ?case by (cases i) auto
qed simp

lemma sum_list_map_le:
  fixes f g :: "'a \<Rightarrow> int"
  assumes "\<And>x. x \<in> set xs \<Longrightarrow> f x \<le> g x"
  shows "sum_list (map f xs) \<le> sum_list (map g xs)"
  using assms by (rule sum_list_mono)

lemma member_le_sum_list_int:
  fixes f :: "'a \<Rightarrow> int"
  assumes "x \<in> set xs" and "\<And>y. y \<in> set xs \<Longrightarrow> 0 \<le> f y"
  shows "f x \<le> sum_list (map f xs)"
  using assms
proof (induction xs)
  case (Cons a xs)
  have nn: "0 \<le> sum_list (map f xs)"
    using Cons.prems(2) by (intro sum_list_nonneg) auto
  show ?case
  proof (cases "x = a")
    case True
    with nn show ?thesis by simp
  next
    case False
    with Cons have "f x \<le> sum_list (map f xs)" by simp
    moreover have "0 \<le> f a" using Cons.prems(2) by simp
    ultimately show ?thesis by simp
  qed
qed simp

lemma sum_list_map_filter_split:
  fixes f :: "'a \<Rightarrow> int"
  shows "sum_list (map f (filter P xs)) + sum_list (map f (filter (\<lambda>x. \<not> P x) xs))
       = sum_list (map f xs)"
  by (induction xs) auto

lemma sum_list_map_if_filter:
  fixes f :: "'a \<Rightarrow> int"
  shows "sum_list (map (\<lambda>x. if P x then f x else 0) xs) = sum_list (map f (filter P xs))"
  by (induction xs) auto

lemma sum_list_indicator_nth:
  fixes c :: int
  shows "i < n \<Longrightarrow> sum_list (map (\<lambda>k. if k = i then c else 0) [0..<n]) = c"
  by (simp add: interv_sum_list_conv_sum_set_nat atLeast0LessThan)

lemma map_nth_update_same:
  assumes "f v = f (xs ! i)"
  shows "map f (xs[i := v]) = map f xs"
  using assms by (metis list_update_beyond list_update_id map_update not_le)

lemma length_filter_zero_iff: "length (filter P xs) = 0 \<longleftrightarrow> (\<forall>x \<in> set xs. \<not> P x)"
  by (auto simp: filter_empty_conv)

section \<open>Words\<close>

lemma unat_sum_list:
  fixes ws :: "u64 list"
  assumes "sum_list (map unat ws) < 2 ^ 64"
  shows "unat (sum_list ws) = sum_list (map unat ws)"
  using assms
proof (induction ws)
  case (Cons w ws)
  then have "unat (sum_list ws) = sum_list (map unat ws)" by simp
  moreover have "unat w + unat (sum_list ws) < 2 ^ 64" using Cons by simp
  ultimately show ?case by (simp add: unat_word_ariths)
qed simp

lemma sum_list_filter_le:
  fixes f :: "'a \<Rightarrow> nat"
  shows "sum_list (map f (filter P xs)) \<le> sum_list (map f xs)"
  by (induction xs) auto

section \<open>Machines\<close>

text \<open>
  The stateful components (a hand of the betting engine, a table, the money tracker, the
  de-duplicator, the pot ledger) are all used the same way: their operations are applied one
  after the other, in an order the environment chooses. \<open>machine\<close> is what such a component
  promises: a step function on events and an invariant every step keeps. What follows for a
  whole run is proved once here.
\<close>

fun run :: "('s \<Rightarrow> 'e \<Rightarrow> 's) \<Rightarrow> 's \<Rightarrow> 'e list \<Rightarrow> 's" where
  "run step s [] = s"
| "run step s (e # es) = run step (step s e) es"

lemma run_append: "run step s (es @ fs) = run step (run step s es) fs"
  by (induction es arbitrary: s) auto

locale machine =
  fixes step :: "'s \<Rightarrow> 'e \<Rightarrow> 's"
    and inv :: "'s \<Rightarrow> bool"
  assumes step_inv: "inv s \<Longrightarrow> inv (step s e)"
begin

lemma run_inv: "inv s \<Longrightarrow> inv (run step s es)"
  by (induction es arbitrary: s) (auto intro: step_inv)

lemma run_prefix_inv: "inv s \<Longrightarrow> inv (run step s (take k es))"
  by (rule run_inv)

text \<open>A predicate that no step on an allowed event leaves, from states that satisfy the invariant, is never left.\<close>

lemma run_stable_on:
  assumes "inv s" and "P s" and "list_all Q es" and "\<And>t e. inv t \<Longrightarrow> P t \<Longrightarrow> Q e \<Longrightarrow> P (step t e)"
  shows "P (run step s es)"
  using assms(1-3)
proof (induction es arbitrary: s)
  case (Cons e es)
  then show ?case using assms(4) step_inv by simp
qed simp

lemma run_stable:
  assumes "inv s" and "P s" and "\<And>t e. inv t \<Longrightarrow> P t \<Longrightarrow> P (step t e)"
  shows "P (run step s es)"
  by (rule run_stable_on [where Q = "\<lambda>e. True"]) (use assms in \<open>simp_all add: list_all_iff\<close>)

end

text \<open>A machine that conserves a quantity (the chips of a hand, the value of a pot).\<close>

locale conserving = machine +
  fixes total :: "'s \<Rightarrow> int"
  assumes step_total: "inv s \<Longrightarrow> total (step s e) = total s"
begin

lemma run_total: "inv s \<Longrightarrow> total (run step s es) = total s"
proof (induction es arbitrary: s)
  case (Cons e es)
  have "total (run step (step s e) es) = total (step s e)"
    using Cons by (simp add: step_inv)
  with Cons.prems show ?case by (simp add: step_total)
qed simp

end

text \<open>A machine with a quantity that no step lowers (a phase, a sequence number).\<close>

locale monotone_machine = machine +
  fixes rank :: "'s \<Rightarrow> nat"
  assumes step_rank: "inv s \<Longrightarrow> rank s \<le> rank (step s e)"
begin

lemma run_rank: "inv s \<Longrightarrow> rank s \<le> rank (run step s es)"
proof (induction es arbitrary: s)
  case (Cons e es)
  have "rank (step s e) \<le> rank (run step (step s e) es)"
    using Cons by (simp add: step_inv)
  with Cons.prems show ?case using step_rank order_trans by fastforce
qed simp

end

end
