(* ===== verification/Cards.thy ===== *)
theory Cards
  imports Poker_Prelude "HOL-Library.Multiset"
begin

text \<open>
  The card and deck model of \<^verbatim>\<open>internal/game/cards/cards.go\<close>. A card is a rank and a suit; Go's
  \<open>int\<close> rank is an \<open>int\<close> and the \<open>uint8\<close> suit a \<open>nat\<close> (the code does no arithmetic on suits),
  so that a card that is no card at all (rank 0, suit 9) is a value of the model too and the
  code's own \<open>Valid\<close> is what excludes it.
\<close>

section \<open>Cards and their indices\<close>

record card =
  Rank :: int
  Suit :: nat

definition Spades :: nat where "Spades = 0"
definition Hearts :: nat where "Hearts = 1"
definition Diamonds :: nat where "Diamonds = 2"
definition Clubs :: nat where "Clubs = 3"

lemmas suit_defs = Spades_def Hearts_def Diamonds_def Clubs_def

definition MinRank :: int where "MinRank = 2"
definition MaxRank :: int where "MaxRank = 14"
definition DeckSize :: int where "DeckSize = 52"

lemmas rank_defs = MinRank_def MaxRank_def DeckSize_def

definition Suit_String :: "nat \<Rightarrow> string" where
  "Suit_String s =
     (if s = Spades then ''s'' else if s = Hearts then ''h''
      else if s = Diamonds then ''d'' else if s = Clubs then ''c'' else ''?'')"

definition Red :: "nat \<Rightarrow> bool" where
  "Red s \<longleftrightarrow> s = Hearts \<or> s = Diamonds"

definition Index :: "card \<Rightarrow> int" where
  "Index c = (Rank c - MinRank) * 4 + int (Suit c)"

datatype cards_error = IndexOutOfRange int

definition FromIndex :: "int \<Rightarrow> (cards_error, card) res" where
  "FromIndex i =
     (if i < 0 \<or> i \<ge> DeckSize then Inl (IndexOutOfRange i)
      else Inr \<lparr>Rank = i div 4 + MinRank, Suit = nat (i mod 4)\<rparr>)"

definition Valid :: "card \<Rightarrow> bool" where
  "Valid c \<longleftrightarrow> Rank c \<ge> MinRank \<and> Rank c \<le> MaxRank \<and> Suit c \<le> Clubs"

text \<open>\<open>fmt.Sprint\<close> of an \<open>int\<close>: the decimal digits, after a sign where it is negative.\<close>

fun decimal :: "nat \<Rightarrow> string" where
  "decimal n = (if n < 10 then [char_of (48 + n)] else decimal (n div 10) @ [char_of (48 + n mod 10)])"

declare decimal.simps [simp del]

definition Sprint_int :: "int \<Rightarrow> string" where
  "Sprint_int i = (if i < 0 then CHR ''-'' # decimal (nat (- i)) else decimal (nat i))"

definition RankLabel :: "card \<Rightarrow> string" where
  "RankLabel c =
     (if Rank c = 14 then ''A'' else if Rank c = 13 then ''K'' else if Rank c = 12 then ''Q''
      else if Rank c = 11 then ''J'' else if Rank c = 10 then ''T'' else Sprint_int (Rank c))"

definition Card_String :: "card \<Rightarrow> string" where
  "Card_String c = RankLabel c @ Suit_String (Suit c)"

text \<open>\<open>MustFromIndex\<close> panics where \<open>FromIndex\<close> returns an error: \<open>None\<close> is the panic.\<close>

definition MustFromIndex :: "int \<Rightarrow> card option" where
  "MustFromIndex i = (case FromIndex i of Inl e \<Rightarrow> None | Inr c \<Rightarrow> Some c)"

text \<open>The deck in index order: the loop fills position \<open>i\<close> with \<open>MustFromIndex i\<close>, and a panic
  at any position is a panic of the whole.\<close>

fun fill_deck :: "nat \<Rightarrow> nat \<Rightarrow> card list option" where
  "fill_deck i 0 = Some []"
| "fill_deck i (Suc k) =
     (case MustFromIndex (int i) of
        None \<Rightarrow> None
      | Some c \<Rightarrow> (case fill_deck (Suc i) k of None \<Rightarrow> None | Some cs \<Rightarrow> Some (c # cs)))"

definition Ordered :: "card list option" where
  "Ordered = fill_deck 0 (nat DeckSize)"

text \<open>
  \<open>Shuffled\<close> is a Fisher-Yates pass over the ordered deck. The random source is a parameter:
  \<open>rnd i\<close> is what \<open>rand.Int\<close> returns for the bound \<open>i + 1\<close>, \<open>None\<close> where reading it fails.
  The recursion runs the loop's \<open>i\<close> downwards; \<open>None\<close> is the error return.
\<close>

definition swap :: "'a list \<Rightarrow> nat \<Rightarrow> nat \<Rightarrow> 'a list" where
  "swap xs i j = xs[i := xs ! j, j := xs ! i]"

fun fisher_yates :: "(nat \<Rightarrow> nat option) \<Rightarrow> nat \<Rightarrow> 'a list \<Rightarrow> 'a list option" where
  "fisher_yates rnd 0 d = Some d"
| "fisher_yates rnd (Suc i) d =
     (case rnd (Suc i) of
        None \<Rightarrow> None
      | Some j \<Rightarrow> fisher_yates rnd i (swap d (Suc i) j))"

definition Shuffled :: "(nat \<Rightarrow> nat option) \<Rightarrow> card list option" where
  "Shuffled rnd = (case Ordered of None \<Rightarrow> None | Some d \<Rightarrow> fisher_yates rnd (length d - 1) d)"

text \<open>
  The wire form read back, \<open>parseCard\<close> of \<^verbatim>\<open>internal/webui/dealer.go\<close>: the rank is the first byte,
  the suit the last, each looked up in a table.
\<close>

datatype parse_error = NotACard string | NoRank string | NoSuit string

definition ranks_table :: "char \<rightharpoonup> int" where
  "ranks_table = [CHR ''2'' \<mapsto> 2, CHR ''3'' \<mapsto> 3, CHR ''4'' \<mapsto> 4, CHR ''5'' \<mapsto> 5, CHR ''6'' \<mapsto> 6,
     CHR ''7'' \<mapsto> 7, CHR ''8'' \<mapsto> 8, CHR ''9'' \<mapsto> 9, CHR ''T'' \<mapsto> 10, CHR ''J'' \<mapsto> 11,
     CHR ''Q'' \<mapsto> 12, CHR ''K'' \<mapsto> 13, CHR ''A'' \<mapsto> 14]"

definition suits_table :: "char \<rightharpoonup> nat" where
  "suits_table = [CHR ''s'' \<mapsto> Spades, CHR ''h'' \<mapsto> Hearts, CHR ''d'' \<mapsto> Diamonds, CHR ''c'' \<mapsto> Clubs]"

definition parseCard :: "string \<Rightarrow> (parse_error, card) res" where
  "parseCard s =
     (if length s < 2 then Inl (NotACard s)
      else case ranks_table (s ! 0) of
             None \<Rightarrow> Inl (NoRank s)
           | Some r \<Rightarrow> (case suits_table (s ! (length s - 1)) of
                         None \<Rightarrow> Inl (NoSuit s)
                       | Some su \<Rightarrow> Inr \<lparr>Rank = r, Suit = su\<rparr>))"

section \<open>Lemmas\<close>

lemma Valid_bounds:
  assumes "Valid c"
  shows "2 \<le> Rank c" "Rank c \<le> 14" "Suit c < 4"
  using assms by (auto simp: Valid_def rank_defs suit_defs)

lemma Valid_Index_range: "Valid c \<Longrightarrow> 0 \<le> Index c \<and> Index c < DeckSize"
  by (auto simp: Valid_def Index_def rank_defs suit_defs)

lemma FromIndex_Valid: "FromIndex i = Inr c \<Longrightarrow> Valid c"
  by (auto simp: FromIndex_def Valid_def rank_defs suit_defs split: if_splits)

lemma Index_FromIndex: "FromIndex i = Inr c \<Longrightarrow> Index c = i"
  by (auto simp: FromIndex_def Index_def rank_defs split: if_splits)

lemma FromIndex_Index:
  assumes "Valid c"
  shows "FromIndex (Index c) = Inr c"
proof -
  have "int (Suit c) < 4" using Valid_bounds(3) [OF assms] by simp
  then have "Index c div 4 = Rank c - MinRank" and "Index c mod 4 = int (Suit c)"
    unfolding Index_def by presburger+
  then show ?thesis
    using Valid_Index_range [OF assms] by (auto simp: FromIndex_def)
qed

lemma FromIndex_total: "0 \<le> i \<Longrightarrow> i < DeckSize \<Longrightarrow> \<exists>c. FromIndex i = Inr c"
  by (simp add: FromIndex_def)

lemma length_swap [simp]: "length (swap xs i j) = length xs"
  by (simp add: swap_def)

lemma mset_swap_range: "i < length xs \<Longrightarrow> j < length xs \<Longrightarrow> mset (swap xs i j) = mset xs"
  unfolding swap_def by (rule mset_swap)

lemma fill_deck_indices:
  assumes "int (i + k) \<le> DeckSize"
  shows "\<exists>cs. fill_deck i k = Some cs \<and> map Index cs = map int [i..<i + k] \<and> (\<forall>c \<in> set cs. Valid c)"
  using assms
proof (induction k arbitrary: i)
  case (Suc k)
  from Suc.prems have "int (Suc i + k) \<le> DeckSize" by simp
  from Suc.IH [OF this] obtain cs where cs: "fill_deck (Suc i) k = Some cs"
    "map Index cs = map int [Suc i..<Suc i + k]" "\<forall>c \<in> set cs. Valid c" by blast
  obtain c where c: "FromIndex (int i) = Inr c" using FromIndex_total [of "int i"] Suc.prems by auto
  have "[i..<i + Suc k] = i # [Suc i..<Suc i + k]" by (simp add: upt_rec)
  with cs c show ?case
    using FromIndex_Valid [OF c] Index_FromIndex [OF c] by (simp add: MustFromIndex_def)
qed simp

lemma fisher_yates_permutes:
  assumes "\<And>k. 0 < k \<Longrightarrow> k < length d \<Longrightarrow> \<exists>j. rnd k = Some j \<and> j \<le> k" and "i < length d"
  shows "\<exists>d'. fisher_yates rnd i d = Some d' \<and> mset d' = mset d"
  using assms
proof (induction i arbitrary: d)
  case (Suc i)
  then obtain j where j: "rnd (Suc i) = Some j" "j \<le> Suc i" by blast
  with Suc.prems have "mset (swap d (Suc i) j) = mset d" by (intro mset_swap_range) auto
  with j Suc.IH [of "swap d (Suc i) j"] Suc.prems show ?case by simp
qed simp

lemma fisher_yates_fails: "rnd (Suc i) = None \<Longrightarrow> fisher_yates rnd (Suc i) d = None"
  by simp

lemma all_cards_parse:
  "list_all (\<lambda>r. list_all (\<lambda>s. parseCard (Card_String \<lparr>Rank = r, Suit = s\<rparr>) = Inr \<lparr>Rank = r, Suit = s\<rparr>)
     [0..<4]) [2..14]"
  by code_simp

section \<open>Properties\<close>

text \<open>
  the card index is a bijection. \<open>FromIndex\<close> accepts exactly the indices of real cards and
  returns the one card with that index, so \<open>Index\<close> and \<open>FromIndex\<close> are inverse to each other and
  every participant maps an index to the same card.
\<close>

theorem FromIndex_bijection: "FromIndex i = Inr c \<longleftrightarrow> Valid c \<and> Index c = i"
  using FromIndex_Valid Index_FromIndex FromIndex_Index by blast

text \<open>
  the ordered deck never panics and holds each of the 52 cards once, in index order.
\<close>

theorem Ordered_complete:
  "\<exists>d. Ordered = Some d \<and> map Index d = map int [0..<52] \<and> set d = {c. Valid c} \<and> distinct d"
proof -
  obtain d where d: "Ordered = Some d" "map Index d = map int [0..<52]" "\<forall>c \<in> set d. Valid c"
    using fill_deck_indices [of 0 52] by (auto simp: Ordered_def DeckSize_def)
  have "distinct (map Index d)" unfolding d(2) by (simp only: distinct_map distinct_upt inj_on_def) simp
  then have dist: "distinct d" by (simp add: distinct_map)
  have "c \<in> set d" if "Valid c" for c
  proof -
    have "Index c \<in> int ` {0..<52}" using Valid_Index_range [OF that]
      by (intro image_eqI [of _ _ "nat (Index c)"]) (auto simp: DeckSize_def)
    then have "Index c \<in> set (map Index d)" unfolding d(2) set_map set_upt .
    then obtain c' where "c' \<in> set d" "Index c' = Index c" by auto
    then show ?thesis using d(3) FromIndex_Index that by (metis sum.inject(2))
  qed
  with d dist show ?thesis by blast
qed

text \<open>
  a local shuffle is a permutation of the deck. Whatever the random source returns within the
  bounds it is asked for, the Fisher-Yates pass neither loses nor duplicates a card.
\<close>

theorem Shuffled_permutation:
  assumes "\<And>k. 0 < k \<Longrightarrow> k < 52 \<Longrightarrow> \<exists>j. rnd k = Some j \<and> j \<le> k"
  shows "\<exists>d d'. Ordered = Some d \<and> Shuffled rnd = Some d' \<and> mset d' = mset d"
proof -
  obtain d where d: "Ordered = Some d" "map Index d = map int [0..<52]"
    using fill_deck_indices [of 0 52] by (auto simp: Ordered_def DeckSize_def)
  have "length d = 52" using arg_cong [OF d(2), of length] by (simp only: length_map length_upt)
  with assms obtain d' where d': "fisher_yates rnd (length d - 1) d = Some d'" "mset d' = mset d"
    using fisher_yates_permutes [of d rnd "length d - 1"] by auto
  have "Shuffled rnd = Some d'" using d' by (simp add: Shuffled_def d(1))
  with d(1) d'(2) show ?thesis by blast
qed

theorem Shuffled_permutation_witness:
  "\<exists>d d'. Ordered = Some d \<and> Shuffled (\<lambda>k. Some (k div 2)) = Some d' \<and> mset d' = mset d"
  by (rule Shuffled_permutation) simp

text \<open>
  what a seat's wallet prints is what the coordinator reads: \<open>parseCard\<close> recovers every real
  card from its \<open>String\<close> form.
\<close>

theorem parseCard_String:
  assumes "Valid c"
  shows "parseCard (Card_String c) = Inr c"
proof -
  obtain r s where c: "c = \<lparr>Rank = r, Suit = s\<rparr>" by (cases c)
  have "r \<in> set [2..14]" "s \<in> set [0..<4]"
    using assms unfolding set_upto set_upt by (auto simp: c Valid_def rank_defs suit_defs)
  then show ?thesis unfolding c using all_cards_parse by (auto simp only: list_all_iff)
qed

theorem parseCard_String_witness:
  "parseCard (Card_String \<lparr>Rank = 10, Suit = 1\<rparr>) = Inr \<lparr>Rank = 10, Suit = 1\<rparr>"
  by (rule parseCard_String) (simp add: Valid_def rank_defs suit_defs)

end
