(* ===== verification/Eval.thy ===== *)
theory Eval
  imports Cards "HOL-Library.Multiset" "HOL-Library.Sublist"
begin

text \<open>
  The hand evaluator of \<^verbatim>\<open>internal/game/eval/eval.go\<close>: the five-card scorer \<open>score5\<close>, the
  enumeration of combinations \<open>forEachCombination\<close> with its in-place index array, and the two
  searches over it, \<open>Best\<close> and \<open>BestConstrained\<close>. Go's fixed arrays are lists of that length;
  \<open>int64\<close> scores are \<open>int\<close> (a score is below \<open>9 * 16 ^ 5\<close>, see \<open>score5_bounds\<close>).
\<close>

section \<open>The scorer\<close>

text \<open>\<open>PairCat\<close> is the source's \<open>Pair\<close>, a name HOL has taken.\<close>

datatype category = HighCard | PairCat | TwoPair | Trips | Straight | Flush | FullHouse | Quads
  | StraightFlush

fun cat_int :: "category \<Rightarrow> int" where
  "cat_int HighCard = 0"
| "cat_int PairCat = 1"
| "cat_int TwoPair = 2"
| "cat_int Trips = 3"
| "cat_int Straight = 4"
| "cat_int Flush = 5"
| "cat_int FullHouse = 6"
| "cat_int Quads = 7"
| "cat_int StraightFlush = 8"

fun Category_String :: "category \<Rightarrow> string" where
  "Category_String HighCard = ''high card''"
| "Category_String PairCat = ''pair''"
| "Category_String TwoPair = ''two pair''"
| "Category_String Trips = ''three of a kind''"
| "Category_String Straight = ''straight''"
| "Category_String Flush = ''flush''"
| "Category_String FullHouse = ''full house''"
| "Category_String Quads = ''four of a kind''"
| "Category_String StraightFlush = ''straight flush''"

definition HandSize :: nat where "HandSize = 5"

record result =
  Category :: category
  Score :: int
  BestFive :: "card list"

text \<open>The counting loops: \<open>rankCount[c.Rank]++\<close>, \<open>suitCount[c.Suit]++\<close>, \<open>present[c.Rank] = true\<close>.\<close>

fun tally :: "(card \<Rightarrow> nat) \<Rightarrow> nat list \<Rightarrow> card list \<Rightarrow> nat list" where
  "tally key a [] = a"
| "tally key a (c # cs) = tally key (a[key c := a ! key c + 1]) cs"

fun mark :: "(card \<Rightarrow> nat) \<Rightarrow> bool list \<Rightarrow> card list \<Rightarrow> bool list" where
  "mark key a [] = a"
| "mark key a (c # cs) = mark key (a[key c := True]) cs"

definition rank_nat :: "card \<Rightarrow> nat" where "rank_nat c = nat (Rank c)"

definition rankCount :: "card list \<Rightarrow> nat list" where
  "rankCount five = tally rank_nat (replicate 15 0) five"

definition suitCount :: "card list \<Rightarrow> nat list" where
  "suitCount five = tally Suit (replicate 4 0) five"

definition flush :: "card list \<Rightarrow> bool" where
  "flush five \<longleftrightarrow> list_ex (\<lambda>n. n = HandSize) (suitCount five)"

definition straightHigh :: "card list \<Rightarrow> nat" where
  "straightHigh five =
     (let present = mark rank_nat (replicate 15 False) five
      in case find (\<lambda>hi. present ! hi \<and> present ! (hi - 1) \<and> present ! (hi - 2)
                       \<and> present ! (hi - 3) \<and> present ! (hi - 4)) (rev [6..<15]) of
           Some hi \<Rightarrow> hi
         | None \<Rightarrow> (if present ! 14 \<and> present ! 2 \<and> present ! 3 \<and> present ! 4 \<and> present ! 5
                    then 5 else 0))"

text \<open>
  \<open>sortByCountThenRank\<close>: \<open>sift\<close> is the inner loop, which carries the element at \<open>j\<close> down until
  its left neighbour precedes it; the outer loop runs it from every position.
\<close>

definition precedes :: "nat list \<Rightarrow> nat \<Rightarrow> nat \<Rightarrow> bool" where
  "precedes cnt a b \<longleftrightarrow> cnt ! a > cnt ! b \<or> (cnt ! a = cnt ! b \<and> a \<ge> b)"

fun sift :: "nat list \<Rightarrow> nat \<Rightarrow> nat list \<Rightarrow> nat list" where
  "sift cnt 0 rs = rs"
| "sift cnt (Suc j) rs =
     (if precedes cnt (rs ! j) (rs ! Suc j) then rs
      else sift cnt j (swap rs j (Suc j)))"

definition sortByCountThenRank :: "nat list \<Rightarrow> nat list \<Rightarrow> nat list" where
  "sortByCountThenRank cnt rs = fold (sift cnt) [1..<length rs] rs"

definition byCount :: "card list \<Rightarrow> nat list" where
  "byCount five =
     (let rc = rankCount five
      in sortByCountThenRank rc (filter (\<lambda>r. rc ! r > 0) (rev [2..<15])))"

definition groupSize :: "card list \<Rightarrow> nat \<Rightarrow> nat" where
  "groupSize five i =
     (if i \<ge> length (byCount five) then 0 else rankCount five ! (byCount five ! i))"

definition descendingRanks :: "card list \<Rightarrow> nat list" where
  "descendingRanks five =
     concat (map (\<lambda>r. map (\<lambda>_. r) (filter (\<lambda>c. Rank c = int r) five)) (rev [2..<15]))"

definition classify :: "card list \<Rightarrow> category \<times> nat list" where
  "classify five =
     (let sh = straightHigh five; bc = byCount five; g = groupSize five
      in if sh > 0 \<and> flush five then (StraightFlush, [sh])
         else if g 0 = 4 then (Quads, [bc ! 0, bc ! 1])
         else if g 0 = 3 \<and> g 1 = 2 then (FullHouse, [bc ! 0, bc ! 1])
         else if flush five then (Flush, descendingRanks five)
         else if sh > 0 then (Straight, [sh])
         else if g 0 = 3 then (Trips, bc)
         else if g 0 = 2 \<and> g 1 = 2 then (TwoPair, bc)
         else if g 0 = 2 then (PairCat, bc)
         else (HighCard, descendingRanks five))"

definition pack :: "category \<Rightarrow> nat list \<Rightarrow> int" where
  "pack cat tiebreak =
     fold (\<lambda>t score. score * 16 + int t) tiebreak (cat_int cat) * 16 ^ (HandSize - length tiebreak)"

definition score5 :: "card list \<Rightarrow> category \<times> int" where
  "score5 five = (let (cat, tiebreak) = classify five in (cat, pack cat tiebreak))"

section \<open>The searches\<close>

text \<open>
  \<open>forEachCombination\<close> advances an index array in place. \<open>pivot\<close> is its scan from the right for
  the first index that can still grow, \<open>refill\<close> the loop that resets the indices after it. The
  callback threads the caller's captured variables as a state; it may itself not return
  (\<open>None\<close>), and \<open>False\<close> stops the iteration.
\<close>

fun pivot :: "nat \<Rightarrow> nat \<Rightarrow> nat list \<Rightarrow> nat \<Rightarrow> nat option" where
  "pivot n k idx 0 = None"
| "pivot n k idx (Suc i) = (if idx ! i = n - k + i then pivot n k idx i else Some i)"

definition refill :: "nat \<Rightarrow> nat \<Rightarrow> nat list \<Rightarrow> nat list" where
  "refill i k idx = fold (\<lambda>j xs. xs[j := xs ! (j - 1) + 1]) [Suc i..<k] idx"

definition next_idx :: "nat \<Rightarrow> nat \<Rightarrow> nat list \<Rightarrow> nat list option" where
  "next_idx n k idx =
     (case pivot n k idx k of
        None \<Rightarrow> None
      | Some i \<Rightarrow> Some (refill i k (idx[i := idx ! i + 1])))"

partial_function (option) comb_loop ::
  "nat \<Rightarrow> nat \<Rightarrow> (nat list \<Rightarrow> 's \<Rightarrow> (bool \<times> 's) option) \<Rightarrow> nat list \<Rightarrow> 's \<Rightarrow> 's option" where
  "comb_loop n k fn idx s =
     (case fn idx s of
        None \<Rightarrow> None
      | Some (continue, s') \<Rightarrow>
          (if \<not> continue then Some s'
           else case next_idx n k idx of
                  None \<Rightarrow> Some s'
                | Some idx' \<Rightarrow> comb_loop n k fn idx' s'))"

definition forEachCombination ::
  "nat \<Rightarrow> int \<Rightarrow> (nat list \<Rightarrow> 's \<Rightarrow> (bool \<times> 's) option) \<Rightarrow> 's \<Rightarrow> 's option" where
  "forEachCombination n k fn s =
     (if k \<le> 0 \<or> k > int n then Some s else comb_loop n (nat k) fn [0..<nat k] s)"

text \<open>\<open>NoReturn\<close> stands for a search that runs forever; \<open>search_total\<close> shows there is none.\<close>

datatype eval_error = NeedCards nat | InvalidCard card | NeedHole int | NeedBoard int
  | NoFiveCardHand | NoReturn

definition zero_card :: card where "zero_card = \<lparr>Rank = 0, Suit = 0\<rparr>"

definition zero_result :: result where
  "zero_result = \<lparr>Category = HighCard, Score = 0, BestFive = replicate 5 zero_card\<rparr>"

definition Score5 :: "card list \<Rightarrow> (eval_error, result) res" where
  "Score5 hand =
     (case find (\<lambda>c. \<not> Valid c) hand of
        Some c \<Rightarrow> Inl (InvalidCard c)
      | None \<Rightarrow> (case score5 hand of
                   (cat, score) \<Rightarrow> Inr \<lparr>Category = cat, Score = score, BestFive = hand\<rparr>))"

text \<open>The captured pair \<open>(found, best)\<close> after one five-card candidate.\<close>

definition keepBest :: "card list \<Rightarrow> bool \<times> result \<Rightarrow> bool \<times> result" where
  "keepBest five st =
     (case score5 five of
        (cat, score) \<Rightarrow>
          (if \<not> fst st \<or> score > Score (snd st)
           then (True, \<lparr>Category = cat, Score = score, BestFive = five\<rparr>) else st))"

definition Best :: "card list \<Rightarrow> (eval_error, result) res" where
  "Best hand =
     (if length hand < HandSize then Inl (NeedCards (length hand))
      else case find (\<lambda>c. \<not> Valid c) hand of
             Some c \<Rightarrow> Inl (InvalidCard c)
           | None \<Rightarrow>
               (case forEachCombination (length hand) (int HandSize)
                       (\<lambda>idx st. Some (True, keepBest (map ((!) hand) idx) st))
                       (False, zero_result) of
                  None \<Rightarrow> Inl NoReturn
                | Some st \<Rightarrow> Inr (snd st)))"

definition BestConstrained ::
  "card list \<Rightarrow> card list \<Rightarrow> int \<Rightarrow> (eval_error, result) res" where
  "BestConstrained hole board useHole =
     (if useHole \<le> 0 then Best (hole @ board)
      else if useHole > int (length hole) then Inl (NeedHole useHole)
      else let useBoard = int HandSize - useHole
        in if useBoard > int (length board) then Inl (NeedBoard useBoard)
           else case find (\<lambda>c. \<not> Valid c) (hole @ board) of
                  Some c \<Rightarrow> Inl (InvalidCard c)
                | None \<Rightarrow>
                    (case forEachCombination (length hole) useHole
                            (\<lambda>hIdx st. map_option (Pair True)
                               (forEachCombination (length board) useBoard
                                  (\<lambda>bIdx st'. Some (True,
                                     keepBest (map ((!) hole) hIdx @ map ((!) board) bIdx) st'))
                                  st))
                            (False, zero_result) of
                       None \<Rightarrow> Inl NoReturn
                     | Some (found, best) \<Rightarrow> (if \<not> found then Inl NoFiveCardHand else Inr best)))"

section \<open>The enumeration\<close>

text \<open>
  The reference for \<open>forEachCombination\<close>: all increasing lists of \<open>k\<close> numbers from \<open>lo\<close> to
  \<open>n - 1\<close>, in lexicographic order, by recursion on the range. \<open>next_rec\<close> is the successor in that
  order by recursion on the list, \<open>next_idx\<close> the source's in-place version of it.
\<close>

function combs :: "nat \<Rightarrow> nat \<Rightarrow> nat \<Rightarrow> nat list list" where
  "combs lo n 0 = [[]]"
| "combs lo n (Suc k) =
     (if lo < n then map ((#) lo) (combs (Suc lo) n k) @ combs (Suc lo) n (Suc k) else [])"
  by pat_completeness auto
termination by (relation "measure (\<lambda>(lo, n, k). n - lo)") auto

lemma combs_Suc_unfold:
  "lo < n \<Longrightarrow> combs lo n (Suc k) = map ((#) lo) (combs (Suc lo) n k) @ combs (Suc lo) n (Suc k)"
  by simp

lemma combs_Suc_empty: "\<not> lo < n \<Longrightarrow> combs lo n (Suc k) = []"
  by simp

declare combs.simps(2) [simp del]

lemma set_combs:
  "xs \<in> set (combs lo n k) \<longleftrightarrow> length xs = k \<and> sorted_wrt (<) xs \<and> set xs \<subseteq> {lo..<n}"
proof (induction lo n k arbitrary: xs rule: combs.induct)
  case (1 lo n)
  then show ?case by auto
next
  case (2 lo n k)
  show ?case
  proof (cases "lo < n")
    case True
    have *: "sorted_wrt (<) xs \<and> set xs \<subseteq> {lo..<n} \<and> length xs = Suc k \<longleftrightarrow>
       (\<exists>ys. xs = lo # ys \<and> length ys = k \<and> sorted_wrt (<) ys \<and> set ys \<subseteq> {Suc lo..<n})
       \<or> (sorted_wrt (<) xs \<and> set xs \<subseteq> {Suc lo..<n} \<and> length xs = Suc k)"
    proof (cases xs)
      case (Cons a ys)
      show ?thesis unfolding Cons using True
        by (auto simp: Suc_le_eq less_le; fastforce)
    qed auto
    show ?thesis
      using True 2 * by (auto simp: combs_Suc_unfold [of lo n k])
  next
    case False
    then show ?thesis by (cases xs) (auto simp: combs_Suc_empty)
  qed
qed

lemma combs_Nil_iff: "combs lo n k = [] \<longleftrightarrow> lo + k > n \<and> k > 0"
proof (induction lo n k rule: combs.induct)
  case (2 lo n k)
  then show ?case by (cases "lo < n") (auto simp: combs_Suc_unfold [of lo n k] combs_Suc_empty)
qed simp

lemma hd_combs: "lo + k \<le> n \<Longrightarrow> hd (combs lo n k) = [lo..<lo + k]"
proof (induction lo n k rule: combs.induct)
  case (2 lo n k)
  then have ne: "combs (Suc lo) n k \<noteq> []" by (simp add: combs_Nil_iff)
  from 2 have "hd (combs (Suc lo) n k) = [Suc lo..<Suc lo + k]" by simp
  with 2(3) ne show ?case
    by (simp add: combs_Suc_unfold [of lo n k] hd_append hd_map upt_conv_Cons)
qed simp

lemma distinct_combs: "distinct (combs lo n k)"
proof (induction lo n k rule: combs.induct)
  case (2 lo n k)
  have "lo # ys \<notin> set (combs (Suc lo) n (Suc k))" for ys
    by (auto simp: set_combs)
  with 2 show ?case
    by (cases "lo < n") (auto simp: combs_Suc_unfold [of lo n k] combs_Suc_empty distinct_map)
qed simp

fun next_rec :: "nat \<Rightarrow> nat list \<Rightarrow> nat list option" where
  "next_rec n [] = None"
| "next_rec n (a # r) =
     (case next_rec n r of
        Some r' \<Rightarrow> Some (a # r')
      | None \<Rightarrow> (if a + length (a # r) < n then Some [Suc a..<Suc a + length (a # r)] else None))"

definition enumerates :: "('a \<Rightarrow> 'a option) \<Rightarrow> 'a list \<Rightarrow> bool" where
  "enumerates f xs \<longleftrightarrow> successively (\<lambda>x y. f x = Some y) xs \<and> (xs \<noteq> [] \<longrightarrow> f (last xs) = None)"

lemma enumerates_Cons_Cons:
  "enumerates f (x # y # ys) \<longleftrightarrow> f x = Some y \<and> enumerates f (y # ys)"
  by (auto simp: enumerates_def)

lemma combs_enumerates: "enumerates (next_rec n) (combs lo n k)"
proof (induction lo n k rule: combs.induct)
  case (1 lo n)
  then show ?case by (simp add: enumerates_def)
next
  case (2 lo n k)
  show ?case
  proof (cases "lo < n \<and> lo + Suc k \<le> n")
    case False
    then have "combs lo n (Suc k) = []" by (auto simp: combs_Nil_iff)
    then show ?thesis by (simp add: enumerates_def)
  next
    case True
    let ?A = "combs (Suc lo) n k" and ?B = "combs (Suc lo) n (Suc k)"
    have A: "successively (\<lambda>x y. next_rec n x = Some y) ?A" "?A \<noteq> []"
      "next_rec n (last ?A) = None"
      using 2(1) True by (auto simp: enumerates_def combs_Nil_iff)
    have len: "length (last ?A) = k"
      using A(2) last_in_set set_combs by blast
    have mA: "successively (\<lambda>x y. next_rec n x = Some y) (map ((#) lo) ?A)"
      using A(1) by (auto simp: successively_map elim!: successively_mono)
    have B: "successively (\<lambda>x y. next_rec n x = Some y) ?B"
      "?B \<noteq> [] \<Longrightarrow> next_rec n (last ?B) = None"
      using 2(2) True by (auto simp: enumerates_def)
    have join: "next_rec n (lo # last ?A) = Some (hd ?B)" if "?B \<noteq> []"
      using that A(3) len hd_combs [of "Suc lo" "Suc k" n] by (auto simp: combs_Nil_iff)
    have stop: "next_rec n (lo # last ?A) = None" if "?B = []"
      using that A(3) len by (auto simp: combs_Nil_iff)
    show ?thesis
    proof (cases "?B = []")
      case True
      then show ?thesis using mA stop A(2) \<open>lo < n \<and> _\<close>
        by (auto simp: enumerates_def combs_Suc_unfold last_map)
    next
      case False
      then show ?thesis using mA join B A(2) \<open>lo < n \<and> _\<close>
        by (auto simp: enumerates_def combs_Suc_unfold last_map successively_append_iff)
    qed
  qed
qed


lemma refill_upto:
  assumes "i < m" "m \<le> length xs"
  shows "refill i m xs = take (Suc i) xs @ [xs ! i + 1..<xs ! i + (m - i)] @ drop m xs"
  using assms
proof (induction m)
  case (Suc m)
  show ?case
  proof (cases "i = m")
    case True
    then show ?thesis using Suc.prems by (simp add: refill_def)
  next
    case False
    with Suc have IH: "refill i m xs = take (Suc i) xs @ [xs ! i + 1..<xs ! i + (m - i)] @ drop m xs"
      and im: "i < m" by auto
    have len: "length (take (Suc i) xs @ [xs ! i + 1..<xs ! i + (m - i)]) = m"
      using im Suc.prems by simp
    have prev: "refill i m xs ! (m - 1) = xs ! i + (m - 1 - i)"
      using im Suc.prems by (auto simp: IH nth_append not_less less_Suc_eq)
    have "refill i (Suc m) xs = (refill i m xs)[m := refill i m xs ! (m - 1) + 1]"
      using im by (simp add: refill_def)
    also have "\<dots> = (refill i m xs)[m := xs ! i + (m - i)]"
      unfolding prev using im by (simp add: Suc_diff_le Suc_diff_Suc)
    also have "\<dots> = (take (Suc i) xs @ [xs ! i + 1..<xs ! i + (m - i)])
                     @ (drop m xs)[0 := xs ! i + (m - i)]"
      unfolding IH append_assoc [symmetric] using len by (subst list_update_append) simp
    also have "\<dots> = take (Suc i) xs @ [xs ! i + 1..<xs ! i + (Suc m - i)] @ drop (Suc m) xs"
      using im Suc.prems by (simp add: Cons_nth_drop_Suc [symmetric] Suc_diff_le)
    finally show ?thesis .
  qed
qed simp

lemma pivot_Cons:
  assumes "j \<le> m" "Suc m \<le> n"
  shows "pivot n (Suc m) (a # r) (Suc j) =
     (case pivot n m r j of
        Some i \<Rightarrow> Some (Suc i)
      | None \<Rightarrow> (if a = n - Suc m then None else Some 0))"
  using assms
proof (induction j)
  case (Suc j)
  then have "n - Suc m + Suc j = n - m + j" by simp
  with Suc show ?case by simp
qed simp

lemma increasing_room:
  assumes "sorted_wrt (<) (a # r)" "set (a # r) \<subseteq> {..<n}"
  shows "a + length r < (n::nat)"
proof -
  have "distinct r" using assms(1) by (simp add: strict_sorted_iff)
  moreover have "set r \<subseteq> {Suc a..<n}" using assms by (auto simp: Suc_le_eq)
  ultimately have "length r \<le> card {Suc a..<n}"
    by (metis card_mono distinct_card finite_atLeastLessThan)
  moreover have "a < n" using assms(2) by simp
  ultimately show ?thesis by simp
qed

lemma next_rec_pivot:
  assumes "sorted_wrt (<) r" "set r \<subseteq> {..<n}"
  shows "next_rec n r =
     (case pivot n (length r) r (length r) of
        None \<Rightarrow> None
      | Some i \<Rightarrow> Some (take i r @ [r ! i + 1..<r ! i + 1 + (length r - i)]))"
  using assms
proof (induction r)
  case (Cons a r)
  have room: "a + length r < n" using increasing_room [OF Cons.prems] .
  then have "pivot n (Suc (length r)) (a # r) (Suc (length r)) =
      (case pivot n (length r) r (length r) of
        Some i \<Rightarrow> Some (Suc i)
      | None \<Rightarrow> (if a = n - Suc (length r) then None else Some 0))"
    by (intro pivot_Cons) auto
  moreover have "a = n - Suc (length r) \<longleftrightarrow> \<not> a + Suc (length r) < n" using room by auto
  ultimately show ?case
    using Cons by (auto split: option.splits)
qed simp

lemma pivot_less: "pivot n k idx j = Some i \<Longrightarrow> i < j"
  by (induction j) (auto split: if_splits)

lemma next_idx_eq:
  assumes "length idx = k" "sorted_wrt (<) idx" "set idx \<subseteq> {..<n}"
  shows "next_idx n k idx = next_rec n idx"
proof (cases "pivot n k idx k")
  case None
  then show ?thesis using next_rec_pivot [OF assms(2,3)] assms(1) by (simp add: next_idx_def)
next
  case (Some i)
  then have i: "i < length idx" using pivot_less assms(1) by blast
  then have "refill i k (idx[i := idx ! i + 1])
           = take i idx @ [idx ! i + 1..<idx ! i + 1 + (k - i)]"
    using assms(1)
    by (simp add: refill_upto take_Suc_conv_app_nth upt_conv_Cons [of "Suc (idx ! i)"]) arith
  then show ?thesis
    using next_rec_pivot [OF assms(2,3)] assms(1) Some by (simp add: next_idx_def)
qed

text \<open>What running the callback over a list of combinations means.\<close>

fun fold_until :: "('i \<Rightarrow> 's \<Rightarrow> (bool \<times> 's) option) \<Rightarrow> 'i list \<Rightarrow> 's \<Rightarrow> 's option" where
  "fold_until fn [] s = Some s"
| "fold_until fn (x # xs) s =
     (case fn x s of None \<Rightarrow> None | Some (continue, s') \<Rightarrow>
        (if continue then fold_until fn xs s' else Some s'))"

lemma comb_loop_enumerates:
  assumes "enumerates (next_rec n) (x # xs)"
    and "\<And>y. y \<in> set (x # xs) \<Longrightarrow> length y = k \<and> sorted_wrt (<) y \<and> set y \<subseteq> {..<n}"
  shows "comb_loop n k fn x s = fold_until fn (x # xs) s"
  using assms
proof (induction xs arbitrary: x s)
  case Nil
  then have "next_idx n k x = None" by (simp add: enumerates_def next_idx_eq)
  then show ?case by (simp add: comb_loop.simps split: option.splits)
next
  case (Cons y ys)
  then have "next_idx n k x = Some y" and "enumerates (next_rec n) (y # ys)"
    by (simp_all add: enumerates_Cons_Cons next_idx_eq)
  with Cons show ?case
    by (subst comb_loop.simps) (simp split: option.splits)
qed

lemma forEachCombination_eq:
  "forEachCombination n k fn s = fold_until fn (if 0 < k then combs 0 n (nat k) else []) s"
proof (cases "k \<le> 0 \<or> k > int n")
  case True
  then have "(if 0 < k then combs 0 n (nat k) else []) = []" by (auto simp: combs_Nil_iff)
  with True show ?thesis by (simp only: forEachCombination_def fold_until.simps if_True)
next
  case False
  let ?k = "nat k"
  have ne: "combs 0 n ?k \<noteq> []" and hd: "hd (combs 0 n ?k) = [0..<?k]"
    using False hd_combs [of 0 ?k n] by (auto simp: combs_Nil_iff)
  then obtain rest where c: "combs 0 n ?k = [0..<?k] # rest" by (metis list.exhaust_sel)
  have "comb_loop n ?k fn [0..<?k] s = fold_until fn (combs 0 n ?k) s"
    unfolding c
  proof (rule comb_loop_enumerates)
    show "enumerates (next_rec n) ([0..<?k] # rest)"
      using combs_enumerates [of n 0 ?k] c by simp
    show "length y = ?k \<and> sorted_wrt (<) y \<and> set y \<subseteq> {..<n}" if "y \<in> set ([0..<?k] # rest)" for y
      using that set_combs [of y 0 n ?k] unfolding c by auto
  qed
  with False show ?thesis by (simp add: forEachCombination_def)
qed

lemma nths_conv_map: "nths xs N = map ((!) xs) (filter (\<lambda>i. i \<in> N) [0..<length xs])"
proof (induction xs rule: rev_induct)
  case (snoc x xs)
  then show ?case
    by (auto simp: nths_append nth_append intro!: map_cong)
qed simp

lemma increasing_eq_filter:
  assumes "sorted_wrt (<) idx" "set idx \<subseteq> {..<n}"
  shows "idx = filter (\<lambda>i. i \<in> set idx) [0..<(n::nat)]"
proof (rule sorted_distinct_set_unique)
  show "sorted idx" "distinct idx" using assms(1) by (simp_all add: strict_sorted_iff)
  show "set idx = set (filter (\<lambda>i. i \<in> set idx) [0..<n])" using assms(2) by auto
qed (simp_all add: sorted_wrt_filter)

lemma combs_subseq:
  "map ((!) xs) ` set (combs 0 (length xs) k) = {ys. subseq ys xs \<and> length ys = k}"
proof (intro set_eqI iffI)
  fix ys assume "ys \<in> map ((!) xs) ` set (combs 0 (length xs) k)"
  then obtain idx where "ys = map ((!) xs) idx" "length idx = k" "sorted_wrt (<) idx"
    "set idx \<subseteq> {..<length xs}"
    by (auto simp: set_combs atLeast0LessThan)
  then have "ys = nths xs (set idx)" "length ys = k"
    using increasing_eq_filter nths_conv_map by (metis, simp)
  then show "ys \<in> {ys. subseq ys xs \<and> length ys = k}" by (auto simp: subseq_conv_nths)
next
  fix ys assume "ys \<in> {ys. subseq ys xs \<and> length ys = k}"
  then obtain N where N: "ys = nths xs N" "length ys = k" by (auto simp: subseq_conv_nths)
  let ?idx = "filter (\<lambda>i. i \<in> N) [0..<length xs]"
  have ys: "ys = map ((!) xs) ?idx" using N(1) nths_conv_map by metis
  have "length ?idx = k" using N(2) ys by (metis length_map)
  moreover have "sorted_wrt (<) ?idx" by (simp add: sorted_wrt_filter)
  moreover have "set ?idx \<subseteq> {0..<length xs}" by auto
  ultimately have "?idx \<in> set (combs 0 (length xs) k)" unfolding set_combs by simp
  with ys show "ys \<in> map ((!) xs) ` set (combs 0 (length xs) k)" by (metis image_eqI)
qed

lemma fold_until_always:
  assumes "\<And>x s. fn x s = Some (True, g x s)"
  shows "fold_until fn xs s = Some (fold g xs s)"
  using assms by (induction xs arbitrary: s) auto

section \<open>Searching for the best\<close>

text \<open>
  The two searches keep the first candidate and replace it by a strictly better one. What a
  search promises is stated once, for any scored candidate: the update it makes for each
  candidate as the laws, the optimality of what a run over a list of candidates leaves as the
  lemma.
\<close>

locale scored_search =
  fixes score :: "'c \<Rightarrow> int"
    and update :: "'c \<Rightarrow> bool \<times> 'r \<Rightarrow> bool \<times> 'r"
    and result_of :: "'c \<Rightarrow> 'r"
    and res_score :: "'r \<Rightarrow> int"
  assumes update_first: "\<not> fst st \<Longrightarrow> update c st = (True, result_of c)"
    and update_better: "score c > res_score (snd st) \<Longrightarrow> update c st = (True, result_of c)"
    and update_keep: "fst st \<Longrightarrow> score c \<le> res_score (snd st) \<Longrightarrow> update c st = st"
    and res_score_of: "res_score (result_of c) = score c"
begin

lemma fold_found: "fst st \<or> cs \<noteq> [] \<Longrightarrow> fst (fold update cs st)"
proof (induction cs arbitrary: st)
  case (Cons c cs)
  have "fst (update c st)"
    by (cases "fst st") (metis fst_conv not_le update_better update_keep, simp add: update_first)
  then show ?case using Cons.IH by simp
qed simp

lemma fold_best:
  assumes "cs \<noteq> []"
  shows "\<exists>c \<in> set cs. fold update cs (False, r) = (True, result_of c) \<and> (\<forall>d \<in> set cs. score d \<le> score c)"
  using assms
proof (induction cs rule: rev_nonempty_induct)
  case (single c)
  show ?case by (simp add: update_first)
next
  case (snoc x xs)
  then obtain c where c: "c \<in> set xs" "fold update xs (False, r) = (True, result_of c)"
    "\<forall>d \<in> set xs. score d \<le> score c" by blast
  show ?case
  proof (cases "score x > score c")
    case True
    then have "fold update (xs @ [x]) (False, r) = (True, result_of x)"
      using c(2) by (simp add: update_better res_score_of)
    with True c(3) show ?thesis by (intro bexI [of _ x]) auto
  next
    case False
    then have "fold update (xs @ [x]) (False, r) = (True, result_of c)"
      using c(2) by (simp add: update_keep res_score_of)
    with False c(1,3) show ?thesis by (intro bexI [of _ c]) auto
  qed
qed

lemma fold_none: "cs = [] \<Longrightarrow> fold update cs (False, r) = (False, r)"
  by simp

end

definition five_score :: "card list \<Rightarrow> int" where
  "five_score five = snd (score5 five)"

definition five_result :: "card list \<Rightarrow> result" where
  "five_result five = \<lparr>Category = fst (score5 five), Score = snd (score5 five), BestFive = five\<rparr>"

interpretation fives: scored_search five_score keepBest five_result Score
  by unfold_locales
    (auto simp: keepBest_def five_score_def five_result_def split: prod.splits)

lemma find_None_all: "find (\<lambda>c. \<not> P c) xs = None \<longleftrightarrow> (\<forall>c \<in> set xs. P c)"
  by (auto simp: find_None_iff)

lemma Best_search:
  assumes "HandSize \<le> length hand" "\<forall>c \<in> set hand. Valid c"
  shows "Best hand = Inr (snd (fold keepBest
           (map (map ((!) hand)) (combs 0 (length hand) HandSize)) (False, zero_result)))"
proof -
  have "forEachCombination (length hand) (int HandSize)
          (\<lambda>idx st. Some (True, keepBest (map ((!) hand) idx) st)) (False, zero_result)
      = Some (fold (\<lambda>idx. keepBest (map ((!) hand) idx)) (combs 0 (length hand) HandSize)
                (False, zero_result))"
    by (simp add: forEachCombination_eq fold_until_always HandSize_def)
  with assms show ?thesis
    by (simp add: Best_def find_None_all [THEN iffD2] fold_map comp_def)
qed

lemma Best_optimal:
  assumes "HandSize \<le> length hand" "\<forall>c \<in> set hand. Valid c"
  shows "\<exists>five. subseq five hand \<and> length five = HandSize \<and> Best hand = Inr (five_result five)
       \<and> (\<forall>other. subseq other hand \<and> length other = HandSize \<longrightarrow> five_score other \<le> five_score five)"
proof -
  let ?cs = "map (map ((!) hand)) (combs 0 (length hand) HandSize)"
  have "?cs \<noteq> []" using assms(1) by (simp add: combs_Nil_iff)
  from fives.fold_best [OF this, of zero_result] obtain five where
    five: "five \<in> set ?cs" "fold keepBest ?cs (False, zero_result) = (True, five_result five)"
      "\<forall>d \<in> set ?cs. five_score d \<le> five_score five" by blast
  have "set ?cs = {ys. subseq ys hand \<and> length ys = HandSize}"
    using combs_subseq by (simp only: set_map)
  then show ?thesis using five(1,3) five(2) [THEN arg_cong [of _ _ snd]] Best_search [OF assms]
    by (intro exI [of _ five]) (simp only: mem_Collect_eq snd_conv, blast)
qed

lemma Best_errors:
  "Best hand = Inl e \<longleftrightarrow>
     (length hand < HandSize \<and> e = NeedCards (length hand))
   \<or> (HandSize \<le> length hand \<and> (\<exists>c. find (\<lambda>c. \<not> Valid c) hand = Some c \<and> e = InvalidCard c))"
proof (cases "HandSize \<le> length hand \<and> (\<forall>c \<in> set hand. Valid c)")
  case True
  then have "find (\<lambda>c. \<not> Valid c) hand = None" by (simp add: find_None_all [THEN iffD2])
  with True Best_search show ?thesis by auto
next
  case False
  then show ?thesis using find_None_all [of Valid hand]
    by (cases "find (\<lambda>c. \<not> Valid c) hand") (auto simp: Best_def)
qed

text \<open>The candidates of a constrained search, in the order the nested loops visit them.\<close>

definition constrained_fives :: "card list \<Rightarrow> card list \<Rightarrow> int \<Rightarrow> card list list" where
  "constrained_fives hole board useHole =
     concat (map (\<lambda>h. map (\<lambda>b. map ((!) hole) h @ map ((!) board) b)
                (if useHole < int HandSize then combs 0 (length board) (nat (int HandSize - useHole)) else []))
       (if 0 < useHole then combs 0 (length hole) (nat useHole) else []))"

lemma fold_constrained:
  "fold (\<lambda>h. fold (\<lambda>b. keepBest (map ((!) hole) h @ map ((!) board) b)) bs) hs st
 = fold keepBest (concat (map (\<lambda>h. map (\<lambda>b. map ((!) hole) h @ map ((!) board) b) bs) hs)) st"
  by (induction hs arbitrary: st) (simp_all add: fold_map comp_def)

lemma BestConstrained_search:
  assumes "0 < useHole" "useHole \<le> int (length hole)" "int HandSize - useHole \<le> int (length board)"
    and "\<forall>c \<in> set (hole @ board). Valid c"
  shows "BestConstrained hole board useHole =
    (case fold keepBest (constrained_fives hole board useHole) (False, zero_result) of
       (found, best) \<Rightarrow> if \<not> found then Inl NoFiveCardHand else Inr best)"
proof -
  let ?bs = "if useHole < int HandSize then combs 0 (length board) (nat (int HandSize - useHole)) else []"
  have inner: "map_option (Pair True) (forEachCombination (length board) (int HandSize - useHole)
       (\<lambda>bIdx st'. Some (True, keepBest (map ((!) hole) h @ map ((!) board) bIdx) st')) st)
     = Some (True, fold (\<lambda>b. keepBest (map ((!) hole) h @ map ((!) board) b)) ?bs st)" for h st
    by (simp add: forEachCombination_eq fold_until_always)
  have outer: "forEachCombination (length hole) useHole
       (\<lambda>hIdx st. map_option (Pair True) (forEachCombination (length board) (int HandSize - useHole)
       (\<lambda>bIdx st'. Some (True, keepBest (map ((!) hole) hIdx @ map ((!) board) bIdx) st')) st))
       (False, zero_result)
     = Some (fold keepBest (constrained_fives hole board useHole) (False, zero_result))"
    unfolding inner using assms(1)
    by (simp add: forEachCombination_eq fold_until_always constrained_fives_def fold_constrained
        del: fold_map)
  show ?thesis
    using assms outer unfolding BestConstrained_def
    by (simp add: find_None_all [THEN iffD2] Let_def split: prod.splits)
qed

lemma set_constrained_fives:
  assumes "0 < useHole" "useHole < int HandSize"
  shows "set (constrained_fives hole board useHole) =
    {h @ b | h b. subseq h hole \<and> length h = nat useHole
                \<and> subseq b board \<and> length b = HandSize - nat useHole}"
proof -
  have "nat (int HandSize - useHole) = HandSize - nat useHole" using assms by simp
  then have "set (constrained_fives hole board useHole) =
      {h @ b | h b. h \<in> map ((!) hole) ` set (combs 0 (length hole) (nat useHole))
                  \<and> b \<in> map ((!) board) ` set (combs 0 (length board) (HandSize - nat useHole))}"
    using assms by (auto simp: constrained_fives_def)
  then show ?thesis unfolding combs_subseq by simp
qed

lemma BestConstrained_optimal:
  assumes "0 < useHole" "useHole < int HandSize" "useHole \<le> int (length hole)"
    "int HandSize - useHole \<le> int (length board)" "\<forall>c \<in> set (hole @ board). Valid c"
  shows "\<exists>five \<in> set (constrained_fives hole board useHole).
       BestConstrained hole board useHole = Inr (five_result five)
     \<and> (\<forall>other \<in> set (constrained_fives hole board useHole). five_score other \<le> five_score five)"
proof -
  have "constrained_fives hole board useHole \<noteq> []"
    using assms by (auto simp: constrained_fives_def combs_Nil_iff)
      (metis combs_Nil_iff ex_in_conv not_less set_empty nat_le_iff of_nat_le_iff plus_nat.add_0)+
  from fives.fold_best [OF this, of zero_result] show ?thesis
    using BestConstrained_search [of useHole hole board] assms by (auto split: prod.splits)
qed

lemma combs_lexicographic: "sorted_wrt ord_class.lexordp (combs lo n k)"
proof (induction lo n k rule: combs.induct)
  case (2 lo n k)
  have "ord_class.lexordp (lo # x) y" if "y \<in> set (combs (Suc lo) n (Suc k))" for x y
    using that unfolding set_combs by (cases y) (auto simp: Suc_le_eq)
  with 2 show ?case
    by (cases "lo < n") (auto simp: combs_Suc_unfold [of lo n k] combs_Suc_empty sorted_wrt_append sorted_wrt_map)
qed simp

section \<open>Properties\<close>

text \<open>
  \<open>forEachCombination\<close> always returns, and it calls its callback on exactly the \<open>k\<close>-subsets of
  \<open>[0, n)\<close>, each once and in lexicographic order, until the callback says stop. The in-place
  advance of the index array is thereby the reference enumeration, for every \<open>n\<close> and \<open>k\<close>.
\<close>

theorem forEachCombination_enumerates:
  "\<exists>cs. (\<forall>fn s. forEachCombination n k fn (s :: 's) = fold_until fn cs s) \<and> distinct cs
     \<and> sorted_wrt ord_class.lexordp cs
     \<and> set cs = {idx. 0 < k \<and> length idx = nat k \<and> sorted_wrt (<) idx \<and> set idx \<subseteq> {0..<n}}"
proof (intro exI conjI allI)
  let ?cs = "if 0 < k then combs 0 n (nat k) else []"
  show "forEachCombination n k fn s = fold_until fn ?cs s" for fn and s :: 's
    by (rule forEachCombination_eq)
  show "distinct ?cs" "sorted_wrt ord_class.lexordp ?cs"
    using distinct_combs combs_lexicographic by auto
  show "set ?cs = {idx. 0 < k \<and> length idx = nat k \<and> sorted_wrt (<) idx \<and> set idx \<subseteq> {0..<n}}"
    using set_combs [of _ 0 n "nat k"] by auto
qed

text \<open>
  C19: from five or more real cards \<open>Best\<close> returns a five-card sub-hand of them with its own score,
  and no five-card sub-hand scores higher.
\<close>

theorem Best_is_best:
  assumes "5 \<le> length hand" and "\<forall>c \<in> set hand. Valid c"
  shows "\<exists>r. Best hand = Inr r \<and> subseq (BestFive r) hand \<and> length (BestFive r) = 5
       \<and> (Category r, Score r) = score5 (BestFive r)
       \<and> (\<forall>five. subseq five hand \<and> length five = 5 \<longrightarrow> snd (score5 five) \<le> Score r)"
proof -
  obtain five where "subseq five hand" "length five = 5" "Best hand = Inr (five_result five)"
    "\<forall>other. subseq other hand \<and> length other = 5 \<longrightarrow> five_score other \<le> five_score five"
    using Best_optimal [of hand] assms unfolding HandSize_def by blast
  then show ?thesis
    by (intro exI [of _ "five_result five"]) (simp add: five_result_def five_score_def)
qed

definition sample_seven :: "card list" where
  "sample_seven = [\<lparr>Rank = 14, Suit = 0\<rparr>, \<lparr>Rank = 13, Suit = 0\<rparr>, \<lparr>Rank = 2, Suit = 1\<rparr>,
     \<lparr>Rank = 12, Suit = 0\<rparr>, \<lparr>Rank = 11, Suit = 0\<rparr>, \<lparr>Rank = 7, Suit = 2\<rparr>, \<lparr>Rank = 10, Suit = 0\<rparr>]"

lemma sample_seven_ok: "5 \<le> length sample_seven" "\<forall>c \<in> set sample_seven. Valid c"
  by (simp_all add: sample_seven_def Valid_def rank_defs suit_defs)

theorem Best_is_best_witness:
  "\<exists>r. Best sample_seven = Inr r \<and> subseq (BestFive r) sample_seven \<and> length (BestFive r) = 5
     \<and> (Category r, Score r) = score5 (BestFive r)
     \<and> (\<forall>five. subseq five sample_seven \<and> length five = 5 \<longrightarrow> snd (score5 five) \<le> Score r)"
  by (rule Best_is_best [OF sample_seven_ok])

text \<open>
  the constrained search (the Omaha rule) returns a hand made of exactly \<open>useHole\<close> hole cards and
  the rest from whatever board is there, and no such hand scores higher.
\<close>

theorem BestConstrained_is_best:
  assumes "0 < useHole" "useHole < 5" "useHole \<le> int (length hole)"
    "5 - useHole \<le> int (length board)" "\<forall>c \<in> set (hole @ board). Valid c"
  shows "\<exists>r. BestConstrained hole board useHole = Inr r
     \<and> (\<exists>h b. BestFive r = h @ b \<and> subseq h hole \<and> length h = nat useHole
            \<and> subseq b board \<and> length b = 5 - nat useHole)
     \<and> (Category r, Score r) = score5 (BestFive r)
     \<and> (\<forall>h b. subseq h hole \<and> length h = nat useHole \<and> subseq b board \<and> length b = 5 - nat useHole
            \<longrightarrow> snd (score5 (h @ b)) \<le> Score r)"
proof -
  obtain five where five: "five \<in> set (constrained_fives hole board useHole)"
    "BestConstrained hole board useHole = Inr (five_result five)"
    "\<forall>other \<in> set (constrained_fives hole board useHole). five_score other \<le> five_score five"
    using BestConstrained_optimal [of useHole hole board] assms unfolding HandSize_def by auto
  note cs = set_constrained_fives [of useHole hole board, unfolded HandSize_def]
  have "\<exists>h b. five = h @ b \<and> subseq h hole \<and> length h = nat useHole
            \<and> subseq b board \<and> length b = 5 - nat useHole"
    using five(1) cs assms(1,2) by auto
  moreover have "\<forall>h b. subseq h hole \<and> length h = nat useHole \<and> subseq b board \<and> length b = 5 - nat useHole
            \<longrightarrow> five_score (h @ b) \<le> five_score five"
    using five(3) cs assms(1,2) by auto
  ultimately show ?thesis
    using five(2) by (intro exI [of _ "five_result five"]) (simp add: five_result_def five_score_def)
qed

definition sample_hole :: "card list" where
  "sample_hole = [\<lparr>Rank = 14, Suit = 0\<rparr>, \<lparr>Rank = 14, Suit = 1\<rparr>, \<lparr>Rank = 2, Suit = 1\<rparr>, \<lparr>Rank = 3, Suit = 1\<rparr>]"

definition sample_flop :: "card list" where
  "sample_flop = [\<lparr>Rank = 14, Suit = 2\<rparr>, \<lparr>Rank = 13, Suit = 0\<rparr>, \<lparr>Rank = 12, Suit = 0\<rparr>]"

theorem BestConstrained_is_best_witness:
  "\<exists>r. BestConstrained sample_hole sample_flop 2 = Inr r
     \<and> (\<exists>h b. BestFive r = h @ b \<and> subseq h sample_hole \<and> length h = nat 2
            \<and> subseq b sample_flop \<and> length b = 5 - nat 2)
     \<and> (Category r, Score r) = score5 (BestFive r)
     \<and> (\<forall>h b. subseq h sample_hole \<and> length h = nat 2 \<and> subseq b sample_flop \<and> length b = 5 - nat 2
            \<longrightarrow> snd (score5 (h @ b)) \<le> Score r)"
  by (rule BestConstrained_is_best)
    (simp_all add: sample_hole_def sample_flop_def Valid_def rank_defs suit_defs)

end
