(* ===== verification/Eval_Score.thy ===== *)
theory Eval_Score
  imports Eval
begin

text \<open>
  What the five-card scorer of \<open>Eval\<close> means. The counting loops are related to counts of ranks
  and suits, the insertion sort to its order, and from these: the category the code computes is
  the category the rules of poker give, the packed score orders hands by category and then by
  kickers, and it does not depend on the order of the five cards.
\<close>

section \<open>The counting loops\<close>

definition hand5 :: "card list \<Rightarrow> bool" where
  "hand5 five \<longleftrightarrow> length five = 5 \<and> (\<forall>c \<in> set five. Valid c)"

lemma hand5D:
  assumes "hand5 five"
  shows "length five = 5" "c \<in> set five \<Longrightarrow> Valid c" "c \<in> set five \<Longrightarrow> rank_nat c < 15"
    "c \<in> set five \<Longrightarrow> 2 \<le> rank_nat c" "c \<in> set five \<Longrightarrow> Suit c < 4"
  using assms Valid_bounds [of c] by (auto simp: hand5_def rank_nat_def)

definition rank_count :: "card list \<Rightarrow> nat \<Rightarrow> nat" where
  "rank_count five r = length (filter (\<lambda>c. rank_nat c = r) five)"

lemma length_tally [simp]: "length (tally key a cs) = length a"
  by (induction cs arbitrary: a) auto

lemma length_mark [simp]: "length (mark key a cs) = length a"
  by (induction cs arbitrary: a) auto

lemma tally_nth:
  assumes "\<forall>c \<in> set cs. key c < length a" "r < length a"
  shows "tally key a cs ! r = a ! r + length (filter (\<lambda>c. key c = r) cs)"
  using assms by (induction cs arbitrary: a) (auto simp: nth_list_update)

lemma mark_nth:
  assumes "\<forall>c \<in> set cs. key c < length a" "r < length a"
  shows "mark key a cs ! r \<longleftrightarrow> a ! r \<or> (\<exists>c \<in> set cs. key c = r)"
  using assms by (induction cs arbitrary: a) (auto simp: nth_list_update)

lemma length_rankCount [simp]: "length (rankCount five) = 15"
  by (simp add: rankCount_def)

lemma rankCount_nth: "hand5 five \<Longrightarrow> r < 15 \<Longrightarrow> rankCount five ! r = rank_count five r"
  unfolding rankCount_def rank_count_def by (subst tally_nth) (auto dest: hand5D(3))

lemma suitCount_nth:
  "hand5 five \<Longrightarrow> s < 4 \<Longrightarrow> suitCount five ! s = length (filter (\<lambda>c. Suit c = s) five)"
  unfolding suitCount_def by (subst tally_nth) (auto dest: hand5D(5))

lemma length_suitCount [simp]: "length (suitCount five) = 4"
  by (simp add: suitCount_def)

definition suited :: "card list \<Rightarrow> bool" where
  "suited five \<longleftrightarrow> (\<exists>s. \<forall>c \<in> set five. Suit c = s)"

lemma flush_iff:
  assumes "hand5 five"
  shows "flush five \<longleftrightarrow> suited five"
proof -
  have full: "length (filter P five) = 5 \<longleftrightarrow> (\<forall>c \<in> set five. P c)" for P
    using hand5D(1) [OF assms] filter_id_conv [of P five] length_filter_less [of _ five P]
    by (metis less_irrefl)
  have "flush five \<longleftrightarrow> (\<exists>s < 4. \<forall>c \<in> set five. Suit c = s)"
  proof -
    have "flush five \<longleftrightarrow> (\<exists>s < 4. suitCount five ! s = 5)"
      by (auto simp: flush_def list_ex_length HandSize_def)
    then show ?thesis using full suitCount_nth [OF assms] by auto
  qed
  also have "\<dots> \<longleftrightarrow> suited five"
    unfolding suited_def using hand5D(1,5) [OF assms] by (metis length_greater_0_conv nth_mem zero_less_numeral)
  finally show ?thesis .
qed

lemma rank_count_pos: "0 < rank_count five r \<longleftrightarrow> r \<in> rank_nat ` set five"
  unfolding rank_count_def length_greater_0_conv filter_empty_conv by auto

section \<open>The insertion sort\<close>

lemma length_sift [simp]: "length (sift cnt j rs) = length rs"
  by (induction j arbitrary: rs) auto

lemma mset_sift: "j < length rs \<Longrightarrow> mset (sift cnt j rs) = mset rs"
proof (induction j arbitrary: rs)
  case (Suc j)
  have "mset (swap rs j (Suc j)) = mset rs"
    unfolding swap_def using Suc.prems by (intro mset_swap) auto
  with Suc show ?case by simp
qed simp

lemma precedes_trans: "precedes cnt a b \<Longrightarrow> precedes cnt b c \<Longrightarrow> precedes cnt a c"
  by (auto simp: precedes_def)

lemma precedes_total: "precedes cnt a b \<or> precedes cnt b a"
  by (auto simp: precedes_def)

lemma precedes_refl: "precedes cnt a a"
  by (auto simp: precedes_def)

lemma precedes_antisym: "precedes cnt a b \<Longrightarrow> precedes cnt b a \<Longrightarrow> a = b"
  by (auto simp: precedes_def)

text \<open>
  The loop invariant of the insertion: everything up to \<open>i\<close> but the element being carried is in
  order, and that element precedes everything to its right.
\<close>

lemma sift_sorted:
  assumes "j \<le> i" "i < length rs"
    and "\<And>a b. a < b \<Longrightarrow> b \<le> i \<Longrightarrow> a \<noteq> j \<Longrightarrow> b \<noteq> j \<Longrightarrow> precedes cnt (rs ! a) (rs ! b)"
    and "\<And>b. j < b \<Longrightarrow> b \<le> i \<Longrightarrow> precedes cnt (rs ! j) (rs ! b)"
  shows "\<forall>a b. a < b \<longrightarrow> b \<le> i \<longrightarrow> precedes cnt (sift cnt j rs ! a) (sift cnt j rs ! b)"
  using assms
proof (induction j arbitrary: rs)
  case 0
  then show ?case by (metis less_nat_zero_code neq0_conv sift.simps(1))
next
  case (Suc j)
  show ?case
  proof (cases "precedes cnt (rs ! j) (rs ! Suc j)")
    case True
    have "precedes cnt (rs ! a) (rs ! b)" if "a < b" "b \<le> i" for a b
    proof (cases "a = Suc j \<or> b = Suc j")
      case False
      with that Suc.prems(3) show ?thesis by blast
    next
      case eq: True
      show ?thesis
      proof (cases "a = Suc j")
        case True
        with that Suc.prems(4) show ?thesis by blast
      next
        case False
        with eq have b: "b = Suc j" by simp
        show ?thesis
        proof (cases "a = j")
          case True
          then show ?thesis using b \<open>precedes cnt (rs ! j) (rs ! Suc j)\<close> by simp
        next
          case False
          then have "precedes cnt (rs ! a) (rs ! j)"
            using Suc.prems(3) [of a j] Suc.prems(1) that b by auto
          then show ?thesis
            using b \<open>precedes cnt (rs ! j) (rs ! Suc j)\<close> precedes_trans by blast
        qed
      qed
    qed
    then show ?thesis using True by simp
  next
    case False
    then have flip: "precedes cnt (rs ! Suc j) (rs ! j)" using precedes_total by blast
    let ?rs = "swap rs j (Suc j)"
    have nth: "?rs ! x = (if x = j then rs ! Suc j else if x = Suc j then rs ! j else rs ! x)"
      if "x \<le> i" for x
      using that Suc.prems(1,2) by (auto simp: swap_def nth_list_update)
    have "\<forall>a b. a < b \<longrightarrow> b \<le> i \<longrightarrow> precedes cnt (sift cnt j ?rs ! a) (sift cnt j ?rs ! b)"
    proof (rule Suc.IH)
      show "j \<le> i" "i < length ?rs" using Suc.prems by auto
      show "precedes cnt (?rs ! a) (?rs ! b)" if "a < b" "b \<le> i" "a \<noteq> j" "b \<noteq> j" for a b
        using that Suc.prems(1) Suc.prems(3) [of j b] Suc.prems(3) [of a j] Suc.prems(3) [of a b]
        by (auto simp: nth)
      show "precedes cnt (?rs ! j) (?rs ! b)" if "j < b" "b \<le> i" for b
        using that Suc.prems(1) Suc.prems(4) [of b] flip by (auto simp: nth)
    qed
    with False show ?thesis by simp
  qed
qed

lemma fold_sift:
  assumes "m \<le> length rs"
  shows "mset (fold (sift cnt) [1..<m] rs) = mset rs \<and> length (fold (sift cnt) [1..<m] rs) = length rs
    \<and> (\<forall>a b. a < b \<longrightarrow> b < m \<longrightarrow> precedes cnt (fold (sift cnt) [1..<m] rs ! a) (fold (sift cnt) [1..<m] rs ! b))"
  using assms
proof (induction m)
  case (Suc m)
  let ?r = "fold (sift cnt) [1..<m] rs"
  show ?case
  proof (cases "m = 0")
    case False
    then have f: "fold (sift cnt) [1..<Suc m] rs = sift cnt m ?r" by simp
    have "\<forall>a b. a < b \<longrightarrow> b \<le> m \<longrightarrow> precedes cnt (sift cnt m ?r ! a) (sift cnt m ?r ! b)"
      using Suc by (intro sift_sorted) auto
    with Suc show ?thesis by (simp only: f) (auto simp: mset_sift less_Suc_eq_le)
  qed simp
qed simp

lemma sortByCountThenRank_correct:
  "mset (sortByCountThenRank cnt rs) = mset rs"
  "sorted_wrt (precedes cnt) (sortByCountThenRank cnt rs)"
  using fold_sift [of "length rs" rs cnt]
  by (auto simp: sortByCountThenRank_def sorted_wrt_iff_nth_less)

section \<open>Groups of equal rank\<close>

lemma byCount_facts:
  assumes "hand5 five"
  shows "distinct (byCount five)" "set (byCount five) = rank_nat ` set five"
    "sorted_wrt (precedes (rankCount five)) (byCount five)"
proof -
  let ?rs = "filter (\<lambda>r. rankCount five ! r > 0) (rev [2..<15])"
  have m: "mset (byCount five) = mset ?rs" and
    s: "sorted_wrt (precedes (rankCount five)) (byCount five)"
    unfolding byCount_def Let_def by (rule sortByCountThenRank_correct)+
  show "sorted_wrt (precedes (rankCount five)) (byCount five)" by (fact s)
  show "distinct (byCount five)"
    using mset_eq_imp_distinct_iff [OF m] distinct_filter distinct_rev distinct_upt by metis
  have mem: "r \<in> set ?rs \<longleftrightarrow> (2 \<le> r \<and> r < 15) \<and> 0 < rankCount five ! r" for r
    by (simp only: set_filter set_rev set_upt mem_Collect_eq atLeastLessThan_iff)
  have "r \<in> set ?rs \<longleftrightarrow> r \<in> rank_nat ` set five" for r
    unfolding mem using hand5D(3,4) [OF assms] rankCount_nth [OF assms, of r] rank_count_pos [of five r]
    by auto
  then have "set ?rs = rank_nat ` set five" by blast
  then show "set (byCount five) = rank_nat ` set five" using m mset_eq_setD by metis
qed

definition groups :: "card list \<Rightarrow> nat list" where
  "groups five = map (rank_count five) (byCount five)"

lemma rank_in_byCount_lt: "hand5 five \<Longrightarrow> r \<in> set (byCount five) \<Longrightarrow> r < 15"
  using byCount_facts(2) hand5D(3) by auto

lemma groupSize_groups:
  assumes "hand5 five"
  shows "groupSize five i = (if i < length (groups five) then groups five ! i else 0)"
  using rank_in_byCount_lt [OF assms, of "byCount five ! i"] rankCount_nth [OF assms]
  by (auto simp: groupSize_def groups_def)

lemma groups_pos: "hand5 five \<Longrightarrow> g \<in> set (groups five) \<Longrightarrow> 0 < g"
  using rank_count_pos byCount_facts(2) by (auto simp: groups_def)

lemma groups_descending:
  assumes "hand5 five"
  shows "sorted_wrt (\<ge>) (groups five)"
proof -
  have "sorted_wrt (\<lambda>a b. rank_count five a \<ge> rank_count five b) (byCount five)"
  proof (rule sorted_wrt_mono_rel [OF _ byCount_facts(3) [OF assms]])
    fix a b assume ab: "a \<in> set (byCount five)" "b \<in> set (byCount five)"
      "precedes (rankCount five) a b"
    show "rank_count five a \<ge> rank_count five b"
      using ab(3) rankCount_nth [OF assms rank_in_byCount_lt [OF assms ab(1)]]
        rankCount_nth [OF assms rank_in_byCount_lt [OF assms ab(2)]]
      by (auto simp: precedes_def)
  qed
  then show ?thesis by (simp add: groups_def sorted_wrt_map)
qed

lemma sum_rank_count:
  assumes "finite R" "rank_nat ` set cs \<subseteq> R"
  shows "(\<Sum>r \<in> R. rank_count cs r) = length cs"
  using assms(2)
proof (induction cs)
  case (Cons c cs)
  have "rank_count (c # cs) r = (if r = rank_nat c then 1 else 0) + rank_count cs r" for r
    by (simp add: rank_count_def)
  with Cons assms(1) show ?case by (simp add: sum.distrib)
qed (simp add: rank_count_def)

lemma sum_groups:
  assumes "hand5 five"
  shows "sum_list (groups five) = 5"
proof -
  have "sum_list (groups five) = (\<Sum>r \<in> set (byCount five). rank_count five r)"
    unfolding groups_def using byCount_facts(1) [OF assms] by (simp add: sum_list_distinct_conv_sum_set)
  also have "\<dots> = 5"
    using sum_rank_count [of "set (byCount five)" five] byCount_facts(2) [OF assms] hand5D(1) [OF assms]
    by simp
  finally show ?thesis .
qed

text \<open>A descending list of positive numbers with sum 5 is one of the seven partitions of 5.\<close>

lemma partitions5:
  fixes gs :: "nat list"
  assumes "sorted_wrt (\<ge>) gs" "\<forall>g \<in> set gs. 0 < g" "sum_list gs = 5"
  shows "gs \<in> {[5], [4, 1], [3, 2], [3, 1, 1], [2, 2, 1], [2, 1, 1, 1], [1, 1, 1, 1, 1]}"
proof -
  have "length xs \<le> sum_list xs" if "\<forall>g \<in> set xs. 0 < g" for xs :: "nat list"
    using that by (induction xs) auto
  then have "length gs \<le> 5" using assms(2,3) by fastforce
  then have "gs = [] \<or> (\<exists>a. gs = [a]) \<or> (\<exists>a b. gs = [a, b]) \<or> (\<exists>a b c. gs = [a, b, c])
      \<or> (\<exists>a b c d. gs = [a, b, c, d]) \<or> (\<exists>a b c d e. gs = [a, b, c, d, e])"
    by (cases gs; cases "tl gs"; cases "tl (tl gs)"; cases "tl (tl (tl gs))";
        cases "tl (tl (tl (tl gs)))"; cases "tl (tl (tl (tl (tl gs))))"; simp)
  then consider "gs = []" | a where "gs = [a]" | a b where "gs = [a, b]"
    | a b c where "gs = [a, b, c]" | a b c d where "gs = [a, b, c, d]"
    | a b c d e where "gs = [a, b, c, d, e]"
    by blast
  then show ?thesis
  proof cases
    case (3 a b)
    then have "b \<le> a" "a + b = 5" "0 < a" "0 < b" using assms by auto
    then have "a = 4 \<and> b = 1 \<or> a = 3 \<and> b = 2" by presburger
    then show ?thesis using 3 by auto
  next
    case (4 a b c)
    then have "b \<le> a" "c \<le> b" "a + b + c = 5" "0 < a" "0 < b" "0 < c" using assms by auto
    then have "a = 3 \<and> b = 1 \<and> c = 1 \<or> a = 2 \<and> b = 2 \<and> c = 1" by linarith
    then show ?thesis using 4 by auto
  next
    case (5 a b c d)
    then have "b \<le> a" "c \<le> b" "d \<le> c" "a + b + c + d = 5" "0 < a" "0 < b" "0 < c" "0 < d"
      using assms by auto
    then have "a = 2 \<and> b = 1 \<and> c = 1 \<and> d = 1" by linarith
    then show ?thesis using 5 by auto
  next
    case (6 a b c d e)
    then have "a + b + c + d + e = 5" "0 < a" "0 < b" "0 < c" "0 < d" "0 < e"
      using assms by auto
    then have "a = 1 \<and> b = 1 \<and> c = 1 \<and> d = 1 \<and> e = 1" by linarith
    then show ?thesis using 6 by auto
  qed (use assms in auto)
qed

lemma groups_cases:
  assumes "hand5 five"
  shows "groups five \<in> {[5], [4, 1], [3, 2], [3, 1, 1], [2, 2, 1], [2, 1, 1, 1], [1, 1, 1, 1, 1]}"
  using groups_descending [OF assms] groups_pos [OF assms] sum_groups [OF assms]
  by (intro partitions5) auto

section \<open>Categories\<close>

text \<open>
  The rules: a straight is five consecutive ranks, or the wheel, in which the ace counts as one;
  the other categories are about how many cards share a rank or a suit.
\<close>

definition straight_to :: "card list \<Rightarrow> nat \<Rightarrow> bool" where
  "straight_to five hi \<longleftrightarrow>
     (6 \<le> hi \<and> hi \<le> 14 \<and> rank_nat ` set five = {hi - 4..hi})
   \<or> (hi = 5 \<and> rank_nat ` set five = {14, 2, 3, 4, 5})"

definition is_straight :: "card list \<Rightarrow> bool" where
  "is_straight five \<longleftrightarrow> (\<exists>hi. straight_to five hi)"

definition poker_category :: "card list \<Rightarrow> category" where
  "poker_category five =
     (let n = rank_count five
      in if is_straight five \<and> suited five then StraightFlush
         else if \<exists>r. n r = 4 then Quads
         else if (\<exists>r. n r = 3) \<and> (\<exists>r. n r = 2) then FullHouse
         else if suited five then Flush
         else if is_straight five then Straight
         else if \<exists>r. n r = 3 then Trips
         else if \<exists>r s. r \<noteq> s \<and> n r = 2 \<and> n s = 2 then TwoPair
         else if \<exists>r. n r = 2 then PairCat
         else HighCard)"

lemma card_ranks_le: "hand5 five \<Longrightarrow> card (rank_nat ` set five) \<le> 5"
  using card_image_le [of "set five" rank_nat] card_length [of five] hand5D(1) [of five] by simp

lemma five_ranks:
  assumes "hand5 five" "A \<subseteq> rank_nat ` set five" "card A = 5"
  shows "rank_nat ` set five = A"
  using card_ranks_le [OF assms(1)] assms(2,3)
  by (metis card_seteq finite_imageI finite_set)

lemma present_nth:
  assumes "hand5 five" "r < 15"
  shows "mark rank_nat (replicate 15 False) five ! r \<longleftrightarrow> r \<in> rank_nat ` set five"
  using assms mark_nth [of five rank_nat "replicate 15 False" r] hand5D(3) [OF assms(1)] by auto

lemma run_of_five:
  assumes "hand5 five" "6 \<le> hi" "hi \<le> 14"
  shows "hi \<in> rank_nat ` set five \<and> hi - 1 \<in> rank_nat ` set five \<and> hi - 2 \<in> rank_nat ` set five
       \<and> hi - 3 \<in> rank_nat ` set five \<and> hi - 4 \<in> rank_nat ` set five
     \<longleftrightarrow> rank_nat ` set five = {hi - 4..hi}" (is "?L \<longleftrightarrow> ?R")
proof
  assume ?L
  have "x = hi \<or> x = hi - 1 \<or> x = hi - 2 \<or> x = hi - 3 \<or> x = hi - 4" if "x \<in> {hi - 4..hi}" for x
    using that by auto
  with \<open>?L\<close> have "{hi - 4..hi} \<subseteq> rank_nat ` set five" by blast
  moreover have "card {hi - 4..hi} = 5" using assms(2) by simp
  ultimately show ?R using five_ranks [OF assms(1)] by blast
qed (use assms(2) in auto)

lemma wheel:
  assumes "hand5 five"
  shows "14 \<in> rank_nat ` set five \<and> 2 \<in> rank_nat ` set five \<and> 3 \<in> rank_nat ` set five
       \<and> 4 \<in> rank_nat ` set five \<and> 5 \<in> rank_nat ` set five
     \<longleftrightarrow> rank_nat ` set five = {14, 2, 3, 4, 5}" (is "?L \<longleftrightarrow> ?R")
proof
  assume ?L
  then have "{14, 2, 3, 4, 5} \<subseteq> rank_nat ` set five" by blast
  moreover have "card {14, 2, 3, 4, 5 :: nat} = 5" by simp
  ultimately show ?R using five_ranks [OF assms] by blast
qed simp

lemma straight_to_unique: "straight_to five a \<Longrightarrow> straight_to five b \<Longrightarrow> a = b"
proof -
  assume a: "straight_to five a" and b: "straight_to five b"
  have big: "Max {h - 4..h} = h" if "6 \<le> h" for h :: nat
    using that by (intro Max_eqI) auto
  have w: "{14, 2, 3, 4, 5 :: nat} \<noteq> {h - 4..h}" if "6 \<le> h" for h
  proof
    assume eq: "{14, 2, 3, 4, 5 :: nat} = {h - 4..h}"
    then have "2 \<in> {h - 4..h}" "14 \<in> {h - 4..h}" by (auto simp flip: eq)
    then show False by auto
  qed
  from a b big [of a] big [of b] w [of a] w [of b] show "a = b"
    unfolding straight_to_def by metis
qed

lemma straightHigh_iff:
  assumes "hand5 five" "0 < hi"
  shows "straightHigh five = hi \<longleftrightarrow> straight_to five hi"
proof -
  let ?p = "mark rank_nat (replicate 15 False) five"
  let ?t = "\<lambda>hi. ?p ! hi \<and> ?p ! (hi - 1) \<and> ?p ! (hi - 2) \<and> ?p ! (hi - 3) \<and> ?p ! (hi - 4)"
  have t: "?t h \<longleftrightarrow> rank_nat ` set five = {h - 4..h}" if "h \<in> {6..<15}" for h
  proof -
    have "h < 15" "h - 1 < 15" "h - 2 < 15" "h - 3 < 15" "h - 4 < 15" "6 \<le> h" "h \<le> 14"
      using that by auto
    then show ?thesis using run_of_five [OF assms(1), of h] present_nth [OF assms(1)] by blast
  qed
  have w: "?p ! 14 \<and> ?p ! 2 \<and> ?p ! 3 \<and> ?p ! 4 \<and> ?p ! 5 \<longleftrightarrow> rank_nat ` set five = {14, 2, 3, 4, 5}"
    using wheel [OF assms(1)] by (simp add: present_nth [OF assms(1)])
  have set6: "x \<in> set (rev [6..<15]) \<longleftrightarrow> x \<in> {6..<15}" for x :: nat
    by (simp only: set_rev set_upt)
  have sh: "straightHigh five = (case find ?t (rev [6..<15]) of Some h \<Rightarrow> h | None \<Rightarrow>
      if rank_nat ` set five = {14, 2, 3, 4, 5} then 5 else 0)"
    unfolding straightHigh_def Let_def w by (rule refl)
  show ?thesis
  proof (cases "find ?t (rev [6..<15])")
    case (Some h)
    then have "?t h" "h \<in> set (rev [6..<15])" unfolding find_Some_iff
      by (blast, metis in_set_conv_nth)
    then have "straight_to five h" "0 < h" using t [of h] set6 [of h]
      by (auto simp: straight_to_def)
    then show ?thesis using sh Some straight_to_unique assms(2) by auto
  next
    case None
    have "\<not> straight_to five h" if "6 \<le> h" for h
    proof
      assume s: "straight_to five h"
      with that have h: "h \<in> {6..<15}" "rank_nat ` set five = {h - 4..h}" by (auto simp: straight_to_def)
      then have "?t h" using t by blast
      with None h(1) show False unfolding find_None_iff set6 by blast
    qed
    then have "straight_to five hi \<longleftrightarrow> hi = 5 \<and> rank_nat ` set five = {14, 2, 3, 4, 5}"
      by (auto simp: straight_to_def)
    with sh None assms(2) show ?thesis by auto
  qed
qed

lemma straightHigh_pos: "hand5 five \<Longrightarrow> 0 < straightHigh five \<longleftrightarrow> is_straight five"
  unfolding is_straight_def using straightHigh_iff by (metis gr0I straight_to_def not_numeral_le_zero zero_neq_numeral)

lemma ex_group_iff:
  assumes "hand5 five" "0 < k"
  shows "(\<exists>r. rank_count five r = k) \<longleftrightarrow> k \<in> set (groups five)"
  using rank_count_pos [of five] byCount_facts(2) [OF assms(1)] assms(2) by (auto simp: groups_def)

lemma two_pairs_iff:
  assumes "hand5 five"
  shows "(\<exists>r s. r \<noteq> s \<and> rank_count five r = 2 \<and> rank_count five s = 2)
     \<longleftrightarrow> (\<exists>i j. i < length (groups five) \<and> j < length (groups five) \<and> i \<noteq> j
              \<and> groups five ! i = 2 \<and> groups five ! j = 2)" (is "?L \<longleftrightarrow> ?R")
proof
  assume ?L
  then obtain r s where rs: "r \<noteq> s" "rank_count five r = 2" "rank_count five s = 2" by blast
  then have "r \<in> set (byCount five)" "s \<in> set (byCount five)"
    using rank_count_pos [of five r] rank_count_pos [of five s] byCount_facts(2) [OF assms] by simp_all
  then obtain i j where "i < length (byCount five)" "byCount five ! i = r"
    "j < length (byCount five)" "byCount five ! j = s" by (metis in_set_conv_nth)
  with rs show ?R by (intro exI [of _ i] exI [of _ j]) (auto simp: groups_def)
next
  assume ?R
  then obtain i j where ij: "i < length (byCount five)" "j < length (byCount five)" "i \<noteq> j"
    "rank_count five (byCount five ! i) = 2" "rank_count five (byCount five ! j) = 2"
    by (auto simp: groups_def)
  then show ?L using byCount_facts(1) [OF assms] nth_eq_iff_index_eq by blast
qed

lemma two_pairs_groups:
  assumes "hand5 five"
  shows "(\<exists>r s. r \<noteq> s \<and> rank_count five r = 2 \<and> rank_count five s = 2) \<longleftrightarrow> groups five = [2, 2, 1]"
proof -
  have two: "(\<exists>i j. i < length gs \<and> j < length gs \<and> i \<noteq> j \<and> gs ! i = 2 \<and> gs ! j = 2)
      \<longleftrightarrow> 2 \<le> length (filter (\<lambda>g. g = 2) gs)" for gs :: "nat list"
  proof -
    have "length (filter (\<lambda>g. g = 2) gs) \<le> Suc 0 \<longleftrightarrow>
        (\<forall>i \<in> {i. i < length gs \<and> gs ! i = 2}. \<forall>j \<in> {i. i < length gs \<and> gs ! i = 2}. i = j)"
      unfolding length_filter_conv_card by (rule card_le_Suc0_iff_eq) simp
    then show ?thesis by (auto simp: not_less_eq_eq [symmetric] numeral_2_eq_2)
  qed
  show ?thesis
    unfolding two_pairs_iff [OF assms] two using groups_cases [OF assms] by auto
qed

lemma category_correct:
  assumes "hand5 five"
  shows "fst (classify five) = poker_category five"
proof -
  have g: "(\<exists>r. rank_count five r = 4) \<longleftrightarrow> 4 \<in> set (groups five)"
    "(\<exists>r. rank_count five r = 3) \<longleftrightarrow> 3 \<in> set (groups five)"
    "(\<exists>r. rank_count five r = 2) \<longleftrightarrow> 2 \<in> set (groups five)"
    using ex_group_iff [OF assms] by simp_all
  show ?thesis
    unfolding classify_def poker_category_def Let_def g two_pairs_groups [OF assms]
      groupSize_groups [OF assms] straightHigh_pos [OF assms] flush_iff [OF assms]
    using groups_cases [OF assms] by (elim insertE emptyE) simp_all
qed

section \<open>Scores\<close>

definition horner :: "int \<Rightarrow> nat list \<Rightarrow> int" where
  "horner a ds = fold (\<lambda>d s. s * 16 + int d) ds a"

lemma horner_split: "horner a ds = a * 16 ^ length ds + horner 0 ds"
proof (induction ds arbitrary: a)
  case (Cons d ds)
  from Cons.IH [of "a * 16 + int d"] Cons.IH [of "int d"] show ?case
    by (simp add: horner_def algebra_simps)
qed (simp add: horner_def)

lemma horner_bounds:
  assumes "\<forall>d \<in> set ds. d < 16"
  shows "0 \<le> horner 0 ds" "horner 0 ds < 16 ^ length ds"
proof -
  have "0 \<le> horner 0 ds \<and> horner 0 ds < 16 ^ length ds"
    using assms
  proof (induction ds)
    case (Cons d ds)
    have "horner 0 (d # ds) = int d * 16 ^ length ds + horner 0 ds"
      using horner_split [of "int d" ds] by (simp add: horner_def)
    moreover have "int d * 16 ^ length ds \<le> 15 * 16 ^ length ds"
      using Cons.prems by (intro mult_right_mono) auto
    moreover have "0 \<le> int d * 16 ^ length ds" by simp
    moreover have "0 \<le> horner 0 ds \<and> horner 0 ds < 16 ^ length ds" using Cons by simp
    ultimately show ?case unfolding length_Cons power_Suc by linarith
  qed (simp add: horner_def)
  then show "0 \<le> horner 0 ds" "horner 0 ds < 16 ^ length ds" by auto
qed

lemma weight_less:
  fixes w :: int
  assumes "0 \<le> x" "x < w" "0 \<le> y" "y < w"
  shows "a * w + x < b * w + y \<longleftrightarrow> a < b \<or> (a = b \<and> x < y)"
proof -
  have "a * w + x < b * w + y" if "a < b"
  proof -
    have "(a + 1) * w \<le> b * w" using that assms by (intro mult_right_mono) auto
    then show ?thesis using assms by (simp add: algebra_simps)
  qed
  moreover have "\<not> a * w + x < b * w + y" if "b < a"
  proof -
    have "(b + 1) * w \<le> a * w" using that assms by (intro mult_right_mono) auto
    then show ?thesis using assms by (simp add: algebra_simps)
  qed
  ultimately show ?thesis by (cases "a < b"; cases "b < a"; simp)
qed

lemma horner_less:
  assumes "length ds = length es" "\<forall>d \<in> set ds. d < 16" "\<forall>d \<in> set es. d < 16"
  shows "horner 0 ds < horner 0 es \<longleftrightarrow> ord_class.lexordp ds es"
  using assms
proof (induction ds es rule: list_induct2)
  case (Cons d ds e es)
  have "horner 0 (d # ds) = int d * 16 ^ length ds + horner 0 ds"
    "horner 0 (e # es) = int e * 16 ^ length ds + horner 0 es"
    using horner_split [of "int d" ds] horner_split [of "int e" es] Cons.hyps
    by (simp_all add: horner_def)
  then have "horner 0 (d # ds) < horner 0 (e # es) \<longleftrightarrow> d < e \<or> (d = e \<and> horner 0 ds < horner 0 es)"
    using weight_less [of "horner 0 ds" "16 ^ length ds" "horner 0 es" "int d" "int e"]
      horner_bounds [of ds] horner_bounds [of es] Cons.prems Cons.hyps by simp
  with Cons show ?case by auto
qed simp

lemma pack_eq:
  assumes "length tb \<le> 5"
  shows "pack cat tb = cat_int cat * 16 ^ 5 + horner 0 tb * 16 ^ (5 - length tb)"
proof -
  have "(16::int) ^ length tb * 16 ^ (5 - length tb) = 16 ^ 5"
    using assms by (simp flip: power_add)
  then show ?thesis
    using horner_split [of "cat_int cat" tb]
    by (simp add: pack_def horner_def HandSize_def distrib_right mult.assoc)
qed

lemma pack_tail_bounds:
  assumes "length tb \<le> 5" "\<forall>d \<in> set tb. d < 16"
  shows "0 \<le> horner 0 tb * 16 ^ (5 - length tb)" "horner 0 tb * 16 ^ (5 - length tb) < 16 ^ 5"
proof -
  have "horner 0 tb * 16 ^ (5 - length tb) < 16 ^ length tb * 16 ^ (5 - length tb)"
    using horner_bounds(2) [OF assms(2)] by (intro mult_strict_right_mono) auto
  also have "\<dots> = (16::int) ^ 5" using assms(1) by (simp flip: power_add)
  finally show "horner 0 tb * 16 ^ (5 - length tb) < 16 ^ 5" .
  show "0 \<le> horner 0 tb * 16 ^ (5 - length tb)" using horner_bounds(1) [OF assms(2)] by simp
qed

lemma cat_int_inj: "cat_int a = cat_int b \<longleftrightarrow> a = b"
  by (cases a; cases b) auto

lemma cat_int_range: "0 \<le> cat_int a \<and> cat_int a \<le> 8"
  by (cases a) auto

lemma pack_less:
  assumes "length tb \<le> 5" "length tb' \<le> 5" "\<forall>d \<in> set tb. d < 16" "\<forall>d \<in> set tb'. d < 16"
    and "cat = cat' \<Longrightarrow> length tb = length tb'"
  shows "pack cat tb < pack cat' tb' \<longleftrightarrow>
      cat_int cat < cat_int cat' \<or> (cat = cat' \<and> ord_class.lexordp tb tb')"
proof -
  have "pack cat tb < pack cat' tb' \<longleftrightarrow> cat_int cat < cat_int cat'
      \<or> (cat_int cat = cat_int cat' \<and> horner 0 tb * 16 ^ (5 - length tb) < horner 0 tb' * 16 ^ (5 - length tb'))"
    unfolding pack_eq [OF assms(1)] pack_eq [OF assms(2)]
    by (rule weight_less) (use pack_tail_bounds assms in blast)+
  moreover have "horner 0 tb * 16 ^ (5 - length tb) < horner 0 tb' * 16 ^ (5 - length tb')
      \<longleftrightarrow> ord_class.lexordp tb tb'" if "cat = cat'"
    using horner_less [OF assms(5) [OF that] assms(3,4)] assms(5) [OF that] by simp
  ultimately show ?thesis unfolding cat_int_inj by blast
qed

section \<open>Kickers\<close>

lemma descendingRanks_replicate:
  assumes "hand5 five"
  shows "rev (descendingRanks five) = concat (map (\<lambda>r. replicate (rank_count five r) r) [2..<15])"
proof -
  have "filter (\<lambda>c. Rank c = int r) five = filter (\<lambda>c. rank_nat c = r) five" for r
    using hand5D(2) [OF assms] Valid_bounds(1) by (intro filter_cong) (force simp: rank_nat_def)+
  then have "descendingRanks five = concat (map (\<lambda>r. replicate (rank_count five r) r) (rev [2..<15]))"
    unfolding descendingRanks_def rank_count_def map_replicate_const by simp
  then show ?thesis by (simp only: rev_concat rev_map rev_rev_ident map_map comp_def rev_replicate)
qed

lemma blocks_facts:
  fixes n :: "nat \<Rightarrow> nat"
  shows "sorted (concat (map (\<lambda>r. replicate (n r) r) [a..<b]))
    \<and> set (concat (map (\<lambda>r. replicate (n r) r) [a..<b])) \<subseteq> {a..<b}
    \<and> count (mset (concat (map (\<lambda>r. replicate (n r) r) [a..<b]))) x = (if a \<le> x \<and> x < b then n x else 0)"
proof (induction b)
  case (Suc b)
  show ?case
  proof (cases "a \<le> b")
    case True
    then have "[a..<Suc b] = [a..<b] @ [b]" by simp
    with Suc True show ?thesis
      by (auto simp: sorted_append less_Suc_eq)
  qed simp
qed simp

lemma descendingRanks_sort:
  assumes "hand5 five"
  shows "descendingRanks five = rev (sort (map rank_nat five))"
proof -
  let ?b = "concat (map (\<lambda>r. replicate (rank_count five r) r) [2..<15])"
  have "count (mset ?b) x = count (mset (map rank_nat five)) x" for x
  proof -
    have "count (mset (map rank_nat five)) x = rank_count five x"
      unfolding rank_count_def by (induction five) auto
    moreover have "rank_count five x = 0" if "\<not> (2 \<le> x \<and> x < 15)"
      using that hand5D(3,4) [OF assms] rank_count_pos [of five x] by force
    ultimately show ?thesis using blocks_facts [of "rank_count five" 2 15 x] by presburger
  qed
  then have "sort (map rank_nat five) = ?b"
    using blocks_facts [of "rank_count five" 2 15 0] multiset_eqI by (intro properties_for_sort) blast+
  then show ?thesis using descendingRanks_replicate [OF assms] by (metis rev_rev_ident)
qed

definition kickers_spec :: "card list \<Rightarrow> nat list \<Rightarrow> bool" where
  "kickers_spec five ks \<longleftrightarrow>
     (if poker_category five \<in> {Straight, StraightFlush} then \<exists>hi. ks = [hi] \<and> straight_to five hi
      else if poker_category five \<in> {Flush, HighCard} then ks = rev (sort (map rank_nat five))
      else set ks = rank_nat ` set five
         \<and> sorted_wrt (\<lambda>a b. rank_count five a > rank_count five b
                           \<or> (rank_count five a = rank_count five b \<and> a > b)) ks)"

lemma byCount_strict:
  assumes "hand5 five"
  shows "sorted_wrt (\<lambda>a b. rank_count five a > rank_count five b
                   \<or> (rank_count five a = rank_count five b \<and> a > b)) (byCount five)"
proof -
  have "precedes (rankCount five) a b \<and> a \<noteq> b \<longrightarrow> rank_count five a > rank_count five b
      \<or> (rank_count five a = rank_count five b \<and> a > b)"
    if "a \<in> set (byCount five)" "b \<in> set (byCount five)" for a b
    using rankCount_nth [OF assms] rank_in_byCount_lt [OF assms that(1)]
      rank_in_byCount_lt [OF assms that(2)] by (auto simp: precedes_def)
  note imp = this
  have s: "sorted_wrt (\<lambda>a b. precedes (rankCount five) a b \<and> a \<noteq> b) (byCount five)"
    using byCount_facts(1,3) [OF assms] by (auto simp: sorted_wrt_iff_nth_less nth_eq_iff_index_eq)
  show ?thesis by (rule sorted_wrt_mono_rel [OF _ s]) (use imp in blast)
qed

lemma byCount_two: "length (byCount five) = 2 \<Longrightarrow> [byCount five ! 0, byCount five ! 1] = byCount five"
  by (auto simp: length_Suc_conv numeral_2_eq_2)

lemma length_byCount: "length (byCount five) = length (groups five)"
  by (simp add: groups_def)

text \<open>Which list of kickers the code picks, by category.\<close>

lemma classify_kickers:
  assumes "hand5 five"
  shows "snd (classify five) =
     (if poker_category five \<in> {Straight, StraightFlush} then [straightHigh five]
      else if poker_category five \<in> {Flush, HighCard} then descendingRanks five else byCount five)"
proof -
  have "groups five = [4, 1] \<or> groups five = [3, 2] \<Longrightarrow> [byCount five ! 0, byCount five ! 1] = byCount five"
    using byCount_two length_byCount [of five] by auto
  then show ?thesis
    unfolding category_correct [OF assms, symmetric]
    unfolding classify_def Let_def
      groupSize_groups [OF assms] straightHigh_pos [OF assms] flush_iff [OF assms]
    using groups_cases [OF assms] by (elim insertE emptyE) simp_all
qed

lemma kickers_correct:
  assumes "hand5 five"
  shows "kickers_spec five (snd (classify five))"
proof -
  have "poker_category five \<in> {Straight, StraightFlush} \<Longrightarrow> is_straight five"
    by (auto simp: poker_category_def Let_def split: if_splits)
  then have "poker_category five \<in> {Straight, StraightFlush} \<Longrightarrow> straight_to five (straightHigh five)"
    using straightHigh_iff [OF assms] straightHigh_pos [OF assms] by blast
  then show ?thesis
    unfolding kickers_spec_def classify_kickers [OF assms]
    using descendingRanks_sort [OF assms] byCount_strict [OF assms] byCount_facts(2) [OF assms] by simp
qed

lemma kickers_small:
  assumes "hand5 five"
  shows "length (snd (classify five)) \<le> 5" "\<forall>d \<in> set (snd (classify five)). d < 16"
proof -
  have "length (groups five) \<le> 5" using groups_cases [OF assms] by auto
  moreover have "\<forall>d \<in> rank_nat ` set five. d < 16" using hand5D(3) [OF assms] by fastforce
  moreover have "straightHigh five < 16"
    using straightHigh_iff [OF assms, of "straightHigh five"]
    by (cases "straightHigh five = 0") (auto simp: straight_to_def)
  ultimately show "length (snd (classify five)) \<le> 5" "\<forall>d \<in> set (snd (classify five)). d < 16"
    using hand5D(1) [OF assms] byCount_facts(2) [OF assms] length_byCount [of five]
    by (auto simp: classify_kickers [OF assms] descendingRanks_sort [OF assms])
qed

fun kicker_count :: "category \<Rightarrow> nat" where
  "kicker_count HighCard = 5"
| "kicker_count PairCat = 4"
| "kicker_count TwoPair = 3"
| "kicker_count Trips = 3"
| "kicker_count Straight = 1"
| "kicker_count Flush = 5"
| "kicker_count FullHouse = 2"
| "kicker_count Quads = 2"
| "kicker_count StraightFlush = 1"

lemma length_kickers:
  assumes "hand5 five"
  shows "length (snd (classify five)) = kicker_count (poker_category five)"
proof -
  have d: "length (descendingRanks five) = 5"
    using hand5D(1) [OF assms] by (simp add: descendingRanks_sort [OF assms])
  show ?thesis
    unfolding category_correct [OF assms, symmetric] classify_def Let_def
      groupSize_groups [OF assms] straightHigh_pos [OF assms] flush_iff [OF assms]
    using groups_cases [OF assms] d length_byCount [of five] by (elim insertE emptyE) simp_all
qed

section \<open>The order of scores\<close>

lemma five_score_pack: "five_score five = pack (fst (classify five)) (snd (classify five))"
  by (simp add: five_score_def score5_def split: prod.splits)

lemma five_score_less:
  assumes "hand5 a" "hand5 b"
  shows "five_score a < five_score b \<longleftrightarrow>
      cat_int (poker_category a) < cat_int (poker_category b)
    \<or> (poker_category a = poker_category b
       \<and> ord_class.lexordp (snd (classify a)) (snd (classify b)))"
  unfolding five_score_pack category_correct [OF assms(1), symmetric] category_correct [OF assms(2), symmetric]
  using kickers_small assms length_kickers category_correct
  by (intro pack_less) auto

lemma lexordp_total_eq_length:
  fixes xs ys :: "nat list"
  assumes "\<not> ord_class.lexordp xs ys" "\<not> ord_class.lexordp ys xs"
  shows "xs = ys"
  using assms lexordp_linear by blast

lemma five_score_eq:
  assumes "hand5 a" "hand5 b"
  shows "five_score a = five_score b \<longleftrightarrow> classify a = classify b"
proof
  assume eq: "five_score a = five_score b"
  then have "\<not> five_score a < five_score b" "\<not> five_score b < five_score a" by auto
  then have "cat_int (poker_category a) = cat_int (poker_category b)"
    "poker_category a = poker_category b \<Longrightarrow> snd (classify a) = snd (classify b)"
    unfolding five_score_less [OF assms] five_score_less [OF assms(2,1)]
    using lexordp_total_eq_length by auto
  then show "classify a = classify b"
    unfolding cat_int_inj using category_correct assms by (metis prod_eqI)
qed (simp add: five_score_pack)

lemma five_score_bounds:
  assumes "hand5 five"
  shows "0 \<le> five_score five" "five_score five < 9 * 16 ^ 5"
  using pack_tail_bounds [OF kickers_small [OF assms]] cat_int_range [of "fst (classify five)"]
  by (simp_all add: five_score_pack pack_eq [OF kickers_small(1) [OF assms]])

lemma classify_mset_cong:
  assumes "hand5 a" "mset a = mset b"
  shows "classify a = classify b"
proof -
  have b: "hand5 b" using assms mset_eq_setD mset_eq_length by (metis hand5_def)
  have len: "length (filter P a) = length (filter P b)" for P
    using assms(2) by (metis mset_filter size_mset)
  have rc: "rankCount a = rankCount b"
    by (rule nth_equalityI)
      (simp_all add: rankCount_nth [OF assms(1)] rankCount_nth [OF b] rank_count_def len)
  have sc: "suitCount a = suitCount b"
    by (rule nth_equalityI) (simp_all add: suitCount_nth [OF assms(1)] suitCount_nth [OF b] len)
  have pr: "mark rank_nat (replicate 15 False) a = mark rank_nat (replicate 15 False) b"
    by (rule nth_equalityI)
      (simp_all add: present_nth [OF assms(1)] present_nth [OF b] mset_eq_setD [OF assms(2)])
  have "map (\<lambda>_. r) (filter P a) = map (\<lambda>_. r) (filter P b)" for r :: nat and P
    unfolding map_replicate_const len ..
  then have "descendingRanks a = descendingRanks b" by (simp only: descendingRanks_def)
  moreover have "straightHigh a = straightHigh b" unfolding straightHigh_def pr ..
  moreover have bc: "byCount a = byCount b" unfolding byCount_def rc ..
  moreover have "groupSize a = groupSize b" unfolding groupSize_def rc bc ..
  moreover have "flush a = flush b" unfolding flush_def sc ..
  ultimately show ?thesis by (simp only: classify_def)
qed

section \<open>Properties\<close>

lemma Score5_Inr:
  assumes "length hand = 5" "Score5 hand = Inr r"
  shows "hand5 hand" "Category r = fst (classify hand)" "Score r = five_score hand" "BestFive r = hand"
proof -
  have "find (\<lambda>c. \<not> Valid c) hand = None" using assms(2) by (auto simp: Score5_def split: option.splits)
  then show "hand5 hand" using assms(1) find_None_all [of Valid hand] by (simp add: hand5_def)
  show "Category r = fst (classify hand)" "Score r = five_score hand" "BestFive r = hand"
    using assms(2)
    by (auto simp: Score5_def score5_def five_score_def split: option.splits prod.splits)
qed

text \<open>
  C18: the scorer follows the rules of poker: for five real cards the category is the one the rules
  give (the wheel is a five-high straight), the kickers are the ranks in the order of precedence the
  rules give, and the packed score fits in 24 bits, far inside an \<open>int64\<close>.
\<close>

theorem Score5_follows_rules:
  assumes "length hand = 5" and "Score5 hand = Inr r"
  shows "Category r = poker_category hand \<and> BestFive r = hand
       \<and> (\<exists>ks. kickers_spec hand ks \<and> Score r = pack (Category r) ks)
       \<and> 0 \<le> Score r \<and> Score r < 9 * 16 ^ 5"
  using Score5_Inr [OF assms] category_correct kickers_correct five_score_bounds
  by (metis five_score_pack)

definition wheel_hand :: "card list" where
  "wheel_hand = [\<lparr>Rank = 14, Suit = 0\<rparr>, \<lparr>Rank = 4, Suit = 1\<rparr>, \<lparr>Rank = 2, Suit = 2\<rparr>,
     \<lparr>Rank = 5, Suit = 3\<rparr>, \<lparr>Rank = 3, Suit = 0\<rparr>]"

definition pair_hand :: "card list" where
  "pair_hand = [\<lparr>Rank = 9, Suit = 0\<rparr>, \<lparr>Rank = 4, Suit = 1\<rparr>, \<lparr>Rank = 9, Suit = 2\<rparr>,
     \<lparr>Rank = 14, Suit = 3\<rparr>, \<lparr>Rank = 3, Suit = 0\<rparr>]"

lemma sample_scores:
  "Score5 wheel_hand = Inr \<lparr>Category = Straight, Score = 4521984, BestFive = wheel_hand\<rparr>"
  "Score5 pair_hand = Inr \<lparr>Category = PairCat, Score = 1696816, BestFive = pair_hand\<rparr>"
  by code_simp+

theorem Score5_follows_rules_witness:
  "poker_category wheel_hand = Straight \<and> (\<exists>ks. kickers_spec wheel_hand ks \<and> 4521984 = pack Straight ks)"
  using Score5_follows_rules [of wheel_hand, OF _ sample_scores(1)] by (auto simp: wheel_hand_def)

text \<open>
  scores are comparable: of two scored hands the one with the higher score is the better one, by
  category first and by kickers, compared from the most significant, within a category; and equal
  scores are genuinely tied hands, equal in category and in every kicker.
\<close>

theorem Score5_order:
  assumes "length a = 5" "length b = 5" "Score5 a = Inr r" "Score5 b = Inr q"
  shows "(Score r < Score q \<longleftrightarrow>
            cat_int (Category r) < cat_int (Category q)
          \<or> (Category r = Category q \<and> ord_class.lexordp (snd (classify a)) (snd (classify b))))
       \<and> (Score r = Score q \<longleftrightarrow> classify a = classify b)"
  using Score5_Inr [OF assms(1,3)] Score5_Inr [OF assms(2,4)] five_score_less five_score_eq
    category_correct by metis

theorem Score5_order_witness:
  "(1696816 < (4521984::int) \<longleftrightarrow> cat_int PairCat < cat_int Straight
      \<or> (PairCat = Straight \<and> ord_class.lexordp (snd (classify pair_hand)) (snd (classify wheel_hand))))
   \<and> (1696816 = (4521984::int) \<longleftrightarrow> classify pair_hand = classify wheel_hand)"
  using Score5_order [OF _ _ sample_scores(2) sample_scores(1)]
  by (simp add: pair_hand_def wheel_hand_def)

text \<open>
  the order in which the five cards are presented does not matter, neither to the category nor to
  the score: every replayer scores the same hand alike.
\<close>

theorem score5_order_independent:
  assumes "hand5 a" and "mset a = mset b"
  shows "score5 a = score5 b"
  using classify_mset_cong [OF assms] by (simp add: score5_def)

theorem score5_order_independent_witness: "score5 wheel_hand = score5 (rev wheel_hand)"
  by (rule score5_order_independent)
    (simp_all add: hand5_def wheel_hand_def Valid_def rank_defs suit_defs)

end
