(* ===== verification/Engine.thy ===== *)
theory Engine
  imports Eval_Score
begin

text \<open>
  The betting engine of \<^verbatim>\<open>internal/game/engine/engine.go\<close>: one hand of Hold'em as a state machine.
  The model follows the source operation by operation. A method that mutates the hand and returns
  an error is a function from the hand to the error, if any, and the hand afterwards. Chip amounts,
  \<open>int64\<close> in the source, are \<open>int\<close>; \<open>Engine_Props\<close> bounds every amount the engine computes. Go
  map entries keyed by seat are a map on seat numbers; \<open>-1\<close> for "no seat" is kept as it is, and an
  index out of range is the error \<open>GoPanic\<close>.
\<close>

section \<open>State\<close>

datatype street = Preflop | Flop | Turn | River | Complete

datatype action_kind = Fold | Check | Call | Bet | Raise | UnknownKind int

record action =
  Kind :: action_kind
  ActSeat :: int
  To :: int

definition MinSeats :: nat where "MinSeats = 2"
definition MaxSeats :: nat where "MaxSeats = 6"

record seat =
  SeatIndex :: nat
  Stack :: int
  Hole :: "card list"
  Folded :: bool
  AllIn :: bool
  StreetCommit :: int
  TotalCommit :: int
  ActedThisStreet :: bool

record legal =
  CanFold :: bool
  CanCheck :: bool
  CanCall :: bool
  CanBetRaise :: bool
  CallAmount :: int
  MinTo :: int
  MaxTo :: int

record hand =
  Seats :: "seat list"
  Board :: "card list"
  Street :: street
  Button :: int
  SmallBlind :: int
  BigBlind :: int
  CurrentBet :: int
  MinRaise :: int
  ToAct :: int
  Done :: bool
  AwaitingBoard :: bool
  PendingBoardCount :: nat
  AwaitingShowdown :: bool
  Payouts :: "nat \<rightharpoonup> int"
  UseHole :: int
  deck :: "card list"
  deckPos :: nat
  pendingStreet :: street
  deferReveal :: bool

record config =
  cfgStacks :: "int list"
  cfgButton :: int
  cfgSmallBlind :: int
  cfgBigBlind :: int
  cfgDeck :: "card list"
  cfgHoleCards :: int
  cfgUseHole :: int
  cfgDeferReveal :: bool

datatype engine_error = TooFewSeats nat | TooManySeats nat | ButtonOutOfRange int
  | BlindsNotPositive | SmallBlindExceedsBig | NonPositiveStack nat | DeckTooShort int
  | HandComplete | WaitingForBoard | WaitingForHoleCards | OutOfTurn int int
  | CannotCheck int | NothingToCall | CannotBetOrRaise | TargetOutsideRange int int int
  | MustIncreaseCommitment | UnknownAction int
  | NotWaitingForBoard | WrongBoardCount nat nat | InvalidBoardCard card
  | NoLiveSeat | ScoringFailed nat eval_error | NoWinner
  | SeatOutOfRange int | InvalidHoleCard card | NotAwaitingShowdown | GoPanic

section \<open>Queries\<close>

definition able :: "seat \<Rightarrow> bool" where
  "able s \<longleftrightarrow> \<not> Folded s \<and> \<not> AllIn s"

definition payout_of :: "(nat \<rightharpoonup> int) \<Rightarrow> nat \<Rightarrow> int" where
  "payout_of m i = (case m i of None \<Rightarrow> 0 | Some v \<Rightarrow> v)"

text \<open>\<open>Pot\<close> sums \<open>Payouts\<close> over its keys, which are seat numbers.\<close>

definition paid_total :: "nat \<Rightarrow> (nat \<rightharpoonup> int) \<Rightarrow> int" where
  "paid_total n m = sum_list (map (payout_of m) [0..<n])"

definition Pot :: "hand \<Rightarrow> int" where
  "Pot st = sum_list (map TotalCommit (Seats st)) - paid_total (length (Seats st)) (Payouts st)"

definition nextAbleToAct :: "hand \<Rightarrow> int \<Rightarrow> int" where
  "nextAbleToAct st from =
     (let n = length (Seats st); at = (\<lambda>k. nat ((from + int k) mod int n))
      in case find (\<lambda>k. able (Seats st ! at k)) [1..<Suc n] of
           None \<Rightarrow> -1
         | Some k \<Rightarrow> int (at k))"

definition liveCount :: "hand \<Rightarrow> nat" where
  "liveCount st = length (filter (\<lambda>s. \<not> Folded s) (Seats st))"

definition ableToActCount :: "hand \<Rightarrow> nat" where
  "ableToActCount st = length (filter able (Seats st))"

definition no_legal :: legal where
  "no_legal = \<lparr>CanFold = False, CanCheck = False, CanCall = False, CanBetRaise = False,
     CallAmount = 0, MinTo = 0, MaxTo = 0\<rparr>"

definition Legal :: "hand \<Rightarrow> legal" where
  "Legal st =
     (if Done st \<or> ToAct st < 0 \<or> AwaitingBoard st \<or> AwaitingShowdown st then no_legal
      else let s = Seats st ! nat (ToAct st);
               toCall = CurrentBet st - StreetCommit s;
               maxTo = StreetCommit s + Stack s;
               minTo = (if CurrentBet st \<le> 0 then BigBlind st else CurrentBet st + MinRaise st);
               canBet = maxTo > CurrentBet st \<and> Stack s > 0
           in \<lparr>CanFold = True, CanCheck = toCall \<le> 0, CanCall = toCall > 0 \<and> Stack s > 0,
               CanBetRaise = canBet, CallAmount = min toCall (Stack s),
               MinTo = (if canBet then min minTo maxTo else 0),
               MaxTo = (if canBet then maxTo else 0)\<rparr>)"

section \<open>Settlement\<close>

text \<open>
  \<open>scoreAndPay\<close>, bottom up: the scoring loop over the live seats of a layer, the split of one
  layer among its winners, the loop over the layers, and the writes to the seats.
\<close>

fun pick_winners :: "hand \<Rightarrow> seat list \<Rightarrow> int \<Rightarrow> nat list \<Rightarrow> (engine_error, nat list) res" where
  "pick_winners st [] best winners = Inr winners"
| "pick_winners st (s # live) best winners =
     (case BestConstrained (Hole s) (Board st) (UseHole st) of
        Inl e \<Rightarrow> Inl (ScoringFailed (SeatIndex s) e)
      | Inr r \<Rightarrow>
          (if Score r > best then pick_winners st live (Score r) [SeatIndex s]
           else if Score r = best then pick_winners st live best (winners @ [SeatIndex s])
           else pick_winners st live best winners))"

definition award :: "nat \<Rightarrow> int \<Rightarrow> (nat \<rightharpoonup> int) \<Rightarrow> (nat \<rightharpoonup> int)" where
  "award w amt won = won(w \<mapsto> payout_of won w + amt)"

definition split_pot :: "nat list \<Rightarrow> int \<Rightarrow> (nat \<rightharpoonup> int) \<Rightarrow> (nat \<rightharpoonup> int)" where
  "split_pot winners potAtLevel won =
     (let each = potAtLevel div int (length winners);
          rem = potAtLevel - each * int (length winners);
          won' = fold (\<lambda>w. award w each) winners won
      in if rem > 0 then award (hd winners) rem won' else won')"

definition layer_live :: "hand \<Rightarrow> int \<Rightarrow> seat list" where
  "layer_live st lvl =
     (let live = filter (\<lambda>s. TotalCommit s \<ge> lvl \<and> \<not> Folded s) (Seats st)
      in if live = [] then filter (\<lambda>s. \<not> Folded s) (Seats st) else live)"

fun pay_layers ::
  "hand \<Rightarrow> int list \<Rightarrow> int \<Rightarrow> (nat \<rightharpoonup> int) \<Rightarrow> (engine_error, nat \<rightharpoonup> int) res" where
  "pay_layers st [] prev won = Inr won"
| "pay_layers st (lvl # levels) prev won =
     (let slice = lvl - prev;
          eligible = filter (\<lambda>s. TotalCommit s \<ge> lvl) (Seats st);
          potAtLevel = slice * int (length eligible);
          live = layer_live st lvl
      in if live = [] then Inl NoLiveSeat
         else case pick_winners st live (-1) [] of
                Inl e \<Rightarrow> Inl e
              | Inr winners \<Rightarrow>
                  (if winners = [] then Inl NoWinner
                   else pay_layers st levels lvl (split_pot (sort winners) potAtLevel won)))"

definition commit_levels :: "hand \<Rightarrow> int list" where
  "commit_levels st = sort (remdups (filter (\<lambda>c. c > 0) (map TotalCommit (Seats st))))"

definition receive :: "(nat \<rightharpoonup> int) \<Rightarrow> seat \<Rightarrow> seat" where
  "receive won s =
     (case won (SeatIndex s) of None \<Rightarrow> s | Some amt \<Rightarrow> s\<lparr>Stack := Stack s + amt\<rparr>)"

definition scoreAndPay :: "hand \<Rightarrow> (engine_error, hand) outcome" where
  "scoreAndPay st =
     (case pay_layers st (commit_levels st) 0 Map.empty of
        Inl e \<Rightarrow> (Some e, st)
      | Inr won \<Rightarrow> (None, st\<lparr>Seats := map (receive won) (Seats st), Payouts := Payouts st ++ won\<rparr>))"

definition finish :: "hand \<Rightarrow> hand" where
  "finish st = st\<lparr>Done := True, Street := Complete, ToAct := -1\<rparr>"

definition settle :: "hand \<Rightarrow> (engine_error, hand) outcome" where
  "settle st =
     (case filter (\<lambda>s. \<not> Folded s) (Seats st) of
        [w] \<Rightarrow>
          let won = sum_list (map TotalCommit (Seats st)); i = SeatIndex w
          in (None, finish (st\<lparr>Seats := (Seats st)[i := (Seats st ! i)\<lparr>Stack := Stack (Seats st ! i) + won\<rparr>],
                              Payouts := (Payouts st)(i \<mapsto> won)\<rparr>))
      | _ \<Rightarrow>
          (if deferReveal st then (None, st\<lparr>AwaitingShowdown := True, ToAct := -1\<rparr>)
           else scoreAndPay (finish st)))"

section \<open>Betting\<close>

text \<open>\<open>commit\<close> and \<open>postBlind\<close> have the same body; the first is given the seat, the second its index.\<close>

definition commit :: "seat \<Rightarrow> int \<Rightarrow> seat" where
  "commit s amt =
     (let pay = min amt (Stack s);
          s' = s\<lparr>Stack := Stack s - pay, StreetCommit := StreetCommit s + pay,
                 TotalCommit := TotalCommit s + pay\<rparr>
      in if Stack s' = 0 then s'\<lparr>AllIn := True\<rparr> else s')"

definition postBlind :: "hand \<Rightarrow> nat \<Rightarrow> int \<Rightarrow> hand" where
  "postBlind st i amt = st\<lparr>Seats := (Seats st)[i := commit (Seats st ! i) amt]\<rparr>"

text \<open>The street that follows, with the number of board cards it needs. The source's switch has no
  case for \<open>Complete\<close>, which keeps the initial values.\<close>

fun street_step :: "street \<Rightarrow> nat \<times> street" where
  "street_step Preflop = (3, Flop)"
| "street_step Flop = (1, Turn)"
| "street_step Turn = (1, River)"
| "street_step River = (1, Turn)"
| "street_step Complete = (1, Turn)"

fun streets_left :: "street \<Rightarrow> nat" where
  "streets_left Preflop = 3"
| "streets_left Flop = 2"
| "streets_left Turn = 1"
| "streets_left River = 0"
| "streets_left Complete = 2"

definition clear_street :: "hand \<Rightarrow> hand" where
  "clear_street st =
     st\<lparr>Seats := map (\<lambda>s. s\<lparr>StreetCommit := 0, ActedThisStreet := False\<rparr>) (Seats st),
        CurrentBet := 0, MinRaise := BigBlind st\<rparr>"

function nextStreet :: "hand \<Rightarrow> (engine_error, hand) outcome"
  and finishStreetTransition :: "hand \<Rightarrow> (engine_error, hand) outcome" where
  "nextStreet st =
     (if Street st = River then settle st
      else let st' = clear_street st; (need, nxt) = street_step (Street st)
        in if deferReveal st'
           then (None, st'\<lparr>pendingStreet := nxt, PendingBoardCount := need, AwaitingBoard := True,
                           ToAct := -1\<rparr>)
           else if deckPos st' + need > length (deck st') then (Some GoPanic, st')
           else finishStreetTransition
                  (st'\<lparr>Board := Board st' @ take need (drop (deckPos st') (deck st')),
                       deckPos := deckPos st' + need, Street := nxt\<rparr>))"
| "finishStreetTransition st =
     (if ableToActCount st \<le> 1
      then (if Street st \<noteq> River then nextStreet st else settle st)
      else let st' = st\<lparr>ToAct := nextAbleToAct st (Button st)\<rparr>
        in if ToAct st' < 0 then nextStreet st' else (None, st'))"
  by pat_completeness auto
termination
proof (relation "measure (\<lambda>x. case x of Inl st \<Rightarrow> 2 * streets_left (Street st)
                                      | Inr st \<Rightarrow> 2 * streets_left (Street st) + 1)", goal_cases)
  case (2 st st' x need nxt)
  then show ?case by (cases "Street st") auto
qed auto

declare nextStreet.simps [simp del] finishStreetTransition.simps [simp del]

definition street_closed :: "hand \<Rightarrow> bool" where
  "street_closed st \<longleftrightarrow>
     (let closed = (\<forall>s \<in> set (Seats st). able s \<longrightarrow> ActedThisStreet s \<and> StreetCommit s = CurrentBet st)
      in if \<not> closed \<and> ableToActCount st \<le> 1
         then \<forall>s \<in> set (Seats st). able s \<longrightarrow> ActedThisStreet s
         else closed)"

definition advance :: "hand \<Rightarrow> (engine_error, hand) outcome" where
  "advance st =
     (if liveCount st = 1 then settle st
      else if \<not> street_closed st \<and> nextAbleToAct st (ToAct st) \<ge> 0
      then (None, st\<lparr>ToAct := nextAbleToAct st (ToAct st)\<rparr>)
      else nextStreet st)"

definition set_seat :: "hand \<Rightarrow> nat \<Rightarrow> seat \<Rightarrow> hand" where
  "set_seat st i s = st\<lparr>Seats := (Seats st)[i := s]\<rparr>"

text \<open>A raise reopens the action for every other seat that can still act.\<close>

definition reopen :: "nat \<Rightarrow> seat list \<Rightarrow> seat list" where
  "reopen i ss = map (\<lambda>(k, o'). if k \<noteq> i \<and> able o' then o'\<lparr>ActedThisStreet := False\<rparr> else o')
                     (zip [0..<length ss] ss)"

text \<open>The switch on the action's kind: the rejection, or the hand after the move itself.\<close>

definition apply_raise :: "hand \<Rightarrow> nat \<Rightarrow> int \<Rightarrow> (engine_error, hand) res" where
  "apply_raise st i to =
     (let s = Seats st ! i; l = Legal st
      in if \<not> CanBetRaise l then Inl CannotBetOrRaise
         else if \<not> to \<ge> StreetCommit s + Stack s \<and> (to < MinTo l \<or> to > MaxTo l)
         then Inl (TargetOutsideRange to (MinTo l) (MaxTo l))
         else let add = min to (StreetCommit s + Stack s) - StreetCommit s
           in if add \<le> 0 then Inl MustIncreaseCommitment
              else let increment = StreetCommit s + add - CurrentBet st;
                       s' = commit s add;
                       st' = set_seat st i s'
                in if StreetCommit s' > CurrentBet st
                   then Inr (st'\<lparr>MinRaise := (if increment \<ge> MinRaise st then increment else MinRaise st),
                                 CurrentBet := StreetCommit s',
                                 Seats := reopen i (Seats st')\<rparr>)
                   else Inr st')"

fun apply_kind :: "hand \<Rightarrow> nat \<Rightarrow> action_kind \<Rightarrow> int \<Rightarrow> (engine_error, hand) res" where
  "apply_kind st i Fold to = Inr (set_seat st i ((Seats st ! i)\<lparr>Folded := True\<rparr>))"
| "apply_kind st i Check to =
     (let toCall = CurrentBet st - StreetCommit (Seats st ! i)
      in if toCall > 0 then Inl (CannotCheck toCall) else Inr st)"
| "apply_kind st i Call to =
     (let s = Seats st ! i; toCall = CurrentBet st - StreetCommit s
      in if toCall \<le> 0 then Inl NothingToCall
         else Inr (set_seat st i (commit s (min toCall (Stack s)))))"
| "apply_kind st i Bet to = apply_raise st i to"
| "apply_kind st i Raise to = apply_raise st i to"
| "apply_kind st i (UnknownKind k) to = Inl (UnknownAction k)"

definition mark_acted :: "hand \<Rightarrow> nat \<Rightarrow> hand" where
  "mark_acted st i = set_seat st i ((Seats st ! i)\<lparr>ActedThisStreet := True\<rparr>)"

definition Apply :: "hand \<Rightarrow> action \<Rightarrow> (engine_error, hand) outcome" where
  "Apply st a =
     (if Done st then (Some HandComplete, st)
      else if AwaitingBoard st then (Some WaitingForBoard, st)
      else if AwaitingShowdown st then (Some WaitingForHoleCards, st)
      else if ActSeat a \<noteq> ToAct st then (Some (OutOfTurn (ActSeat a) (ToAct st)), st)
      else if ToAct st < 0 \<or> ToAct st \<ge> int (length (Seats st)) then (Some GoPanic, st)
      else let i = nat (ToAct st)
        in case apply_kind st i (Kind a) (To a) of
             Inl e \<Rightarrow> (Some e, st)
           | Inr st' \<Rightarrow> advance (mark_acted st' i))"

section \<open>The deal protocol's calls\<close>

definition SupplyBoard :: "hand \<Rightarrow> card list \<Rightarrow> (engine_error, hand) outcome" where
  "SupplyBoard st revealed =
     (if \<not> AwaitingBoard st then (Some NotWaitingForBoard, st)
      else if length revealed \<noteq> PendingBoardCount st
      then (Some (WrongBoardCount (length revealed) (PendingBoardCount st)), st)
      else case find (\<lambda>c. \<not> Valid c) revealed of
             Some c \<Rightarrow> (Some (InvalidBoardCard c), st)
           | None \<Rightarrow> finishStreetTransition
                       (st\<lparr>Board := Board st @ revealed, Street := pendingStreet st,
                           AwaitingBoard := False, PendingBoardCount := 0\<rparr>))"

definition SetRevealedHole :: "hand \<Rightarrow> int \<Rightarrow> card list \<Rightarrow> (engine_error, hand) outcome" where
  "SetRevealedHole st i hole =
     (if i < 0 \<or> i \<ge> int (length (Seats st)) then (Some (SeatOutOfRange i), st)
      else case find (\<lambda>c. \<not> Valid c) hole of
             Some c \<Rightarrow> (Some (InvalidHoleCard c), st)
           | None \<Rightarrow> (None, set_seat st (nat i) ((Seats st ! nat i)\<lparr>Hole := hole\<rparr>)))"

definition CompleteShowdown :: "hand \<Rightarrow> (engine_error, hand) outcome" where
  "CompleteShowdown st =
     (if \<not> AwaitingShowdown st then (Some NotAwaitingShowdown, st)
      else scoreAndPay (finish (st\<lparr>AwaitingShowdown := False\<rparr>)))"

section \<open>A new hand\<close>

definition fresh_seat :: "nat \<Rightarrow> int \<Rightarrow> seat" where
  "fresh_seat i stack = \<lparr>SeatIndex = i, Stack = stack, Hole = [], Folded = False, AllIn = False,
     StreetCommit = 0, TotalCommit = 0, ActedThisStreet = False\<rparr>"

fun deal_holes :: "nat \<Rightarrow> card list \<Rightarrow> nat \<Rightarrow> seat list \<Rightarrow> seat list" where
  "deal_holes holeCount d pos [] = []"
| "deal_holes holeCount d pos (s # ss) =
     s\<lparr>Hole := map (\<lambda>k. d ! (pos + k)) [0..<holeCount]\<rparr> # deal_holes holeCount d (pos + holeCount) ss"

definition blind_seats :: "nat \<Rightarrow> nat \<Rightarrow> nat \<times> nat" where
  "blind_seats n button =
     (if n = 2 then (button, (button + 1) mod n) else ((button + 1) mod n, (button + 2) mod n))"

definition start_hand :: "config \<Rightarrow> nat \<Rightarrow> hand" where
  "start_hand cfg holeCount =
     (let n = length (cfgStacks cfg);
          seats = map (\<lambda>i. fresh_seat i (cfgStacks cfg ! i)) [0..<n]
      in \<lparr>Seats = deal_holes holeCount (cfgDeck cfg) 0 seats, Board = [], Street = Preflop,
          Button = cfgButton cfg, SmallBlind = cfgSmallBlind cfg, BigBlind = cfgBigBlind cfg,
          CurrentBet = 0, MinRaise = 0, ToAct = 0, Done = False, AwaitingBoard = False,
          PendingBoardCount = 0, AwaitingShowdown = False, Payouts = Map.empty,
          UseHole = cfgUseHole cfg, deck = cfgDeck cfg, deckPos = n * holeCount,
          pendingStreet = Preflop, deferReveal = cfgDeferReveal cfg\<rparr>)"

definition New :: "config \<Rightarrow> (engine_error, hand) res" where
  "New cfg =
     (let n = length (cfgStacks cfg);
          holeCount = (if cfgHoleCards cfg = 0 then 2 else cfgHoleCards cfg);
          need = holeCount * int n + 5
      in if n < MinSeats then Inl (TooFewSeats n)
         else if n > MaxSeats then Inl (TooManySeats n)
         else if cfgButton cfg < 0 \<or> cfgButton cfg \<ge> int n then Inl (ButtonOutOfRange (cfgButton cfg))
         else if cfgBigBlind cfg \<le> 0 \<or> cfgSmallBlind cfg \<le> 0 then Inl BlindsNotPositive
         else if cfgSmallBlind cfg > cfgBigBlind cfg then Inl SmallBlindExceedsBig
         else case find (\<lambda>i. cfgStacks cfg ! i \<le> 0) [0..<n] of
                Some i \<Rightarrow> Inl (NonPositiveStack i)
              | None \<Rightarrow>
                  (if int (length (cfgDeck cfg)) < need then Inl (DeckTooShort need)
                   else if holeCount < 0 then Inl GoPanic
                   else let (sb, bb) = blind_seats n (nat (cfgButton cfg));
                            st = postBlind (postBlind (start_hand cfg (nat holeCount)) sb
                                                      (cfgSmallBlind cfg)) bb (cfgBigBlind cfg);
                            st' = st\<lparr>CurrentBet := cfgBigBlind cfg, MinRaise := cfgBigBlind cfg\<rparr>
                     in Inr (st'\<lparr>ToAct := nextAbleToAct st' (int bb)\<rparr>)))"

end
