(* ===== verification/Engine_Pay.thy ===== *)
theory Engine_Pay
  imports Engine
begin

text \<open>
  Settlement: what \<open>scoreAndPay\<close> and \<open>settle\<close> pay. The layers of the pot add up to the chips
  committed, a layer is split without loss, the winners of a layer are the best live hands, and a
  seat wins nothing beyond the layers it reached, dead money apart.
\<close>

section \<open>Payout maps\<close>

lemma payout_of_empty [simp]: "payout_of Map.empty i = 0"
  by (simp add: payout_of_def)

lemma payout_of_upd [simp]: "payout_of (m(i \<mapsto> v)) j = (if j = i then v else payout_of m j)"
  by (simp add: payout_of_def)

lemma payout_of_outside: "i \<notin> dom m \<Longrightarrow> payout_of m i = 0"
  by (auto simp: payout_of_def split: option.splits)

lemma payout_of_award [simp]:
  "payout_of (award w amt won) i = payout_of won i + (if i = w then amt else 0)"
  by (simp add: award_def)

lemma dom_award [simp]: "dom (award w amt won) = insert w (dom won)"
  by (simp add: award_def)

lemma payout_of_fold_award:
  "payout_of (fold (\<lambda>w. award w each) ws won) i
     = payout_of won i + each * int (length (filter (\<lambda>w. w = i) ws))"
  by (induction ws arbitrary: won) (auto simp: algebra_simps)

lemma dom_fold_award [simp]: "dom (fold (\<lambda>w. award w each) ws won) = dom won \<union> set ws"
  by (induction ws arbitrary: won) auto

lemma paid_total_empty [simp]: "paid_total n Map.empty = 0"
proof -
  have "payout_of Map.empty = (\<lambda>i. 0)" by (rule ext) simp
  then show ?thesis by (simp add: paid_total_def)
qed

lemma paid_total_upd:
  "i < n \<Longrightarrow> paid_total n (m(i \<mapsto> v)) = paid_total n m - payout_of m i + v"
proof -
  assume i: "i < n"
  have "payout_of (m(i \<mapsto> v)) = (\<lambda>k. payout_of m k + (if k = i then v - payout_of m i else 0))"
    by (rule ext) simp
  then have "paid_total n (m(i \<mapsto> v))
      = (\<Sum>k\<leftarrow>[0..<n]. payout_of m k + (if k = i then v - payout_of m i else 0))"
    by (simp add: paid_total_def)
  also have "\<dots> = paid_total n m + (v - payout_of m i)"
    unfolding sum_list_addf paid_total_def using sum_list_indicator_nth [OF i] by simp
  finally show ?thesis by simp
qed

lemma paid_total_award [total_simps]:
  "w < n \<Longrightarrow> paid_total n (award w amt won) = paid_total n won + amt"
  by (simp add: award_def paid_total_upd)

lemma paid_total_fold_award [total_simps]:
  "set ws \<subseteq> {..<n} \<Longrightarrow>
     paid_total n (fold (\<lambda>w. award w each) ws won) = paid_total n won + each * int (length ws)"
  by (induction ws arbitrary: won) (auto simp: paid_total_award algebra_simps)

section \<open>Splitting one layer\<close>

text \<open>The shares and the odd chips of a layer are the layer, and nobody but a winner is paid.\<close>

lemma split_pot_total [total_simps]:
  assumes "ws \<noteq> []" and "set ws \<subseteq> {..<n}"
  shows "paid_total n (split_pot ws pot won) = paid_total n won + pot"
proof -
  have "hd ws < n" using assms by (cases ws) auto
  moreover have "pot - pot div int (length ws) * int (length ws) = pot mod int (length ws)"
    by (simp add: minus_div_mult_eq_mod)
  moreover have "0 \<le> pot mod int (length ws)" using assms(1) by simp
  ultimately show ?thesis using assms(2)
    by (simp add: split_pot_def Let_def total_simps)
qed

lemma split_pot_mono:
  assumes "0 \<le> pot"
  shows "payout_of won i \<le> payout_of (split_pot ws pot won) i"
proof -
  have "0 \<le> pot div int (length ws)" using assms by (simp add: div_int_pos_iff)
  then have "0 \<le> pot div int (length ws) * int (length (filter (\<lambda>w. w = i) ws))" by simp
  then show ?thesis by (simp add: split_pot_def Let_def payout_of_fold_award)
qed

lemma split_pot_other:
  assumes "ws \<noteq> []" "i \<notin> set ws"
  shows "payout_of (split_pot ws pot won) i = payout_of won i"
proof -
  have "i \<noteq> hd ws" using assms by (metis list.set_sel(1))
  moreover have "filter (\<lambda>w. w = i) ws = []" using assms by (auto simp: filter_empty_conv)
  ultimately show ?thesis by (simp add: split_pot_def Let_def payout_of_fold_award)
qed

lemma dom_split_pot: "ws \<noteq> [] \<Longrightarrow> dom (split_pot ws pot won) = dom won \<union> set ws"
  by (cases ws) (auto simp: split_pot_def Let_def)

lemma payout_le_paid_total:
  assumes "i < n" "\<And>j. 0 \<le> payout_of m j"
  shows "payout_of m i \<le> paid_total n m"
  using assms member_le_sum_list_int [of i "[0..<n]" "payout_of m"] by (simp add: paid_total_def)

text \<open>No winner takes more than the layer.\<close>

lemma split_pot_upper:
  assumes "0 \<le> pot" "distinct ws" "ws \<noteq> []"
  shows "payout_of (split_pot ws pot won) i \<le> payout_of won i + pot"
proof (cases "i \<in> set ws")
  case True
  let ?k = "int (length ws)"
  have k: "0 < ?k" using assms(3) by simp
  have "length (filter (\<lambda>w. w = i) ws) \<le> 1"
    using assms(2) by (simp add: distinct_length_filter card_le_Suc0_iff_eq)
  then have "pot div ?k * int (length (filter (\<lambda>w. w = i) ws)) \<le> pot div ?k"
    using assms(1) k by (intro mult_left_le) (auto simp: pos_imp_zdiv_nonneg_iff)
  moreover have "pot div ?k + (pot - pot div ?k * ?k) \<le> pot"
  proof -
    have "pot div ?k * 1 \<le> pot div ?k * ?k"
      using assms(1) k by (intro mult_left_mono) (simp_all add: pos_imp_zdiv_nonneg_iff del: of_nat_0_less_iff)
    then show ?thesis by simp
  qed
  moreover have "pot div ?k \<le> pot" using assms(1) k
    by (metis div_by_1 int_one_le_iff_zero_less zdiv_mono2 zero_less_one)
  ultimately show ?thesis
    by (auto simp: split_pot_def Let_def payout_of_fold_award)
next
  case False
  with assms show ?thesis by (simp add: split_pot_other)
qed

section \<open>Winners\<close>

text \<open>
  The scoring loop is an argmax with ties: the seats it returns are those whose score is the
  largest, in the order it met them.
\<close>

definition seat_result :: "hand \<Rightarrow> seat \<Rightarrow> (eval_error, result) res" where
  "seat_result st s = BestConstrained (Hole s) (Board st) (UseHole st)"

definition seat_score :: "hand \<Rightarrow> seat \<Rightarrow> int" where
  "seat_score st s = (case seat_result st s of Inr r \<Rightarrow> Score r | Inl e \<Rightarrow> -1)"

definition top_score :: "hand \<Rightarrow> seat list \<Rightarrow> int \<Rightarrow> int" where
  "top_score st live best = fold (\<lambda>s b. max b (seat_score st s)) live best"

lemma top_score_ge: "best \<le> top_score st live best"
  unfolding top_score_def
  by (induction live arbitrary: best) (auto, meson max.bounded_iff)

lemma top_score_bound: "s \<in> set live \<Longrightarrow> seat_score st s \<le> top_score st live best"
proof (induction live arbitrary: best)
  case (Cons x live)
  show ?case
  proof (cases "s = x")
    case True
    have "seat_score st x \<le> max best (seat_score st x)" by simp
    also have "\<dots> \<le> top_score st live (max best (seat_score st x))" by (rule top_score_ge)
    finally show ?thesis using True by (simp add: top_score_def)
  next
    case False
    with Cons show ?thesis by (simp add: top_score_def)
  qed
qed simp

lemma top_score_attained:
  "top_score st live best = best \<or> (\<exists>s \<in> set live. top_score st live best = seat_score st s)"
proof (induction live arbitrary: best)
  case (Cons x live)
  from Cons [of "max best (seat_score st x)"] show ?case
    by (auto simp: top_score_def max_def split: if_splits)
qed (simp add: top_score_def)

lemma pick_winners_argmax:
  assumes "\<And>s. s \<in> set live \<Longrightarrow> \<exists>r. seat_result st s = Inr r"
  shows "pick_winners st live best ws =
     Inr ((if top_score st live best = best then ws else [])
          @ map SeatIndex (filter (\<lambda>s. seat_score st s = top_score st live best) live))"
  using assms
proof (induction live arbitrary: best ws)
  case Nil
  then show ?case by (simp add: top_score_def)
next
  case (Cons x live)
  from Cons.prems [of x] obtain r where r: "seat_result st x = Inr r" by auto
  have sc: "seat_score st x = Score r" by (simp add: seat_score_def r)
  have IH: "pick_winners st live b ws' =
     Inr ((if top_score st live b = b then ws' else [])
          @ map SeatIndex (filter (\<lambda>s. seat_score st s = top_score st live b) live))" for b ws'
    using Cons by simp
  have top: "top_score st (x # live) best = top_score st live (max best (Score r))"
    by (simp add: top_score_def sc)
  have ge: "max best (Score r) \<le> top_score st live (max best (Score r))" by (rule top_score_ge)
  show ?case
    using r ge unfolding top
    by (auto simp: IH seat_result_def sc max_def split: if_splits)
qed

lemma pick_winners_fails:
  assumes "pick_winners st live best ws = Inl e"
  shows "\<exists>s \<in> set live. \<exists>e'. seat_result st s = Inl e' \<and> e = ScoringFailed (SeatIndex s) e'"
  using assms
  by (induction st live best ws rule: pick_winners.induct)
    (auto simp: seat_result_def split: sum.splits if_splits)

lemma pick_winners_Inr:
  assumes "pick_winners st live best ws = Inr ws'" "s \<in> set live"
  shows "\<exists>r. seat_result st s = Inr r"
  using assms
  by (induction st live best ws rule: pick_winners.induct)
    (auto simp: seat_result_def split: sum.splits if_splits)


lemma set_mono_subseq: "subseq xs ys \<Longrightarrow> set xs \<subseteq> set ys"
  by (auto elim: list_emb_set)

text \<open>A score is never negative, so the loop's initial \<open>-1\<close> never survives a scored seat.\<close>

lemma BestConstrained_nonneg:
  assumes "BestConstrained hole board useHole = Inr r"
  shows "0 \<le> Score r"
proof (cases "useHole \<le> 0")
  case True
  with assms have B: "Best (hole @ board) = Inr r" by (simp add: BestConstrained_def)
  then have ok: "HandSize \<le> length (hole @ board)" "\<forall>c \<in> set (hole @ board). Valid c"
    using find_None_all [of Valid "hole @ board"] unfolding Best_def
    by (auto split: if_splits option.splits)
  then obtain five where "subseq five (hole @ board)" "length five = HandSize" "r = five_result five"
    using Best_optimal [OF ok] B by auto
  moreover from this ok have "hand5 five"
    using set_mono_subseq [of five "hole @ board"] by (auto simp: hand5_def HandSize_def)
  ultimately show ?thesis using five_score_bounds(1) by (simp add: five_result_def five_score_def)
next
  case False
  let ?cs = "constrained_fives hole board useHole"
  have ok: "0 < useHole" "useHole \<le> int (length hole)" "int HandSize - useHole \<le> int (length board)"
    "\<forall>c \<in> set (hole @ board). Valid c"
    using assms False find_None_all [of Valid "hole @ board"]
    by (auto simp: BestConstrained_def Let_def split: if_splits option.splits)
  have lt: "useHole < int HandSize"
  proof (rule ccontr)
    assume "\<not> useHole < int HandSize"
    then have "?cs = []" by (simp add: constrained_fives_def)
    with assms BestConstrained_search [OF ok] show False by simp
  qed
  obtain five where "five \<in> set ?cs" "r = five_result five"
    using BestConstrained_optimal [OF ok(1) lt ok(2-4)] assms by auto
  moreover from this ok(4) have "hand5 five"
    using set_constrained_fives [OF ok(1) lt, of hole board] lt ok(1)
    by (auto simp: hand5_def HandSize_def dest!: set_mono_subseq) blast+
  ultimately show ?thesis using five_score_bounds(1) by (simp add: five_result_def five_score_def)
qed

lemma seat_score_nonneg: "seat_result st s = Inr r \<Longrightarrow> 0 \<le> seat_score st s"
  by (auto simp: seat_score_def seat_result_def dest: BestConstrained_nonneg)

section \<open>The layers of the pot\<close>

text \<open>The pairs of bounds of the layers, and what each holds.\<close>

fun layers :: "int list \<Rightarrow> int \<Rightarrow> (int \<times> int) list" where
  "layers [] prev = []"
| "layers (lvl # levels) prev = (prev, lvl) # layers levels lvl"

definition layer_pot :: "hand \<Rightarrow> int \<times> int \<Rightarrow> int" where
  "layer_pot st l = (snd l - fst l) * int (length (filter (\<lambda>s. TotalCommit s \<ge> snd l) (Seats st)))"

definition layer_winners :: "hand \<Rightarrow> int \<Rightarrow> nat list" where
  "layer_winners st lvl =
     sort (map SeatIndex (filter (\<lambda>s. seat_score st s = top_score st (layer_live st lvl) (-1))
                                 (layer_live st lvl)))"

text \<open>One seat's share of the layers up to its own commitment is its commitment.\<close>

lemma layers_telescope:
  assumes "sorted_wrt (<) (prev # levels)" "c \<in> set (prev # levels)"
  shows "(\<Sum>l\<leftarrow>layers levels prev. if snd l \<le> c then snd l - fst l else 0) = c - prev"
  using assms
proof (induction levels arbitrary: prev)
  case (Cons lvl levels)
  show ?case
  proof (cases "c = prev")
    case True
    have above: "(\<Sum>l\<leftarrow>layers ls p. if snd l \<le> c then snd l - fst l else 0) = 0"
      if "\<forall>x \<in> set ls. c < x" for ls p
      using that by (induction ls arbitrary: p) auto
    show ?thesis using above [of "lvl # levels" prev] Cons.prems(1) True by simp
  next
    case False
    with Cons.prems have "lvl \<le> c" "c \<in> set (lvl # levels)" by auto
    then show ?thesis using Cons.IH [of lvl] Cons.prems(1) by simp
  qed
qed simp

lemma sum_list_layers_swap:
  "(\<Sum>l\<leftarrow>ls. (snd l - fst l) * int (length (filter (\<lambda>s. TotalCommit s \<ge> snd l) ss)))
     = (\<Sum>s\<leftarrow>ss. \<Sum>l\<leftarrow>ls. if snd l \<le> TotalCommit s then snd l - fst l else (0 :: int))"
proof (induction ss)
  case (Cons s ss)
  have "(\<Sum>l\<leftarrow>ls. (snd l - fst l) * int (length (filter (\<lambda>s. TotalCommit s \<ge> snd l) (s # ss))))
      = (\<Sum>l\<leftarrow>ls. (if snd l \<le> TotalCommit s then snd l - fst l else 0)
           + (snd l - fst l) * int (length (filter (\<lambda>s. TotalCommit s \<ge> snd l) ss)))"
    by (intro arg_cong [where f = sum_list] map_cong) (auto simp: algebra_simps)
  also have "\<dots> = (\<Sum>l\<leftarrow>ls. if snd l \<le> TotalCommit s then snd l - fst l else 0)
           + (\<Sum>l\<leftarrow>ls. (snd l - fst l) * int (length (filter (\<lambda>s. TotalCommit s \<ge> snd l) ss)))"
    by (rule sum_list_addf)
  finally show ?case using Cons by simp
qed simp

lemma commit_levels_sorted:
  "sorted_wrt (<) (0 # commit_levels st)"
  by (auto simp: commit_levels_def strict_sorted_iff sorted_wrt.simps)

lemma set_commit_levels:
  "set (commit_levels st) = {c \<in> TotalCommit ` set (Seats st). 0 < c}"
  by (auto simp: commit_levels_def)

text \<open>The layers are the pot: no chip committed is outside them and none is counted twice.\<close>

lemma layer_pots_total:
  assumes "\<And>s. s \<in> set (Seats st) \<Longrightarrow> 0 \<le> TotalCommit s"
  shows "sum_list (map (layer_pot st) (layers (commit_levels st) 0))
       = sum_list (map TotalCommit (Seats st))"
proof -
  have "(\<Sum>l\<leftarrow>layers (commit_levels st) 0. if snd l \<le> TotalCommit s then snd l - fst l else 0)
      = TotalCommit s" if "s \<in> set (Seats st)" for s
    using that assms [OF that] layers_telescope [OF commit_levels_sorted, of "TotalCommit s" st]
    by (auto simp: set_commit_levels order_le_less)
  then show ?thesis
    unfolding layer_pot_def sum_list_layers_swap
    by (intro arg_cong [where f = sum_list] map_cong) auto
qed

lemma layers_bounds:
  assumes "sorted_wrt (<) (prev # levels)" "l \<in> set (layers levels prev)"
  shows "prev \<le> fst l" "fst l < snd l" "snd l \<in> set levels"
  using assms
proof (induction levels arbitrary: prev)
  case (Cons lvl levels)
  { case 1 then show ?case using Cons.IH(1) [of lvl] by fastforce }
  { case 2 then show ?case using Cons.IH(2) [of lvl] by fastforce }
  { case 3 then show ?case using Cons.IH(3) [of lvl] by fastforce }
qed simp_all

section \<open>The whole payment\<close>

text \<open>
  \<open>scorable\<close>: every live seat's cards can be evaluated. When it holds, \<open>pay_layers\<close> is a fold of
  \<open>split_pot\<close> over the layers; when it does not, the payment fails.
\<close>

definition scorable :: "hand \<Rightarrow> bool" where
  "scorable st \<longleftrightarrow> (\<exists>s \<in> set (Seats st). \<not> Folded s)
     \<and> (\<forall>s \<in> set (Seats st). \<not> Folded s \<longrightarrow> (\<exists>r. seat_result st s = Inr r))"

definition pay_fold :: "hand \<Rightarrow> (int \<times> int) list \<Rightarrow> (nat \<rightharpoonup> int) \<Rightarrow> (nat \<rightharpoonup> int)" where
  "pay_fold st = fold (\<lambda>l. split_pot (layer_winners st (snd l)) (layer_pot st l))"

lemma layer_live_sub: "s \<in> set (layer_live st lvl) \<Longrightarrow> s \<in> set (Seats st) \<and> \<not> Folded s"
  by (auto simp: layer_live_def Let_def split: if_splits)

lemma layer_live_nonempty: "scorable st \<Longrightarrow> layer_live st lvl \<noteq> []"
  by (auto simp: layer_live_def scorable_def filter_empty_conv Let_def)

lemma layer_scores:
  assumes "scorable st"
  shows "\<And>s. s \<in> set (layer_live st lvl) \<Longrightarrow> \<exists>r. seat_result st s = Inr r"
    and "top_score st (layer_live st lvl) (-1) \<noteq> -1"
proof -
  show *: "\<exists>r. seat_result st s = Inr r" if "s \<in> set (layer_live st lvl)" for s
    using assms layer_live_sub [OF that] by (auto simp: scorable_def)
  obtain s where s: "s \<in> set (layer_live st lvl)"
    using layer_live_nonempty [OF assms, of lvl] by fastforce
  show "top_score st (layer_live st lvl) (-1) \<noteq> -1"
    using top_score_bound [OF s, of st "-1"] * [OF s] seat_score_nonneg by fastforce
qed

lemma layer_winners_nonempty: "scorable st \<Longrightarrow> layer_winners st lvl \<noteq> []"
  using top_score_attained [of st "layer_live st lvl" "-1"] layer_scores(2) [of st lvl]
  by (fastforce simp: layer_winners_def filter_empty_conv simp flip: set_empty)

lemma pay_layers_eq:
  "scorable st \<Longrightarrow> pay_layers st levels prev won = Inr (pay_fold st (layers levels prev) won)"
proof (induction levels arbitrary: prev won)
  case (Cons lvl levels)
  have "pick_winners st (layer_live st lvl) (-1) []
      = Inr (map SeatIndex (filter (\<lambda>s. seat_score st s = top_score st (layer_live st lvl) (-1))
                                   (layer_live st lvl)))"
    using pick_winners_argmax [OF layer_scores(1) [OF Cons.prems]] layer_scores(2) [OF Cons.prems, of lvl]
    by simp
  with Cons layer_live_nonempty layer_winners_nonempty [OF Cons.prems, of lvl] show ?case
    by (auto simp: Let_def pay_fold_def layer_winners_def layer_pot_def simp flip: set_empty)
qed (simp add: pay_fold_def)


section \<open>The rule of a showdown\<close>

text \<open>
  The abstract rule, in sets. The contenders for a layer are the live seats that reached it or, if
  all of those folded, every live seat. Those of them with the best hand share the layer equally,
  and the odd chips go to the lowest seat.
\<close>

definition contenders :: "hand \<Rightarrow> int \<Rightarrow> seat set" where
  "contenders st lvl =
     (let live = {s \<in> set (Seats st). \<not> Folded s}; reached = {s \<in> live. lvl \<le> TotalCommit s}
      in if reached = {} then live else reached)"

definition best_seats :: "hand \<Rightarrow> int \<Rightarrow> nat set" where
  "best_seats st lvl =
     SeatIndex ` {s \<in> contenders st lvl. \<forall>t \<in> contenders st lvl. seat_score st t \<le> seat_score st s}"

definition showdown_share :: "hand \<Rightarrow> nat \<Rightarrow> int \<times> int \<Rightarrow> int" where
  "showdown_share st i l =
     (let W = best_seats st (snd l); k = int (card W)
      in if i \<in> W then layer_pot st l div k + (if i = Min W then layer_pot st l mod k else 0) else 0)"

definition seats_indexed :: "hand \<Rightarrow> bool" where
  "seats_indexed st \<longleftrightarrow> map SeatIndex (Seats st) = [0..<length (Seats st)]"

lemma seats_indexed_nth: "seats_indexed st \<Longrightarrow> i < length (Seats st) \<Longrightarrow> SeatIndex (Seats st ! i) = i"
  unfolding seats_indexed_def by (metis add_0 diff_zero length_map nth_map nth_upt)

lemma seats_indexed_less: "seats_indexed st \<Longrightarrow> s \<in> set (Seats st) \<Longrightarrow> SeatIndex s < length (Seats st)"
  by (metis in_set_conv_nth seats_indexed_nth)

lemma seats_indexed_inj:
  "seats_indexed st \<Longrightarrow> s \<in> set (Seats st) \<Longrightarrow> t \<in> set (Seats st) \<Longrightarrow> SeatIndex s = SeatIndex t \<Longrightarrow> s = t"
  by (metis in_set_conv_nth seats_indexed_nth)

lemma set_layer_live: "set (layer_live st lvl) = contenders st lvl"
  by (auto simp: layer_live_def contenders_def Let_def filter_empty_conv)

lemma set_layer_winners:
  assumes "scorable st"
  shows "set (layer_winners st lvl) = best_seats st lvl"
proof -
  let ?top = "top_score st (layer_live st lvl) (-1)"
  have att: "\<exists>s \<in> contenders st lvl. ?top = seat_score st s"
    using top_score_attained [of st "layer_live st lvl" "-1"] layer_scores(2) [OF assms, of lvl]
    by (simp add: set_layer_live)
  have bound: "seat_score st s \<le> ?top" if "s \<in> contenders st lvl" for s
    using that top_score_bound by (simp flip: set_layer_live)
  have "{s \<in> contenders st lvl. seat_score st s = ?top}
      = {s \<in> contenders st lvl. \<forall>t \<in> contenders st lvl. seat_score st t \<le> seat_score st s}"
    using att bound by (auto intro: antisym)
  then show ?thesis
    by (auto simp: layer_winners_def best_seats_def set_layer_live)
qed

lemma layer_winners_distinct:
  assumes "seats_indexed st"
  shows "distinct (layer_winners st lvl)" "sorted (layer_winners st lvl)"
proof -
  have "distinct (map SeatIndex (Seats st))" using assms by (simp add: seats_indexed_def)
  then have "distinct (map SeatIndex (filter P (filter Q (Seats st))))" for P Q
    by (simp add: distinct_map inj_on_def)
  then show "distinct (layer_winners st lvl)"
    by (simp add: layer_winners_def layer_live_def Let_def del: filter_filter)
qed (simp add: layer_winners_def)

lemma layer_winners_range:
  "seats_indexed st \<Longrightarrow> set (layer_winners st lvl) \<subseteq> {..<length (Seats st)}"
  by (auto simp: layer_winners_def dest!: layer_live_sub seats_indexed_less)

lemma payout_of_split:
  assumes "ws \<noteq> []" "distinct ws" "sorted ws"
  shows "payout_of (split_pot ws pot won) i = payout_of won i
     + (let k = int (card (set ws))
        in if i \<in> set ws then pot div k + (if i = Min (set ws) then pot mod k else 0) else 0)"
proof (cases "i \<in> set ws")
  case True
  have "length (filter (\<lambda>w. w = i) ws) = 1"
  proof -
    have "set (filter (\<lambda>w. w = i) ws) = {i}" using True by auto
    with assms(2) show ?thesis
      by (metis card_1_singleton_iff One_nat_def distinct_card distinct_filter)
  qed
  moreover have "hd ws = Min (set ws)"
    using assms by (cases ws) (auto intro: Min_eqI [symmetric])
  moreover have "pot mod int (length ws) = pot - pot div int (length ws) * int (length ws)"
    by (simp add: minus_div_mult_eq_mod)
  moreover have "0 \<le> pot mod int (length ws)" using assms(1) by simp
  ultimately show ?thesis using True
    by (auto simp: split_pot_def Let_def payout_of_fold_award distinct_card [OF assms(2)])
next
  case False
  then show ?thesis using split_pot_other [OF assms(1)] by simp
qed

lemma pay_fold_shares:
  assumes "scorable st" "seats_indexed st"
  shows "payout_of (pay_fold st ls won) i
       = payout_of won i + (\<Sum>l\<leftarrow>ls. showdown_share st i l)"
proof (induction ls arbitrary: won)
  case (Cons l ls)
  have "payout_of (split_pot (layer_winners st (snd l)) (layer_pot st l) won) i
      = payout_of won i + showdown_share st i l"
    using payout_of_split [OF layer_winners_nonempty [OF assms(1)]
        layer_winners_distinct [OF assms(2)], of "snd l" "layer_pot st l" won i]
    by (simp add: set_layer_winners [OF assms(1)] showdown_share_def Let_def)
  with Cons show ?case by (simp add: pay_fold_def)
qed (simp add: pay_fold_def)

text \<open>Whatever the cards, a payment that does not fail pays exactly its layers, to seats that exist.\<close>

lemma pick_winners_sub:
  "pick_winners st live best ws = Inr ws' \<Longrightarrow> set ws' \<subseteq> set ws \<union> SeatIndex ` set live"
  by (induction st live best ws rule: pick_winners.induct)
    (fastforce split: sum.splits if_splits)+

lemma pay_layers_total:
  assumes "seats_indexed st" "pay_layers st levels prev won = Inr won'"
  shows "paid_total (length (Seats st)) won'
       = paid_total (length (Seats st)) won + sum_list (map (layer_pot st) (layers levels prev))
     \<and> dom won' \<subseteq> dom won \<union> {..<length (Seats st)}"
  using assms(2)
proof (induction levels arbitrary: prev won)
  case (Cons lvl levels)
  from Cons.prems obtain ws where ws: "pick_winners st (layer_live st lvl) (-1) [] = Inr ws" "ws \<noteq> []"
    and rest: "pay_layers st levels lvl (split_pot (sort ws) (layer_pot st (prev, lvl)) won) = Inr won'"
    by (auto simp: Let_def layer_pot_def split: if_splits sum.splits)
  have range: "set (sort ws) \<subseteq> {..<length (Seats st)}"
    using pick_winners_sub [OF ws(1)] seats_indexed_less [OF assms(1)] layer_live_sub by fastforce
  have ne: "sort ws \<noteq> []" using ws(2) by (simp flip: set_empty)
  show ?case
    using Cons.IH [OF rest] split_pot_total [OF ne range] dom_split_pot [OF ne] range by auto
qed simp

lemma pay_layers_mono:
  assumes "sorted_wrt (<) (prev # levels)" "pay_layers st levels prev won = Inr won'"
  shows "payout_of won i \<le> payout_of won' i"
  using assms
proof (induction levels arbitrary: prev won)
  case (Cons lvl levels)
  from Cons.prems(2) obtain ws where
    "pay_layers st levels lvl (split_pot (sort ws) (layer_pot st (prev, lvl)) won) = Inr won'"
    by (auto simp: Let_def layer_pot_def split: if_splits sum.splits)
  from Cons.IH [OF _ this] Cons.prems(1)
  have "payout_of (split_pot (sort ws) (layer_pot st (prev, lvl)) won) i \<le> payout_of won' i"
    by simp
  moreover have "0 \<le> layer_pot st (prev, lvl)" using Cons.prems(1) by (simp add: layer_pot_def)
  ultimately show ?case using split_pot_mono order_trans by blast
qed simp

lemma layer_pot_nonneg:
  "l \<in> set (layers (commit_levels st) 0) \<Longrightarrow> 0 \<le> layer_pot st l"
  using layers_bounds(2) [OF commit_levels_sorted, of l st] by (simp add: layer_pot_def)

lemma showdown_share_bounds:
  assumes "0 \<le> layer_pot st l" "finite (best_seats st (snd l))"
  shows "0 \<le> showdown_share st i l" "showdown_share st i l \<le> layer_pot st l"
    "i \<notin> best_seats st (snd l) \<Longrightarrow> showdown_share st i l = 0"
proof -
  let ?k = "int (card (best_seats st (snd l)))" and ?p = "layer_pot st l"
  have *: "0 \<le> ?p div ?k" "0 \<le> ?p mod ?k" "?p div ?k + ?p mod ?k \<le> ?p" "?p div ?k \<le> ?p" if "0 < ?k"
  proof -
    show nn: "0 \<le> ?p div ?k" "0 \<le> ?p mod ?k"
      using assms(1) that by (simp_all add: pos_imp_zdiv_nonneg_iff del: of_nat_0_less_iff)
    have "?p div ?k * 1 \<le> ?p div ?k * ?k" using nn that by (intro mult_left_mono) linarith+
    then show sum: "?p div ?k + ?p mod ?k \<le> ?p" using div_mult_mod_eq [of ?p ?k] by linarith
    show "?p div ?k \<le> ?p" using sum nn by linarith
  qed
  have "i \<in> best_seats st (snd l) \<Longrightarrow> 0 < ?k" using assms(2) by (auto simp: card_gt_0_iff)
  then show "0 \<le> showdown_share st i l" "showdown_share st i l \<le> ?p"
    using * assms(1) unfolding showdown_share_def Let_def by (auto split: if_splits)
qed (simp add: showdown_share_def)

lemma finite_best_seats: "finite (best_seats st lvl)"
  by (auto simp: best_seats_def contenders_def Let_def)

text \<open>What \<open>scoreAndPay\<close> does, in terms of the rule.\<close>

definition showdown_won :: "hand \<Rightarrow> nat \<rightharpoonup> int" where
  "showdown_won st = pay_fold st (layers (commit_levels st) 0) Map.empty"

lemma scoreAndPay_eq:
  "scorable st \<Longrightarrow> scoreAndPay st =
     (None, st\<lparr>Seats := map (receive (showdown_won st)) (Seats st),
               Payouts := Payouts st ++ showdown_won st\<rparr>)"
  by (simp add: scoreAndPay_def pay_layers_eq showdown_won_def)

lemma showdown_won_shares:
  assumes "scorable st" "seats_indexed st"
  shows "payout_of (showdown_won st) i = (\<Sum>l\<leftarrow>layers (commit_levels st) 0. showdown_share st i l)"
  using pay_fold_shares [OF assms] by (simp add: showdown_won_def)

lemma Stack_receive: "Stack (receive won s) = Stack s + payout_of won (SeatIndex s)"
  by (simp add: receive_def payout_of_def split: option.splits)

lemma receive_simps [simp]:
  "SeatIndex (receive won s) = SeatIndex s" "TotalCommit (receive won s) = TotalCommit s"
  "StreetCommit (receive won s) = StreetCommit s" "Folded (receive won s) = Folded s"
  by (simp_all add: receive_def split: option.splits)

lemma sum_Stack_receive:
  assumes "seats_indexed st"
  shows "sum_list (map Stack (map (receive won) (Seats st)))
       = sum_list (map Stack (Seats st)) + paid_total (length (Seats st)) won"
proof -
  have "map (\<lambda>s. payout_of won (SeatIndex s)) (Seats st) = map (payout_of won) (map SeatIndex (Seats st))"
    by simp
  also have "\<dots> = map (payout_of won) [0..<length (Seats st)]"
    using assms by (simp only: seats_indexed_def)
  finally have "map (\<lambda>s. payout_of won (SeatIndex s)) (Seats st) = \<dots>" .
  then show ?thesis by (simp add: comp_def Stack_receive sum_list_addf paid_total_def)
qed

lemma showdown_won_total:
  assumes "scorable st" "seats_indexed st" "\<And>s. s \<in> set (Seats st) \<Longrightarrow> 0 \<le> TotalCommit s"
  shows "paid_total (length (Seats st)) (showdown_won st) = sum_list (map TotalCommit (Seats st))"
    and "dom (showdown_won st) \<subseteq> {..<length (Seats st)}"
  using pay_layers_total [OF assms(2) pay_layers_eq [OF assms(1)], of "commit_levels st" 0 Map.empty]
    layer_pots_total [OF assms(3)]
  by (simp_all add: showdown_won_def)

lemma showdown_won_nonneg:
  assumes "scorable st" "seats_indexed st"
  shows "0 \<le> payout_of (showdown_won st) i"
  unfolding showdown_won_shares [OF assms]
  using showdown_share_bounds(1) [OF layer_pot_nonneg finite_best_seats] by (auto intro!: sum_list_nonneg)



section \<open>Totals\<close>

text \<open>The chips of a hand: what the seats hold and what is in the middle.\<close>

definition chips :: "hand \<Rightarrow> int" where
  "chips st = sum_list (map Stack (Seats st)) + Pot st"

lemma scoreAndPay_cases [consumes 3, case_names fails pays]:
  assumes "seats_indexed st" "Payouts st = Map.empty" "\<forall>s \<in> set (Seats st). 0 \<le> TotalCommit s"
  obtains e where "scoreAndPay st = (Some e, st)"
  | won where
      "scoreAndPay st = (None, st\<lparr>Seats := map (receive won) (Seats st), Payouts := won\<rparr>)"
      "paid_total (length (Seats st)) won = sum_list (map TotalCommit (Seats st))"
      "dom won \<subseteq> {..<length (Seats st)}" "\<And>i. 0 \<le> payout_of won i"
proof (cases "pay_layers st (commit_levels st) 0 Map.empty")
  case (Inl e)
  then show ?thesis by (intro that(1)) (simp add: scoreAndPay_def)
next
  case (Inr won)
  show ?thesis
  proof (rule that(2))
    show "scoreAndPay st = (None, st\<lparr>Seats := map (receive won) (Seats st), Payouts := won\<rparr>)"
      by (simp add: scoreAndPay_def Inr assms(2))
    show "paid_total (length (Seats st)) won = sum_list (map TotalCommit (Seats st))"
      "dom won \<subseteq> {..<length (Seats st)}"
      using pay_layers_total [OF assms(1) Inr] layer_pots_total [of st] assms(3) by simp_all
    show "0 \<le> payout_of won i" for i
      using pay_layers_mono [OF commit_levels_sorted Inr, of i] by simp
  qed
qed

lemma scoreAndPay_chips:
  assumes "seats_indexed st" "Payouts st = Map.empty" "\<forall>s \<in> set (Seats st). 0 \<le> TotalCommit s"
  shows "chips (snd (scoreAndPay st)) = chips st"
    and "fst (scoreAndPay st) = None \<Longrightarrow> Pot (snd (scoreAndPay st)) = 0"
proof -
  have *: "chips (snd (scoreAndPay st)) = chips st
      \<and> (fst (scoreAndPay st) = None \<longrightarrow> Pot (snd (scoreAndPay st)) = 0)"
    using assms
  proof (cases rule: scoreAndPay_cases)
    case (pays won)
    then show ?thesis
      using sum_Stack_receive [OF assms(1), of won]
      by (simp add: chips_def Pot_def comp_def assms(2))
  qed simp
  from * show "chips (snd (scoreAndPay st)) = chips st"
    and "fst (scoreAndPay st) = None \<Longrightarrow> Pot (snd (scoreAndPay st)) = 0" by auto
qed

lemma scorable_pays: "scorable st \<Longrightarrow> fst (scoreAndPay st) = None"
  by (simp add: scoreAndPay_eq)

end
