(* ===== verification/Engine_Props.thy ===== *)
theory Engine_Props
  imports Engine_Pay
begin

text \<open>
  The invariant of a hand, that every operation of the engine keeps it, and that every operation
  conserves the chips. A hand is a \<open>machine\<close> whose events are the calls a table makes on it.
\<close>

section \<open>The invariant\<close>

definition seat_ok :: "seat \<Rightarrow> bool" where
  "seat_ok s \<longleftrightarrow> 0 \<le> Stack s \<and> 0 \<le> StreetCommit s \<and> StreetCommit s \<le> TotalCommit s"

definition table_ok :: "hand \<Rightarrow> bool" where
  "table_ok st \<longleftrightarrow> MinSeats \<le> length (Seats st) \<and> length (Seats st) \<le> MaxSeats \<and> seats_indexed st
     \<and> (\<forall>s \<in> set (Seats st). seat_ok s) \<and> 0 \<le> Button st \<and> Button st < int (length (Seats st))
     \<and> 0 < SmallBlind st \<and> SmallBlind st \<le> BigBlind st"

text \<open>A seat during the betting: out of chips exactly when all-in, never above the bet to match, and
  level with it once it has acted, unless it folded or is all-in.\<close>

definition seat_betting :: "int \<Rightarrow> seat \<Rightarrow> bool" where
  "seat_betting bet s \<longleftrightarrow> (AllIn s \<longleftrightarrow> Stack s = 0) \<and> StreetCommit s \<le> bet
     \<and> (able s \<and> ActedThisStreet s \<longrightarrow> StreetCommit s = bet)"

fun board_len :: "street \<Rightarrow> nat" where
  "board_len Preflop = 0"
| "board_len Flop = 3"
| "board_len Turn = 4"
| "board_len River = 5"
| "board_len Complete = 5"

definition betting_ok :: "hand \<Rightarrow> bool" where
  "betting_ok st \<longleftrightarrow> \<not> Done st \<and> Payouts st = Map.empty \<and> Street st \<noteq> Complete
     \<and> BigBlind st \<le> MinRaise st \<and> 0 \<le> CurrentBet st
     \<and> (\<forall>s \<in> set (Seats st). seat_betting (CurrentBet st) s)
     \<and> length (Board st) = board_len (Street st)
     \<and> (\<not> deferReveal st \<longrightarrow> deckPos st + (5 - board_len (Street st)) \<le> length (deck st))"

definition turn_ok :: "hand \<Rightarrow> bool" where
  "turn_ok st \<longleftrightarrow> ToAct st = -1
     \<or> (0 \<le> ToAct st \<and> ToAct st < int (length (Seats st)) \<and> able (Seats st ! nat (ToAct st)))"

definition paused_ok :: "hand \<Rightarrow> bool" where
  "paused_ok st \<longleftrightarrow>
     (AwaitingBoard st \<longrightarrow> ToAct st = -1 \<and> \<not> AwaitingShowdown st \<and> deferReveal st \<and> Street st \<noteq> River
        \<and> (PendingBoardCount st, pendingStreet st) = street_step (Street st) \<and> CurrentBet st = 0)
   \<and> (AwaitingShowdown st \<longrightarrow> ToAct st = -1 \<and> deferReveal st \<and> Street st = River)"

definition wf :: "hand \<Rightarrow> bool" where
  "wf st \<longleftrightarrow> table_ok st \<and> dom (Payouts st) \<subseteq> {..<length (Seats st)} \<and> (\<forall>i. 0 \<le> payout_of (Payouts st) i)
     \<and> (if Done st then ToAct st = -1 \<and> Street st = Complete \<and> \<not> AwaitingBoard st \<and> \<not> AwaitingShowdown st
          \<and> (Payouts st = Map.empty \<or> Pot st = 0)
        else betting_ok st \<and> 2 \<le> liveCount st \<and> turn_ok st \<and> paused_ok st)"

text \<open>A hand between two operations of \<open>Apply\<close>: \<open>ToAct\<close> may point at a seat that just folded.\<close>

definition midway :: "hand \<Rightarrow> bool" where
  "midway st \<longleftrightarrow> table_ok st \<and> betting_ok st \<and> 1 \<le> liveCount st
     \<and> \<not> AwaitingBoard st \<and> \<not> AwaitingShowdown st"

text \<open>A hand somebody can move: it is over, it waits for cards, or a seat is to act.\<close>

definition moving :: "hand \<Rightarrow> bool" where
  "moving st \<longleftrightarrow> Done st \<or> AwaitingBoard st \<or> AwaitingShowdown st \<or> 0 \<le> ToAct st"

text \<open>What the internal steps promise to the operation that calls them.\<close>

definition delivers :: "hand \<Rightarrow> (engine_error, hand) outcome \<Rightarrow> bool" where
  "delivers st r \<longleftrightarrow> wf (snd r) \<and> chips (snd r) = chips st \<and> moving (snd r)
     \<and> (fst r \<noteq> None \<longrightarrow> Done (snd r) \<and> \<not> scorable (snd r))
     \<and> (fst r = None \<longrightarrow> Done (snd r) \<longrightarrow> Pot (snd r) = 0)"

lemma deliversI:
  "wf st' \<Longrightarrow> chips st' = chips st \<Longrightarrow> moving st' \<Longrightarrow> (e \<noteq> None \<Longrightarrow> Done st' \<and> \<not> scorable st') \<Longrightarrow>
   (e = None \<Longrightarrow> Done st' \<Longrightarrow> Pot st' = 0) \<Longrightarrow> delivers st (e, st')"
  by (auto simp: delivers_def)

section \<open>Settlement\<close>

lemma scorable_finish [simp]: "scorable (finish st) = scorable st"
  by (simp add: scorable_def finish_def seat_result_def)

lemma chips_cong: "Seats st' = Seats st \<Longrightarrow> Payouts st' = Payouts st \<Longrightarrow> chips st' = chips st"
  by (simp add: chips_def Pot_def)

lemma table_ok_cong:
  "Seats st' = Seats st \<Longrightarrow> Button st' = Button st \<Longrightarrow> SmallBlind st' = SmallBlind st \<Longrightarrow>
   BigBlind st' = BigBlind st \<Longrightarrow> table_ok st' = table_ok st"
  by (simp add: table_ok_def seats_indexed_def)

lemma Seats_set_seat [simp]: "Seats (set_seat st i s) = (Seats st)[i := s]"
  by (simp add: set_seat_def)

lemma table_ok_set_seat:
  assumes "table_ok st" "seat_ok s" "i < length (Seats st)" "SeatIndex s = SeatIndex (Seats st ! i)"
  shows "table_ok (set_seat st i s)"
  using assms map_nth_update_same [of SeatIndex s "Seats st" i]
  by (auto simp: table_ok_def set_seat_def seats_indexed_def
      dest!: set_update_subset_insert [THEN subsetD])

lemma table_ok_nth:
  assumes "table_ok st" "i < length (Seats st)"
  shows "seat_ok (Seats st ! i)" "SeatIndex (Seats st ! i) = i" "Seats st ! i \<in> set (Seats st)"
  using assms seats_indexed_nth nth_mem by (auto simp: table_ok_def)

lemma commit_nonneg: "table_ok st \<Longrightarrow> \<forall>s \<in> set (Seats st). 0 \<le> TotalCommit s"
  by (force simp: table_ok_def seat_ok_def)

lemma seat_ok_receive:
  "seat_ok s \<Longrightarrow> 0 \<le> payout_of won (SeatIndex s) \<Longrightarrow> seat_ok (receive won s)"
  by (simp add: seat_ok_def Stack_receive)

lemma score_delivers:
  assumes t: "table_ok st" and p: "Payouts st = Map.empty"
    and d: "Done st" "ToAct st = -1" "Street st = Complete" "\<not> AwaitingBoard st" "\<not> AwaitingShowdown st"
  shows "delivers st (scoreAndPay st)"
proof -
  have ix: "seats_indexed st" using t by (simp add: table_ok_def)
  from ix p commit_nonneg [OF t] show ?thesis
  proof (cases rule: scoreAndPay_cases)
    case (fails e)
    then have "\<not> scorable st" using scorable_pays by force
    with fails assms show ?thesis by (simp add: delivers_def wf_def moving_def)
  next
    case (pays won)
    let ?st = "st\<lparr>Seats := map (receive won) (Seats st), Payouts := won\<rparr>"
    have "table_ok ?st"
      using t pays(4) by (auto simp: table_ok_def seats_indexed_def comp_def intro: seat_ok_receive)
    moreover have pot: "chips ?st = chips st" "Pot ?st = 0"
      using scoreAndPay_chips [OF ix p commit_nonneg [OF t]] pays(1) by simp_all
    ultimately have "wf ?st" using d pays(3,4) by (simp add: wf_def)
    note this pot
    then show ?thesis using d pays(1) by (simp add: delivers_def moving_def)
  qed
qed

lemma live_single:
  assumes "liveCount st = 1"
  obtains w where "filter (\<lambda>s. \<not> Folded s) (Seats st) = [w]" "w \<in> set (Seats st)"
proof -
  obtain w where w: "filter (\<lambda>s. \<not> Folded s) (Seats st) = [w]"
    using assms by (auto simp: liveCount_def length_Suc_conv)
  moreover from w have "w \<in> set (Seats st)" by (metis filter_is_subset list.set_intros(1) subsetD)
  ultimately show ?thesis using that by blast
qed

lemma uncontested_delivers:
  assumes m: "midway st" and one: "liveCount st = 1"
  shows "delivers st (settle st)"
proof -
  obtain w where w: "filter (\<lambda>s. \<not> Folded s) (Seats st) = [w]" "w \<in> set (Seats st)"
    using live_single [OF one] .
  let ?n = "length (Seats st)" and ?i = "SeatIndex w" and ?won = "sum_list (map TotalCommit (Seats st))"
  let ?s = "Seats st ! ?i"
  let ?st = "finish (st\<lparr>Seats := (Seats st)[?i := ?s\<lparr>Stack := Stack ?s + ?won\<rparr>],
                        Payouts := (Payouts st)(?i \<mapsto> ?won)\<rparr>)"
  have t: "table_ok st" and p: "Payouts st = Map.empty" and aw: "\<not> AwaitingBoard st" "\<not> AwaitingShowdown st"
    using m by (simp_all add: midway_def betting_ok_def)
  have i: "?i < ?n" using t w(2) by (simp add: table_ok_def seats_indexed_less)
  have won: "0 \<le> ?won" using commit_nonneg [OF t] by (intro sum_list_nonneg) auto
  have "table_ok (set_seat st ?i (?s\<lparr>Stack := Stack ?s + ?won\<rparr>))"
    using table_ok_nth(1) [OF t i] won by (intro table_ok_set_seat [OF t]) (simp_all add: i seat_ok_def)
  then have "table_ok ?st"
    by (rule table_ok_cong [THEN iffD2, rotated -1]) (simp_all add: finish_def set_seat_def)
  moreover have pot: "chips ?st = chips st" "Pot ?st = 0"
    using i by (simp_all add: chips_def Pot_def finish_def p paid_total_upd sum_list_map_update)
  moreover have "dom (Payouts ?st) \<subseteq> {..<length (Seats ?st)}" "\<And>k. 0 \<le> payout_of (Payouts ?st) k"
    using i won by (simp_all add: finish_def p)
  ultimately have "wf ?st" using aw pot(2) by (simp add: wf_def) (simp add: finish_def)
  with pot have "wf ?st \<and> chips ?st = chips st \<and> Pot ?st = 0" by simp
  moreover have "settle st = (None, ?st)" by (simp add: settle_def w(1) Let_def)
  ultimately show ?thesis by (simp add: delivers_def moving_def finish_def)
qed

lemma settle_contested:
  assumes "liveCount st \<noteq> 1"
  shows "settle st = (if deferReveal st then (None, st\<lparr>AwaitingShowdown := True, ToAct := -1\<rparr>)
                      else scoreAndPay (finish st))"
  using assms by (auto simp: settle_def liveCount_def split: list.split)

lemma settle_delivers:
  assumes m: "midway st" and "liveCount st \<noteq> 1 \<Longrightarrow> Street st = River"
  shows "delivers st (settle st)"
proof (cases "liveCount st = 1")
  case True
  with m show ?thesis by (rule uncontested_delivers)
next
  case False
  with m have two: "2 \<le> liveCount st" by (simp add: midway_def)
  from False assms(2) have river: "Street st = River" by simp
  show ?thesis
  proof (cases "deferReveal st")
    case True
    let ?st = "st\<lparr>AwaitingShowdown := True, ToAct := -1\<rparr>"
    have "wf ?st" using m two True river
      by (simp add: wf_def midway_def betting_ok_def turn_ok_def paused_ok_def table_ok_def
          seats_indexed_def liveCount_def)
    moreover have "chips ?st = chips st" by (rule chips_cong) simp_all
    moreover have "\<not> Done ?st" using m by (simp add: midway_def betting_ok_def)
    ultimately show ?thesis using settle_contested [OF False] True by (simp add: delivers_def moving_def)
  next
    case d: False
    have t: "table_ok (finish st)"
      using m table_ok_cong [of "finish st" st] by (simp add: midway_def finish_def)
    have "delivers (finish st) (scoreAndPay (finish st))"
      by (rule score_delivers [OF t]) (use m in \<open>simp_all add: finish_def midway_def betting_ok_def\<close>)
    moreover have "chips (finish st) = chips st" by (rule chips_cong) (simp_all add: finish_def)
    ultimately show ?thesis using settle_contested [OF False] d by (simp add: delivers_def)
  qed
qed


section \<open>Streets\<close>

lemma nextAbleToAct_cases:
  assumes "Seats st \<noteq> []"
  shows "nextAbleToAct st from = -1 \<and> ableToActCount st = 0
    \<or> 0 \<le> nextAbleToAct st from \<and> nextAbleToAct st from < int (length (Seats st))
        \<and> able (Seats st ! nat (nextAbleToAct st from))"
proof -
  let ?n = "length (Seats st)" and ?at = "\<lambda>k. nat ((from + int k) mod int (length (Seats st)))"
  have n: "0 < int ?n" using assms by simp
  show ?thesis
  proof (cases "find (\<lambda>k. able (Seats st ! ?at k)) [1..<Suc ?n]")
    case None
    have "\<not> able (Seats st ! i)" if "i < ?n" for i
    proof -
      define k where "k = nat ((int i - from - 1) mod int ?n) + 1"
      have kn: "k \<in> set [1..<Suc ?n]"
        using n pos_mod_bound [OF n, of "int i - from - 1"] pos_mod_sign [OF n, of "int i - from - 1"]
        by (simp add: k_def del: pos_mod_bound pos_mod_sign upt_Suc)
      have "(from + int k) mod int ?n = (from + ((int i - from - 1) mod int ?n + 1)) mod int ?n"
        using pos_mod_sign [OF n, of "int i - from - 1"] by (simp add: k_def add.commute del: pos_mod_sign)
      also have "\<dots> = ((from + 1) + (int i - from - 1) mod int ?n) mod int ?n" by (simp only: ac_simps)
      also have "\<dots> = ((from + 1) + (int i - from - 1)) mod int ?n" by (rule mod_add_right_eq)
      also have "\<dots> = int i" using that by simp
      finally have "?at k = i" by simp
      with None kn show ?thesis by (auto simp: find_None_iff simp del: set_upt)
    qed
    then have "ableToActCount st = 0"
      by (auto simp: ableToActCount_def filter_empty_conv in_set_conv_nth)
    with None show ?thesis by (simp add: nextAbleToAct_def Let_def del: upt_Suc)
  next
    case (Some k)
    then have "able (Seats st ! ?at k)" by (auto simp: find_Some_iff)
    moreover have "int (?at k) = (from + int k) mod int ?n" using n by simp
    ultimately show ?thesis using Some n
      by (simp add: nextAbleToAct_def Let_def del: upt_Suc)
  qed
qed

lemma clear_street_simps [simp]:
  "length (Seats (clear_street st)) = length (Seats st)" "Street (clear_street st) = Street st"
  "deferReveal (clear_street st) = deferReveal st" "deckPos (clear_street st) = deckPos st"
  "deck (clear_street st) = deck st" "Board (clear_street st) = Board st" "Button (clear_street st) = Button st"
  "liveCount (clear_street st) = liveCount st" "Done (clear_street st) = Done st"
  "AwaitingBoard (clear_street st) = AwaitingBoard st" "ToAct (clear_street st) = ToAct st"
  "AwaitingShowdown (clear_street st) = AwaitingShowdown st" "CurrentBet (clear_street st) = 0"
  by (simp_all add: clear_street_def liveCount_def filter_map comp_def)

lemma chips_clear_street [simp]: "chips (clear_street st) = chips st"
  by (simp add: chips_def Pot_def clear_street_def comp_def)

lemma midway_clear_street:
  assumes "midway st"
  shows "midway (clear_street st)"
proof -
  have "table_ok (clear_street st)"
    using assms by (fastforce simp: midway_def table_ok_def clear_street_def seats_indexed_def comp_def seat_ok_def)
  moreover have "betting_ok (clear_street st)"
    using assms by (auto simp: midway_def betting_ok_def clear_street_def seat_betting_def able_def)
  ultimately show ?thesis using assms by (simp add: midway_def)
qed

text \<open>Dealing the next street's cards, from the deck or from the deal protocol.\<close>

definition deals :: "hand \<Rightarrow> hand \<Rightarrow> bool" where
  "deals st st' \<longleftrightarrow> Seats st' = Seats st \<and> Payouts st' = Payouts st \<and> Button st' = Button st
     \<and> SmallBlind st' = SmallBlind st \<and> BigBlind st' = BigBlind st \<and> CurrentBet st' = CurrentBet st
     \<and> MinRaise st' = MinRaise st \<and> Done st' = Done st \<and> deck st' = deck st \<and> deferReveal st' = deferReveal st
     \<and> \<not> AwaitingBoard st' \<and> \<not> AwaitingShowdown st' \<and> Street st \<noteq> River
     \<and> Street st' = snd (street_step (Street st))
     \<and> length (Board st') = length (Board st) + fst (street_step (Street st))
     \<and> (deferReveal st \<or> deckPos st' = deckPos st + fst (street_step (Street st)))"

lemma deals_midway:
  assumes d: "deals st st'" and m: "table_ok st" "betting_ok st" "1 \<le> liveCount st"
  shows "midway st'"
proof -
  have "table_ok st'" using m(1) d table_ok_cong [of st' st] by (simp add: deals_def)
  moreover have "betting_ok st'"
    using d m(2) by (cases "Street st") (auto simp: betting_ok_def deals_def)
  ultimately show ?thesis using d m(3) by (simp add: midway_def deals_def liveCount_def)
qed


lemma delivers_chips: "chips st = chips st' \<Longrightarrow> delivers st r = delivers st' r"
  by (simp add: delivers_def)

lemma midway_turn:
  assumes "midway st" "2 \<le> liveCount st" "0 \<le> i" "i < int (length (Seats st))" "able (Seats st ! nat i)"
  shows "delivers st (None, st\<lparr>ToAct := i\<rparr>)"
proof -
  have "wf (st\<lparr>ToAct := i\<rparr>)"
    using assms by (simp add: midway_def wf_def betting_ok_def turn_ok_def paused_ok_def table_ok_def
        seats_indexed_def liveCount_def)
  moreover have "chips (st\<lparr>ToAct := i\<rparr>) = chips st" by (rule chips_cong) simp_all
  moreover have "\<not> Done st" using assms(1) by (simp add: midway_def betting_ok_def)
  ultimately show ?thesis using assms(3) by (simp add: delivers_def moving_def)
qed

lemma midway_pause:
  assumes m: "midway st" "2 \<le> liveCount st" and s: "street_step (Street st) = (need, nxt)" "Street st \<noteq> River"
    and d: "deferReveal st" "CurrentBet st = 0"
  shows "delivers st (None, st\<lparr>pendingStreet := nxt, PendingBoardCount := need,
                               AwaitingBoard := True, ToAct := -1\<rparr>)" (is "delivers st (None, ?st)")
proof -
  have "table_ok ?st" "betting_ok ?st" "liveCount ?st = liveCount st"
    using m by (simp_all add: midway_def betting_ok_def table_ok_def seats_indexed_def liveCount_def)
  then have "wf ?st" "\<not> Done ?st"
    using m s d by (simp_all add: wf_def midway_def turn_ok_def paused_ok_def betting_ok_def)
  moreover have "chips ?st = chips st" by (rule chips_cong) simp_all
  ultimately show ?thesis by (simp add: delivers_def moving_def)
qed

lemma streets_deliver:
  shows "midway st \<Longrightarrow> 2 \<le> liveCount st \<Longrightarrow> delivers st (nextStreet st)"
    and "midway st' \<Longrightarrow> 2 \<le> liveCount st' \<Longrightarrow> delivers st' (finishStreetTransition st')"
proof (induction st and st' rule: nextStreet_finishStreetTransition.induct)
  case (1 st)
  show ?case
  proof (cases "Street st = River")
    case True
    with 1 settle_delivers [of st] show ?thesis by (simp add: nextStreet.simps [of st])
  next
    case nr: False
    obtain need nxt where s: "street_step (Street st) = (need, nxt)" by fastforce
    let ?c = "clear_street st"
    have c: "midway ?c" "2 \<le> liveCount ?c" using 1 midway_clear_street by simp_all
    show ?thesis
    proof (cases "deferReveal st")
      case True
      with midway_pause [OF c, of need nxt] s nr delivers_chips [of ?c st] show ?thesis
        by (simp add: nextStreet.simps [of st] Let_def)
    next
      case nd: False
      let ?d = "?c\<lparr>Board := Board ?c @ take need (drop (deckPos ?c) (deck ?c)),
                       deckPos := deckPos ?c + need, Street := nxt\<rparr>"
      have room: "deckPos st + need \<le> length (deck st)"
        using 1(2) nd s nr by (cases "Street st") (auto simp: midway_def betting_ok_def)
      have "deals ?c ?d" using room s nr 1(2) nd by (simp add: deals_def midway_def)
      then have "midway ?d" by (rule deals_midway) (use c in \<open>simp_all add: midway_def\<close>)
      moreover have "liveCount ?d = liveCount ?c" by (simp only: liveCount_def) simp
      ultimately have "delivers ?d (finishStreetTransition ?d)"
        using 1(1) [OF nr refl s [symmetric] refl] nd room c(2) by simp
      moreover have "chips ?d = chips st"
        using chips_cong [of ?d ?c] by simp
      ultimately show ?thesis using nr s nd room delivers_chips [of ?d st]
        by (simp add: nextStreet.simps [of st] Let_def)
    qed
  qed
next
  case (2 st)
  have ne: "Seats st \<noteq> []" using 2(3) by (auto simp: midway_def table_ok_def MinSeats_def)
  show ?case
  proof (cases "ableToActCount st \<le> 1")
    case True
    then have "finishStreetTransition st = (if Street st \<noteq> River then nextStreet st else settle st)"
      by (simp add: finishStreetTransition.simps [of st])
    then show ?thesis using 2(1) [OF True _ 2(3,4)] settle_delivers [OF 2(3)] by simp
  next
    case False
    with nextAbleToAct_cases [OF ne, of "Button st"]
    have nx: "0 \<le> nextAbleToAct st (Button st)" "nextAbleToAct st (Button st) < int (length (Seats st))"
      "able (Seats st ! nat (nextAbleToAct st (Button st)))" by auto
    have "finishStreetTransition st = (None, st\<lparr>ToAct := nextAbleToAct st (Button st)\<rparr>)"
      using False nx(1) by (simp add: finishStreetTransition.simps [of st])
    then show ?thesis using midway_turn [OF 2(3,4) nx] by simp
  qed
qed


section \<open>Moves\<close>

lemma advance_delivers:
  assumes "midway st"
  shows "delivers st (advance st)"
proof (cases "liveCount st = 1")
  case True
  with assms show ?thesis by (simp add: advance_def uncontested_delivers)
next
  case False
  with assms have two: "2 \<le> liveCount st" by (simp add: midway_def)
  have ne: "Seats st \<noteq> []" using assms by (auto simp: midway_def table_ok_def MinSeats_def)
  show ?thesis
    using False nextAbleToAct_cases [OF ne, of "ToAct st"] streets_deliver(1) [OF assms two]
      midway_turn [OF assms two, of "nextAbleToAct st (ToAct st)"]
    by (auto simp: advance_def)
qed

lemma commit_simps [simp]:
  "Stack (commit s amt) = Stack s - min amt (Stack s)"
  "StreetCommit (commit s amt) = StreetCommit s + min amt (Stack s)"
  "TotalCommit (commit s amt) = TotalCommit s + min amt (Stack s)"
  "SeatIndex (commit s amt) = SeatIndex s" "Folded (commit s amt) = Folded s" "Hole (commit s amt) = Hole s"
  "ActedThisStreet (commit s amt) = ActedThisStreet s"
  "AllIn (commit s amt) \<longleftrightarrow> AllIn s \<or> Stack s \<le> amt"
  by (auto simp: commit_def Let_def)

lemma seat_ok_commit: "seat_ok s \<Longrightarrow> 0 \<le> amt \<Longrightarrow> seat_ok (commit s amt)"
  by (auto simp: seat_ok_def)

lemma length_reopen [simp]: "length (reopen i ss) = length ss"
  by (simp add: reopen_def)

lemma nth_reopen [simp]:
  "k < length ss \<Longrightarrow> reopen i ss ! k =
     (if k \<noteq> i \<and> able (ss ! k) then (ss ! k)\<lparr>ActedThisStreet := False\<rparr> else ss ! k)"
  by (simp add: reopen_def)

lemma map_reopen:
  assumes "\<And>s b. f (s\<lparr>ActedThisStreet := b\<rparr>) = f s"
  shows "map f (reopen i ss) = map f ss"
  using assms by (intro nth_equalityI) simp_all

text \<open>
  The move itself, as a change of one seat: what \<open>apply_kind\<close> and the write of
  \<open>ActedThisStreet\<close> leave behind, for each accepted action.
\<close>

definition moved :: "hand \<Rightarrow> nat \<Rightarrow> seat \<Rightarrow> hand \<Rightarrow> bool" where
  "moved st i s st' \<longleftrightarrow> i < length (Seats st) \<and> ActedThisStreet s \<and> seat_ok s
     \<and> SeatIndex s = SeatIndex (Seats st ! i)
     \<and> Stack s + TotalCommit s = Stack (Seats st ! i) + TotalCommit (Seats st ! i)
     \<and> seat_betting (CurrentBet st') s \<and> CurrentBet st \<le> CurrentBet st' \<and> MinRaise st \<le> MinRaise st'
     \<and> st' = st\<lparr>CurrentBet := CurrentBet st', MinRaise := MinRaise st',
                Seats := (if CurrentBet st < CurrentBet st' then reopen i ((Seats st)[i := s])
                          else (Seats st)[i := s])\<rparr>"

lemma apply_raise_moved:
  assumes t: "table_ok st" "betting_ok st" and i: "i < length (Seats st)" "ToAct st = int i"
    and a: "able (Seats st ! i)" and r: "apply_raise st i to = Inr st'"
  shows "moved st i ((commit (Seats st ! i) (min to (StreetCommit (Seats st ! i) + Stack (Seats st ! i))
                        - StreetCommit (Seats st ! i)))\<lparr>ActedThisStreet := True\<rparr>) (mark_acted st' i)"
proof -
  let ?s = "Seats st ! i"
  let ?add = "min to (StreetCommit ?s + Stack ?s) - StreetCommit ?s"
  have sb: "seat_betting (CurrentBet st) ?s" "seat_ok ?s" and mr: "0 < MinRaise st" "0 < BigBlind st"
    and cb: "0 \<le> CurrentBet st"
    using t i nth_mem [OF i(1)] by (auto simp: betting_ok_def table_ok_def)
  have st: "0 < Stack ?s" using sb a by (auto simp: seat_betting_def seat_ok_def able_def)
  have can: "CanBetRaise (Legal st)" and add: "0 < ?add"
    and range: "\<not> to \<ge> StreetCommit ?s + Stack ?s \<longrightarrow> MinTo (Legal st) \<le> to"
    using r by (auto simp: apply_raise_def Let_def split: if_splits)
  from can have top: "CurrentBet st < StreetCommit ?s + Stack ?s" and
    minto: "MinTo (Legal st) = min (if CurrentBet st \<le> 0 then BigBlind st else CurrentBet st + MinRaise st)
                                   (StreetCommit ?s + Stack ?s)"
    using i(2) by (auto simp: Legal_def Let_def no_legal_def split: if_splits)
  have up: "CurrentBet st < StreetCommit ?s + ?add"
    using top minto range mr cb by (auto simp: min_def split: if_splits)
  have pay: "min ?add (Stack ?s) = ?add" by simp
  have r': "mark_acted st' i = st\<lparr>CurrentBet := StreetCommit ?s + ?add,
      MinRaise := max (MinRaise st) (StreetCommit ?s + ?add - CurrentBet st),
      Seats := reopen i ((Seats st)[i := (commit ?s ?add)\<lparr>ActedThisStreet := True\<rparr>])\<rparr>"
  proof -
    have "(reopen i ((Seats st)[i := commit ?s ?add]))[i := (commit ?s ?add)\<lparr>ActedThisStreet := True\<rparr>]
        = reopen i ((Seats st)[i := (commit ?s ?add)\<lparr>ActedThisStreet := True\<rparr>])"
      using i(1) by (intro nth_equalityI) (auto simp: nth_list_update)
    then show ?thesis
      using r add up i(1) pay unfolding apply_raise_def
      by (auto simp: Let_def mark_acted_def set_seat_def max_def split: if_splits)
  qed
  have "seat_betting (StreetCommit ?s + ?add) ((commit ?s ?add)\<lparr>ActedThisStreet := True\<rparr>)"
    using sb a st by (auto simp: seat_betting_def able_def)
  then show ?thesis
    using i(1) add up sb(2) seat_ok_commit [OF sb(2), of ?add]
    unfolding moved_def r' by (simp add: seat_ok_def)
qed


lemma apply_kind_moved:
  assumes t: "table_ok st" "betting_ok st" and i: "i < length (Seats st)" "ToAct st = int i"
    and a: "able (Seats st ! i)" and r: "apply_kind st i k to = Inr st'"
  shows "\<exists>s. moved st i s (mark_acted st' i) \<and> (Folded s \<longleftrightarrow> k = Fold)"
proof -
  let ?s = "Seats st ! i"
  have sb: "seat_betting (CurrentBet st) ?s" "seat_ok ?s" "\<not> Folded ?s"
    using t i a nth_mem [OF i(1)] by (auto simp: betting_ok_def table_ok_def able_def)
  note defs = moved_def mark_acted_def set_seat_def seat_betting_def able_def
  show ?thesis
  proof (cases k)
    case Fold
    with r i(1) sb show ?thesis
      by (intro exI [of _ "?s\<lparr>Folded := True, ActedThisStreet := True\<rparr>"])
        (auto simp: defs seat_ok_def)
  next
    case Check
    with r i(1) sb a show ?thesis
      by (intro exI [of _ "?s\<lparr>ActedThisStreet := True\<rparr>"])
        (auto simp: defs seat_ok_def split: if_splits)
  next
    case Call
    let ?c = "commit ?s (min (CurrentBet st - StreetCommit ?s) (Stack ?s))"
    have toCall: "0 < CurrentBet st - StreetCommit ?s" and st': "st' = set_seat st i ?c"
      using r Call by (auto simp: Let_def split: if_splits)
    have "seat_ok ?c" using sb(2) toCall by (intro seat_ok_commit) (auto simp: seat_ok_def)
    with sb a i(1) toCall show ?thesis unfolding st' Call
      by (intro exI [of _ "?c\<lparr>ActedThisStreet := True\<rparr>"]) (auto simp: defs seat_ok_def)
  next
    case Bet
    with apply_raise_moved [OF t i a, of to st'] r sb(3) show ?thesis by fastforce
  next
    case Raise
    with apply_raise_moved [OF t i a, of to st'] r sb(3) show ?thesis by fastforce
  next
    case (UnknownKind u)
    with r show ?thesis by simp
  qed
qed

lemma movedD:
  assumes "moved st i s st'"
  shows "i < length (Seats st)" "ActedThisStreet s" "seat_ok s" "SeatIndex s = SeatIndex (Seats st ! i)"
    "Stack s + TotalCommit s = Stack (Seats st ! i) + TotalCommit (Seats st ! i)"
    "seat_betting (CurrentBet st') s" "CurrentBet st \<le> CurrentBet st'" "MinRaise st \<le> MinRaise st'"
  using assms by (simp_all add: moved_def)

lemma moved_fields:
  assumes "moved st i s st'"
  shows "Seats st' = (if CurrentBet st < CurrentBet st' then reopen i ((Seats st)[i := s])
       else (Seats st)[i := s])"
    and "f st' = f (st\<lparr>CurrentBet := CurrentBet st', MinRaise := MinRaise st',
                Seats := (if CurrentBet st < CurrentBet st' then reopen i ((Seats st)[i := s])
                          else (Seats st)[i := s])\<rparr>)"
proof -
  have E: "st' = st\<lparr>CurrentBet := CurrentBet st', MinRaise := MinRaise st',
                Seats := (if CurrentBet st < CurrentBet st' then reopen i ((Seats st)[i := s])
                          else (Seats st)[i := s])\<rparr>"
    using assms unfolding moved_def by (elim conjE)
  from arg_cong [OF E, of Seats] show "Seats st' = (if CurrentBet st < CurrentBet st'
       then reopen i ((Seats st)[i := s]) else (Seats st)[i := s])"
    by simp
  from E show "f st' = f (st\<lparr>CurrentBet := CurrentBet st', MinRaise := MinRaise st',
                Seats := (if CurrentBet st < CurrentBet st' then reopen i ((Seats st)[i := s])
                          else (Seats st)[i := s])\<rparr>)" by (rule arg_cong)
qed

lemma moved_frame:
  assumes "moved st i s st'"
  shows "Button st' = Button st" "SmallBlind st' = SmallBlind st" "BigBlind st' = BigBlind st"
    "Done st' = Done st" "Payouts st' = Payouts st" "Street st' = Street st" "Board st' = Board st"
    "deferReveal st' = deferReveal st" "deckPos st' = deckPos st" "deck st' = deck st"
    "AwaitingBoard st' = AwaitingBoard st" "AwaitingShowdown st' = AwaitingShowdown st" "ToAct st' = ToAct st"
    "UseHole st' = UseHole st"
  by (subst moved_fields(2) [OF assms], simp)+

lemma moved_nth:
  assumes "moved st i s st'"
  shows "length (Seats st') = length (Seats st)"
    and "k < length (Seats st) \<Longrightarrow> Seats st' ! k = (if k = i then s
     else if CurrentBet st < CurrentBet st' \<and> able (Seats st ! k)
       then (Seats st ! k)\<lparr>ActedThisStreet := False\<rparr> else Seats st ! k)"
  using moved_fields(1) [OF assms] movedD(1) [OF assms] by (auto simp: nth_list_update)

lemma moved_map:
  assumes "moved st i s st'" "\<And>s b. f (s\<lparr>ActedThisStreet := b\<rparr>) = f s"
  shows "map f (Seats st') = map f ((Seats st)[i := s])"
  using moved_fields(1) [OF assms(1)] map_reopen [of f, OF assms(2)] by simp

lemma moved_midway:
  assumes m: "moved st i s st'" and t: "table_ok st" "betting_ok st" "2 \<le> liveCount st"
    and aw: "\<not> AwaitingBoard st" "\<not> AwaitingShowdown st"
  shows "midway st'" "chips st' = chips st" "\<not> Folded s \<Longrightarrow> \<not> Folded (Seats st ! i) \<Longrightarrow> liveCount st' = liveCount st"
proof -
  have i: "i < length (Seats st)" and cb: "CurrentBet st \<le> CurrentBet st'" "MinRaise st \<le> MinRaise st'"
    using movedD [OF m] by simp_all
  have "map SeatIndex (Seats st') = map SeatIndex (Seats st)"
    using moved_map [OF m, of SeatIndex] movedD(4) [OF m] by (simp add: map_nth_update_same)
  moreover have "seat_ok (Seats st' ! k)" if "k < length (Seats st)" for k
    using t(1) movedD(3) [OF m] moved_nth(2) [OF m that] nth_mem [OF that]
    by (auto simp: table_ok_def seat_ok_def)
  ultimately have t': "table_ok st'"
    using t(1) by (auto simp: table_ok_def moved_frame [OF m] moved_nth(1) [OF m] seats_indexed_def
        all_set_conv_all_nth)
  have "seat_betting (CurrentBet st') (Seats st' ! k)" if "k < length (Seats st)" for k
  proof -
    have old: "seat_betting (CurrentBet st) (Seats st ! k)"
      using t(2) nth_mem [OF that] by (auto simp: betting_ok_def)
    consider "k = i" | "k \<noteq> i" "CurrentBet st < CurrentBet st'" | "k \<noteq> i" "CurrentBet st = CurrentBet st'"
      using cb(1) by linarith
    then show ?thesis
    proof cases
      case 1
      with movedD(6) [OF m] moved_nth(2) [OF m that] show ?thesis by simp
    next
      case 2
      then show ?thesis unfolding moved_nth(2) [OF m that] using old
        by (cases "able (Seats st ! k)") (auto simp: seat_betting_def able_def)
    next
      case 3
      then show ?thesis unfolding moved_nth(2) [OF m that] using old by simp
    qed
  qed
  then have b': "betting_ok st'"
    using t(2) cb by (auto simp: betting_ok_def moved_frame [OF m] moved_nth(1) [OF m] all_set_conv_all_nth)
  have live: "liveCount x = length (filter Not (map Folded (Seats x)))" for x
    by (simp add: liveCount_def filter_map comp_def)
  have lc: "liveCount st' = length (filter Not ((map Folded (Seats st))[i := Folded s]))"
    using moved_map [OF m, of Folded] by (simp add: live map_update)
  have "length (filter Not bs) \<le> Suc (length (filter Not (bs[j := b])))" for bs b and j :: nat
    by (induction bs arbitrary: j) (auto split: nat.split)
  from this [of "map Folded (Seats st)" i "Folded s"] have "1 \<le> liveCount st'"
    using t(3) unfolding lc by (simp add: live)
  then show "midway st'" using t' b' aw by (simp add: midway_def moved_frame [OF m])
  show "\<not> Folded s \<Longrightarrow> \<not> Folded (Seats st ! i) \<Longrightarrow> liveCount st' = liveCount st"
    unfolding lc using i by (simp add: live list_update_same_conv [THEN iffD2])
  show "chips st' = chips st"
    using moved_map [OF m, of Stack] moved_map [OF m, of TotalCommit] movedD(5) [OF m] i
    by (simp add: chips_def Pot_def moved_frame [OF m] moved_nth(1) [OF m] sum_list_map_update)
qed


section \<open>The operations\<close>

lemma wf_playing:
  assumes "wf st" "\<not> Done st"
  shows "table_ok st" "betting_ok st" "2 \<le> liveCount st" "turn_ok st" "paused_ok st"
  using assms by (simp_all add: wf_def)

text \<open>An action is accepted when \<open>Apply\<close> gets as far as \<open>advance\<close>.\<close>

definition accepts :: "hand \<Rightarrow> action \<Rightarrow> bool" where
  "accepts st a \<longleftrightarrow> \<not> Done st \<and> \<not> AwaitingBoard st \<and> \<not> AwaitingShowdown st \<and> ActSeat a = ToAct st
     \<and> 0 \<le> ToAct st \<and> ToAct st < int (length (Seats st))
     \<and> (\<exists>st'. apply_kind st (nat (ToAct st)) (Kind a) (To a) = Inr st')"

lemma Apply_rejects: "\<not> accepts st a \<Longrightarrow> snd (Apply st a) = st \<and> fst (Apply st a) \<noteq> None"
  by (auto simp: Apply_def accepts_def Let_def not_less split: sum.split)

lemma Apply_accepts:
  assumes "wf st" "accepts st a"
  obtains s st' where "moved st (nat (ToAct st)) s st'" "Apply st a = advance st'"
    "Folded s \<longleftrightarrow> Kind a = Fold" "apply_kind st (nat (ToAct st)) (Kind a) (To a) \<noteq> Inl x"
proof -
  let ?i = "nat (ToAct st)"
  from assms(2) obtain r where r: "apply_kind st ?i (Kind a) (To a) = Inr r"
    and i: "?i < length (Seats st)" "ToAct st = int ?i"
    by (auto simp: accepts_def)
  have "able (Seats st ! ?i)" "table_ok st" "betting_ok st"
    using assms wf_playing [of st] by (auto simp: accepts_def turn_ok_def)
  with apply_kind_moved [OF _ _ i _ r] obtain s where "moved st ?i s (mark_acted r ?i)"
    "Folded s \<longleftrightarrow> Kind a = Fold" by blast
  moreover have "Apply st a = advance (mark_acted r ?i)"
    using assms(2) r by (simp add: Apply_def accepts_def Let_def)
  ultimately show ?thesis using that r by simp
qed

lemma Apply_delivers:
  assumes "wf st" "accepts st a"
  shows "delivers st (Apply st a)"
proof -
  obtain s st' where m: "moved st (nat (ToAct st)) s st'" "Apply st a = advance st'"
    using Apply_accepts [OF assms] .
  have "midway st'" "chips st' = chips st"
    using moved_midway [OF m(1)] wf_playing [OF assms(1)] assms(2) by (auto simp: accepts_def)
  then show ?thesis using advance_delivers [of st'] delivers_chips [of st st'] m(2) by simp
qed

lemma SupplyBoard_delivers:
  assumes "wf st" "fst (SupplyBoard st cs) = None \<or> snd (SupplyBoard st cs) \<noteq> st"
  shows "delivers st (SupplyBoard st cs)"
proof -
  let ?d = "st\<lparr>Board := Board st @ cs, Street := pendingStreet st, AwaitingBoard := False, PendingBoardCount := 0\<rparr>"
  have aw: "AwaitingBoard st" "length cs = PendingBoardCount st"
    and S: "SupplyBoard st cs = finishStreetTransition ?d"
    using assms(2) by (auto simp: SupplyBoard_def split: if_splits option.splits)
  have nd: "\<not> Done st" using assms(1) aw by (auto simp: wf_def)
  note w = wf_playing [OF assms(1) nd]
  have "deals st ?d" using w(5) aw by (cases "Street st") (simp_all add: deals_def paused_ok_def)
  then have "midway ?d" by (rule deals_midway) (use w in simp_all)
  moreover have "liveCount ?d = liveCount st" by (simp add: liveCount_def)
  ultimately have "delivers ?d (finishStreetTransition ?d)"
    using streets_deliver(2) w(3) by simp
  then show ?thesis using S delivers_chips [of st ?d] chips_cong [of st ?d] by simp
qed

lemma SetRevealedHole_wf:
  assumes "wf st"
  shows "wf (snd (SetRevealedHole st i hole))" "chips (snd (SetRevealedHole st i hole)) = chips st"
proof -
  let ?s = "(Seats st ! nat i)\<lparr>Hole := hole\<rparr>" and ?ss = "(Seats st)[nat i := (Seats st ! nat i)\<lparr>Hole := hole\<rparr>]"
  have map_same: "map f ?ss = map f (Seats st)" if "f ?s = f (Seats st ! nat i)" for f :: "seat \<Rightarrow> 'x"
    using that by (rule map_nth_update_same)
  have set_same: "(\<forall>s \<in> set ?ss. P s) = (\<forall>s \<in> set (Seats st). P s)" if "\<And>s. P (s\<lparr>Hole := hole\<rparr>) = P s" for P
  proof -
    have *: "(\<forall>s \<in> set xs. P s) = (\<forall>b \<in> set (map P xs). b)" for xs by simp
    show ?thesis unfolding * map_same [of P, OF that] ..
  qed
  have live: "length (filter (\<lambda>s. \<not> Folded s) ?ss) = length (filter (\<lambda>s. \<not> Folded s) (Seats st))"
    using arg_cong [OF map_same [of Folded], of "\<lambda>bs. length (filter Not bs)"]
    by (simp add: filter_map comp_def)
  have able: "able (?ss ! k) = able (Seats st ! k)" if "k < length (Seats st)" for k
    using that by (cases "k = nat i") (simp_all add: able_def)
  have ok: "seat_ok (s\<lparr>Hole := hole\<rparr>) = seat_ok s" "seat_betting b (s\<lparr>Hole := hole\<rparr>) = seat_betting b s" for s b
    by (simp_all add: seat_ok_def seat_betting_def able_def)
  have "wf (set_seat st (nat i) ?s)"
    using assms able
    by (auto simp: wf_def table_ok_def betting_ok_def turn_ok_def paused_ok_def seats_indexed_def liveCount_def
        set_seat_def live set_same ok map_same Pot_def)
  moreover have "chips (set_seat st (nat i) ?s) = chips st"
    by (simp add: chips_def Pot_def set_seat_def map_same)
  ultimately show "wf (snd (SetRevealedHole st i hole))" "chips (snd (SetRevealedHole st i hole)) = chips st"
    using assms by (auto simp: SetRevealedHole_def split: option.split)
qed

lemma CompleteShowdown_delivers:
  assumes "wf st" "AwaitingShowdown st"
  shows "delivers st (CompleteShowdown st)"
proof -
  let ?f = "finish (st\<lparr>AwaitingShowdown := False\<rparr>)"
  have nd: "\<not> Done st" using assms by (auto simp: wf_def)
  note w = wf_playing [OF assms(1) nd]
  have t: "table_ok ?f" using w(1) table_ok_cong [of ?f st] by (simp add: finish_def)
  have "delivers ?f (scoreAndPay ?f)"
    by (rule score_delivers [OF t]) (use w assms in \<open>auto simp: finish_def betting_ok_def paused_ok_def\<close>)
  then show ?thesis
    using assms(2) delivers_chips [of st ?f] chips_cong [of st ?f] by (simp add: CompleteShowdown_def finish_def)
qed


section \<open>A new hand\<close>

lemma length_deal_holes [simp]: "length (deal_holes h d p ss) = length ss"
  by (induction h d p ss rule: deal_holes.induct) simp_all

lemma map_deal_holes:
  "(\<And>s hole. f (s\<lparr>Hole := hole\<rparr>) = f s) \<Longrightarrow> map f (deal_holes h d p ss) = map f ss"
  by (induction h d p ss rule: deal_holes.induct) simp_all

lemma nth_deal_holes:
  "(\<And>s hole. f (s\<lparr>Hole := hole\<rparr>) = f s) \<Longrightarrow> i < length ss \<Longrightarrow> f (deal_holes h d p ss ! i) = f (ss ! i)"
  using map_deal_holes [of f h d p ss] by (metis length_deal_holes nth_map)

definition newcomer :: "int \<Rightarrow> seat \<Rightarrow> bool" where
  "newcomer bb s \<longleftrightarrow> seat_ok s \<and> \<not> Folded s \<and> \<not> ActedThisStreet s \<and> StreetCommit s \<le> bb \<and> (AllIn s \<longleftrightarrow> Stack s = 0)"

lemma newcomer_post:
  "newcomer bb s \<Longrightarrow> StreetCommit s = 0 \<Longrightarrow> 0 \<le> amt \<Longrightarrow> amt \<le> bb \<Longrightarrow> newcomer bb (commit s amt)"
  by (auto simp: newcomer_def seat_ok_def)

lemma New_Inr:
  assumes "New cfg = Inr st"
  defines "n \<equiv> length (cfgStacks cfg)"
  obtains h sb bb where "MinSeats \<le> n" "n \<le> MaxSeats" "0 \<le> cfgButton cfg" "cfgButton cfg < int n"
    "0 < cfgSmallBlind cfg" "cfgSmallBlind cfg \<le> cfgBigBlind cfg" "\<forall>i < n. 0 < cfgStacks cfg ! i"
    "h * n + 5 \<le> length (cfgDeck cfg)" "blind_seats n (nat (cfgButton cfg)) = (sb, bb)"
    "st = (let st' = (postBlind (postBlind (start_hand cfg h) sb (cfgSmallBlind cfg)) bb (cfgBigBlind cfg))
                      \<lparr>CurrentBet := cfgBigBlind cfg, MinRaise := cfgBigBlind cfg\<rparr>
           in st'\<lparr>ToAct := nextAbleToAct st' (int bb)\<rparr>)"
    "int h = (if cfgHoleCards cfg = 0 then 2 else cfgHoleCards cfg)"
proof -
  let ?h = "nat (if cfgHoleCards cfg = 0 then 2 else cfgHoleCards cfg)"
  obtain sb bb where b: "blind_seats n (nat (cfgButton cfg)) = (sb, bb)" by fastforce
  have F: "find (\<lambda>i. cfgStacks cfg ! i \<le> 0) [0..<n] = None"
    using assms(1) unfolding New_def n_def by (auto simp: Let_def split: if_splits option.splits)
  then have "\<forall>i < n. 0 < cfgStacks cfg ! i"
    by (auto simp: find_None_iff not_le)
  moreover have h: "0 \<le> (if cfgHoleCards cfg = 0 then 2 else cfgHoleCards cfg)"
    and room: "(if cfgHoleCards cfg = 0 then 2 else cfgHoleCards cfg) * int n + 5 \<le> int (length (cfgDeck cfg))"
    using assms(1) F unfolding New_def n_def by (auto simp: Let_def split: if_splits)
  moreover have "?h * n + 5 \<le> length (cfgDeck cfg)"
  proof -
    have "int (?h * n + 5) \<le> int (length (cfgDeck cfg))"
      using h room by (simp only: of_nat_add of_nat_mult int_nat_eq) simp
    then show ?thesis by (simp only: of_nat_le_iff)
  qed
  moreover have "MinSeats \<le> n" "n \<le> MaxSeats" "0 \<le> cfgButton cfg" "cfgButton cfg < int n"
    "0 < cfgSmallBlind cfg" "cfgSmallBlind cfg \<le> cfgBigBlind cfg"
    using assms(1) unfolding New_def n_def by (auto simp: Let_def split: if_splits)
  moreover have "st = (let st' = (postBlind (postBlind (start_hand cfg ?h) sb (cfgSmallBlind cfg)) bb (cfgBigBlind cfg))
                      \<lparr>CurrentBet := cfgBigBlind cfg, MinRaise := cfgBigBlind cfg\<rparr>
           in st'\<lparr>ToAct := nextAbleToAct st' (int bb)\<rparr>)"
    using assms(1) F b unfolding New_def n_def by (auto simp: Let_def split: if_splits)
  ultimately show ?thesis using that [of ?h sb bb] b by simp
qed

lemma blind_seats_ok:
  assumes "2 \<le> n" "button < n" "blind_seats n button = (sb, bb)"
  shows "sb < n" "bb < n" "sb \<noteq> bb"
proof -
  show "sb < n" "bb < n" using assms by (auto simp: blind_seats_def split: if_splits)
  have "(button + 1) mod n \<noteq> (button + 2) mod n"
    using assms(1,2) by (auto simp: mod_Suc)
  moreover have "button \<noteq> (button + 1) mod n" using assms(1,2) by (auto simp: mod_Suc)
  ultimately show "sb \<noteq> bb" using assms by (auto simp: blind_seats_def split: if_splits)
qed


lemma start_hand_seat:
  assumes "i < length (cfgStacks cfg)" "\<And>s hole. f (s\<lparr>Hole := hole\<rparr>) = f s"
  shows "f (Seats (start_hand cfg h) ! i) = f (fresh_seat i (cfgStacks cfg ! i))"
  using assms(1) nth_deal_holes [of f i "map (\<lambda>i. fresh_seat i (cfgStacks cfg ! i)) [0..<length (cfgStacks cfg)]", OF assms(2)]
  by (simp add: start_hand_def Let_def)

lemma length_start_hand [simp]: "length (Seats (start_hand cfg h)) = length (cfgStacks cfg)"
  by (simp add: start_hand_def Let_def)

definition posted :: "config \<Rightarrow> nat \<Rightarrow> nat \<Rightarrow> nat \<Rightarrow> seat list" where
  "posted cfg h sb bb = Seats (postBlind (postBlind (start_hand cfg h) sb (cfgSmallBlind cfg)) bb (cfgBigBlind cfg))"

lemma posted_seat:
  assumes "0 < cfgSmallBlind cfg" "cfgSmallBlind cfg \<le> cfgBigBlind cfg" "0 < cfgStacks cfg ! i"
    "i < length (cfgStacks cfg)" "sb < length (cfgStacks cfg)" "bb < length (cfgStacks cfg)" "sb \<noteq> bb"
  shows "newcomer (cfgBigBlind cfg) (posted cfg h sb bb ! i)" "SeatIndex (posted cfg h sb bb ! i) = i"
    "Stack (posted cfg h sb bb ! i) + TotalCommit (posted cfg h sb bb ! i) = cfgStacks cfg ! i"
    "length (posted cfg h sb bb) = length (cfgStacks cfg)"
proof -
  let ?s = "Seats (start_hand cfg h) ! i"
  have s: "newcomer (cfgBigBlind cfg) ?s" "StreetCommit ?s = 0" "SeatIndex ?s = i"
    "Stack ?s = cfgStacks cfg ! i" "TotalCommit ?s = 0"
    using assms(1-4) by (simp_all add: start_hand_seat fresh_seat_def newcomer_def seat_ok_def)
  have P: "posted cfg h sb bb ! i = (if i = bb then commit ?s (cfgBigBlind cfg)
       else if i = sb then commit ?s (cfgSmallBlind cfg) else ?s)"
    using assms(4-7) by (auto simp: posted_def postBlind_def nth_list_update)
  show "newcomer (cfgBigBlind cfg) (posted cfg h sb bb ! i)" "SeatIndex (posted cfg h sb bb ! i) = i"
    "Stack (posted cfg h sb bb ! i) + TotalCommit (posted cfg h sb bb ! i) = cfgStacks cfg ! i"
    using s newcomer_post [OF s(1,2)] assms(1,2) by (auto simp: P)
  show "length (posted cfg h sb bb) = length (cfgStacks cfg)" by (simp add: posted_def postBlind_def)
qed

lemma nextAbleToAct_cong: "Seats st' = Seats st \<Longrightarrow> nextAbleToAct st' i = nextAbleToAct st i"
  by (simp add: nextAbleToAct_def)

lemma New_state:
  assumes "New cfg = Inr st"
  obtains h sb bb where "Seats st = posted cfg h sb bb" "sb < length (cfgStacks cfg)" "bb < length (cfgStacks cfg)"
    "sb \<noteq> bb" "MinSeats \<le> length (cfgStacks cfg)" "length (cfgStacks cfg) \<le> MaxSeats" "0 < cfgSmallBlind cfg"
    "cfgSmallBlind cfg \<le> cfgBigBlind cfg" "\<forall>i < length (cfgStacks cfg). 0 < cfgStacks cfg ! i"
    "Button st = cfgButton cfg" "0 \<le> cfgButton cfg" "cfgButton cfg < int (length (cfgStacks cfg))"
    "SmallBlind st = cfgSmallBlind cfg" "BigBlind st = cfgBigBlind cfg" "CurrentBet st = cfgBigBlind cfg"
    "MinRaise st = cfgBigBlind cfg" "ToAct st = nextAbleToAct st (int bb)" "\<not> Done st" "\<not> AwaitingBoard st"
    "\<not> AwaitingShowdown st" "Payouts st = Map.empty" "Street st = Preflop" "Board st = []"
    "deckPos st = h * length (cfgStacks cfg)" "deck st = cfgDeck cfg" "h * length (cfgStacks cfg) + 5 \<le> length (cfgDeck cfg)"
proof -
  obtain h sb bb where c: "MinSeats \<le> length (cfgStacks cfg)" "length (cfgStacks cfg) \<le> MaxSeats"
    "0 \<le> cfgButton cfg" "cfgButton cfg < int (length (cfgStacks cfg))" "0 < cfgSmallBlind cfg"
    "cfgSmallBlind cfg \<le> cfgBigBlind cfg" "\<forall>i < length (cfgStacks cfg). 0 < cfgStacks cfg ! i"
    "h * length (cfgStacks cfg) + 5 \<le> length (cfgDeck cfg)"
    and bl: "blind_seats (length (cfgStacks cfg)) (nat (cfgButton cfg)) = (sb, bb)"
    and st: "st = (let st' = (postBlind (postBlind (start_hand cfg h) sb (cfgSmallBlind cfg)) bb (cfgBigBlind cfg))
                      \<lparr>CurrentBet := cfgBigBlind cfg, MinRaise := cfgBigBlind cfg\<rparr>
           in st'\<lparr>ToAct := nextAbleToAct st' (int bb)\<rparr>)"
    and "int h = (if cfgHoleCards cfg = 0 then 2 else cfgHoleCards cfg)"
    by (rule New_Inr [OF assms])
  have b: "sb < length (cfgStacks cfg)" "bb < length (cfgStacks cfg)" "sb \<noteq> bb"
    using blind_seats_ok [OF _ _ bl] c by (simp_all add: MinSeats_def nat_less_iff)
  have "ToAct st = nextAbleToAct st (int bb)"
    unfolding st Let_def by (simp del: upt_Suc) (rule nextAbleToAct_cong, simp)
  then show ?thesis
    using that [of h sb bb] b c
    by (simp add: st Let_def posted_def postBlind_def start_hand_def mult.commute)
qed

lemma New_open:
  assumes "New cfg = Inr st"
  shows "\<not> Done st \<and> \<not> AwaitingBoard st \<and> \<not> AwaitingShowdown st"
  using assms
  by (auto simp: New_def Let_def postBlind_def start_hand_def split: if_splits option.splits prod.splits)

lemma New_wf:
  assumes "New cfg = Inr st"
  shows "wf st" "chips st = sum_list (cfgStacks cfg)"
    "ToAct st < 0 \<longleftrightarrow> (\<forall>s \<in> set (Seats st). AllIn s)"
proof -
  obtain h sb bb where S: "Seats st = posted cfg h sb bb"
    and b: "sb < length (cfgStacks cfg)" "bb < length (cfgStacks cfg)" "sb \<noteq> bb"
    and n: "MinSeats \<le> length (cfgStacks cfg)" "length (cfgStacks cfg) \<le> MaxSeats"
    and bl: "0 < cfgSmallBlind cfg" "cfgSmallBlind cfg \<le> cfgBigBlind cfg"
    and pos: "\<forall>i < length (cfgStacks cfg). 0 < cfgStacks cfg ! i"
    and f: "Button st = cfgButton cfg" "0 \<le> cfgButton cfg" "cfgButton cfg < int (length (cfgStacks cfg))"
    "SmallBlind st = cfgSmallBlind cfg" "BigBlind st = cfgBigBlind cfg" "CurrentBet st = cfgBigBlind cfg"
    "MinRaise st = cfgBigBlind cfg" "ToAct st = nextAbleToAct st (int bb)" "\<not> Done st" "\<not> AwaitingBoard st"
    "\<not> AwaitingShowdown st" "Payouts st = Map.empty" "Street st = Preflop" "Board st = []"
    "deckPos st = h * length (cfgStacks cfg)" "deck st = cfgDeck cfg" "h * length (cfgStacks cfg) + 5 \<le> length (cfgDeck cfg)"
    by (rule New_state [OF assms])
  note seat = posted_seat [OF bl pos [rule_format] _ b, of _ h]
  have len: "length (Seats st) = length (cfgStacks cfg)" by (simp add: S posted_def postBlind_def)
  have nc: "newcomer (cfgBigBlind cfg) s" if "s \<in> set (Seats st)" for s
    using that seat(1) len by (auto simp: in_set_conv_nth S)
  have "seats_indexed st" unfolding seats_indexed_def using seat(2) len
    by (intro nth_equalityI) (auto simp: S)
  then have t: "table_ok st" using f(1-5) n bl nc len by (auto simp: table_ok_def newcomer_def)
  have "betting_ok st" using f n bl nc len by (auto simp: betting_ok_def newcomer_def seat_betting_def)
  moreover have "liveCount st = length (Seats st)"
    using nc by (auto simp: liveCount_def newcomer_def intro!: arg_cong [where f = length] filter_True)
  moreover have ne: "Seats st \<noteq> []" using n len by (auto simp: MinSeats_def)
  note cases = nextAbleToAct_cases [OF ne, of "int bb", folded f(8)]
  then have "turn_ok st" by (auto simp: turn_ok_def)
  ultimately show "wf st" using t f n len by (simp add: wf_def paused_ok_def MinSeats_def)
  show "ToAct st < 0 \<longleftrightarrow> (\<forall>s \<in> set (Seats st). AllIn s)"
    using cases nc by (fastforce simp: ableToActCount_def filter_empty_conv able_def newcomer_def)
  have "map (\<lambda>s. Stack s + TotalCommit s) (Seats st) = cfgStacks cfg"
    using seat(3) len by (intro nth_equalityI) (auto simp: S)
  then show "chips st = sum_list (cfgStacks cfg)"
    by (simp add: chips_def Pot_def f(12) flip: sum_list_addf)
qed


section \<open>A hand as a machine\<close>

text \<open>The calls a table makes on a hand, in any order.\<close>

datatype call = CApply action | CBoard "card list" | CHole int "card list" | CShowdown

fun perform :: "hand \<Rightarrow> call \<Rightarrow> (engine_error, hand) outcome" where
  "perform st (CApply a) = Apply st a"
| "perform st (CBoard cs) = SupplyBoard st cs"
| "perform st (CHole i hole) = SetRevealedHole st i hole"
| "perform st CShowdown = CompleteShowdown st"

definition hand_step :: "hand \<Rightarrow> call \<Rightarrow> hand" where
  "hand_step st c = snd (perform st c)"

lemma perform_cases:
  assumes "wf st"
  shows "snd (perform st c) = st \<or> delivers st (perform st c)
    \<or> wf (snd (perform st c)) \<and> chips (snd (perform st c)) = chips st \<and> (\<exists>i hole. c = CHole i hole)"
proof (cases c)
  case (CApply a)
  with assms Apply_delivers Apply_rejects show ?thesis by (cases "accepts st a") auto
next
  case (CBoard cs)
  with assms SupplyBoard_delivers show ?thesis by (cases "snd (SupplyBoard st cs) = st") auto
next
  case (CHole i hole)
  with assms SetRevealedHole_wf show ?thesis by auto
next
  case CShowdown
  with assms CompleteShowdown_delivers show ?thesis
    by (cases "AwaitingShowdown st") (auto simp: CompleteShowdown_def)
qed

interpretation hands: conserving hand_step wf chips
proof
  fix st c assume "wf st"
  from perform_cases [OF this, of c] this show "wf (hand_step st c)" "chips (hand_step st c) = chips st"
    by (auto simp: hand_step_def delivers_def)
qed

lemma reachable_wf:
  assumes "New cfg = Inr st"
  shows "wf (run hand_step st cs)" "chips (run hand_step st cs) = sum_list (cfgStacks cfg)"
  using hands.run_inv hands.run_total New_wf [OF assms] by auto

lemma Pot_nonneg:
  assumes "wf st"
  shows "0 \<le> Pot st"
proof (cases "Payouts st = Map.empty")
  case True
  then show ?thesis using commit_nonneg [of st] assms
    by (auto simp: Pot_def wf_def intro!: sum_list_nonneg)
next
  case False
  then show ?thesis using assms by (auto simp: wf_def betting_ok_def split: if_splits)
qed

section \<open>Properties\<close>


definition sample_deck :: "card list" where
  "sample_deck = map (\<lambda>(r, s). \<lparr>Rank = r, Suit = s\<rparr>)
     [(14, 0), (14, 1), (13, 0), (13, 1), (7, 2), (2, 3), (3, 0), (9, 1), (11, 2), (5, 3), (6, 0)]"

definition sample_cfg :: config where
  "sample_cfg = \<lparr>cfgStacks = [100, 60, 200], cfgButton = 0, cfgSmallBlind = 5, cfgBigBlind = 10,
     cfgDeck = sample_deck, cfgHoleCards = 0, cfgUseHole = 0, cfgDeferReveal = False\<rparr>"

definition sample_hand :: hand where
  "sample_hand = (case New sample_cfg of Inr st \<Rightarrow> st | Inl e \<Rightarrow> start_hand sample_cfg 2)"

lemma sample_hand_starts: "New sample_cfg = Inr sample_hand"
proof -
  have "isl (New sample_cfg) = False" by code_simp
  then show ?thesis by (cases "New sample_cfg") (auto simp: sample_hand_def)
qed



definition fold_to_one :: "call list" where
  "fold_to_one = [CApply \<lparr>Kind = Fold, ActSeat = 0, To = 0\<rparr>]"

lemma fold_to_one_open: "\<not> Done (run hand_step sample_hand fold_to_one)"
  by code_simp

lemma fold_to_one_ends:
  "fst (perform (run hand_step sample_hand fold_to_one) (CApply \<lparr>Kind = Fold, ActSeat = 1, To = 0\<rparr>)) = None"
  "Done (snd (perform (run hand_step sample_hand fold_to_one) (CApply \<lparr>Kind = Fold, ActSeat = 1, To = 0\<rparr>)))"
  by code_simp+

lemma sum_list_sample: "sum_list (cfgStacks sample_cfg) = 360"
  by (simp add: sample_cfg_def)



text \<open>The accepted actions, read off \<open>Legal\<close>.\<close>

definition offered :: "legal \<Rightarrow> action_kind \<Rightarrow> int \<Rightarrow> bool" where
  "offered l k to = (case k of Fold \<Rightarrow> CanFold l | Check \<Rightarrow> CanCheck l | Call \<Rightarrow> CanCall l
     | Bet \<Rightarrow> CanBetRaise l \<and> MinTo l \<le> to | Raise \<Rightarrow> CanBetRaise l \<and> MinTo l \<le> to | UnknownKind u \<Rightarrow> False)"

lemma actor_facts:
  assumes "wf st" "\<not> Done st" "0 \<le> ToAct st"
  shows "\<not> AwaitingBoard st" "\<not> AwaitingShowdown st" "ToAct st < int (length (Seats st))"
    "0 < Stack (Seats st ! nat (ToAct st))" "StreetCommit (Seats st ! nat (ToAct st)) \<le> CurrentBet st"
    "0 < MinRaise st" "0 < BigBlind st" "0 \<le> CurrentBet st" "0 \<le> StreetCommit (Seats st ! nat (ToAct st))"
proof -
  note w = wf_playing [OF assms(1,2)]
  show aw: "\<not> AwaitingBoard st" "\<not> AwaitingShowdown st" using w(5) assms(3) by (auto simp: paused_ok_def)
  show lt: "ToAct st < int (length (Seats st))" using w(4) assms(3) by (auto simp: turn_ok_def)
  let ?s = "Seats st ! nat (ToAct st)"
  have "?s \<in> set (Seats st)" using lt assms(3) by simp
  then have "seat_betting (CurrentBet st) ?s" "seat_ok ?s" "able ?s"
    using w assms(3) by (auto simp: betting_ok_def table_ok_def turn_ok_def)
  then show "0 < Stack ?s" "StreetCommit ?s \<le> CurrentBet st" "0 \<le> StreetCommit ?s"
    by (auto simp: seat_betting_def seat_ok_def able_def)
  show "0 < MinRaise st" "0 < BigBlind st" "0 \<le> CurrentBet st"
    using w(1,2) by (auto simp: betting_ok_def table_ok_def)
qed

lemma apply_raise_accepts:
  assumes "wf st" "\<not> Done st" "0 \<le> ToAct st"
  shows "(\<exists>st'. apply_raise st (nat (ToAct st)) to = Inr st') \<longleftrightarrow> CanBetRaise (Legal st) \<and> MinTo (Legal st) \<le> to"
proof -
  let ?s = "Seats st ! nat (ToAct st)"
  note a = actor_facts [OF assms]
  have L: "CanBetRaise (Legal st) \<longleftrightarrow> CurrentBet st < StreetCommit ?s + Stack ?s"
    "CanBetRaise (Legal st) \<Longrightarrow> MinTo (Legal st)
       = min (if CurrentBet st \<le> 0 then BigBlind st else CurrentBet st + MinRaise st) (StreetCommit ?s + Stack ?s)"
    "CanBetRaise (Legal st) \<Longrightarrow> MaxTo (Legal st) = StreetCommit ?s + Stack ?s"
    using a assms by (auto simp: Legal_def Let_def)
  show ?thesis
  proof (cases "CanBetRaise (Legal st)")
    case True
    with L a have lo: "StreetCommit ?s < MinTo (Legal st)" "MinTo (Legal st) \<le> StreetCommit ?s + Stack ?s"
      by (auto simp: min_def split: if_splits)
    have "(\<exists>st'. apply_raise st (nat (ToAct st)) to = Inr st') \<longleftrightarrow>
        (StreetCommit ?s + Stack ?s \<le> to \<or> MinTo (Legal st) \<le> to \<and> to \<le> MaxTo (Legal st))
        \<and> 0 < min to (StreetCommit ?s + Stack ?s) - StreetCommit ?s"
      using True by (auto simp: apply_raise_def Let_def not_le not_less)
    also have "\<dots> \<longleftrightarrow> MinTo (Legal st) \<le> to" using lo L(3) [OF True] a(4) by (auto simp: min_def)
    finally show ?thesis using True by simp
  qed (auto simp: apply_raise_def)
qed

lemma accepts_iff_offered:
  assumes "wf st" "\<not> Done st" "0 \<le> ToAct st"
  shows "accepts st a \<longleftrightarrow> ActSeat a = ToAct st \<and> offered (Legal st) (Kind a) (To a)"
proof -
  note a = actor_facts [OF assms]
  have "(\<exists>st'. apply_kind st (nat (ToAct st)) (Kind a) (To a) = Inr st') \<longleftrightarrow> offered (Legal st) (Kind a) (To a)"
    using a assms apply_raise_accepts [OF assms]
    by (cases "Kind a") (auto simp: offered_def Legal_def Let_def)
  then show ?thesis using a assms by (simp add: accepts_def)
qed


definition sample_bet :: action where
  "sample_bet = \<lparr>Kind = Raise, ActSeat = 0, To = 15\<rparr>"


lemma hand_step_moving: "wf st \<Longrightarrow> moving st \<Longrightarrow> moving (hand_step st c)"
  using perform_cases [of st c]
  by (auto simp: hand_step_def delivers_def moving_def SetRevealedHole_def set_seat_def split: option.splits if_splits)

text \<open>
  C39: a hand in which some seat can still act after the blinds never gets stuck: after any sequence of
  calls it is over, or it waits for board cards or for the showdown, or a seat that can act is to act.
\<close>

theorem hand_never_stuck:
  assumes "New cfg = Inr st0" and "\<exists>s \<in> set (Seats st0). \<not> AllIn s" and "st = run hand_step st0 cs"
  shows "Done st \<or> AwaitingBoard st \<or> AwaitingShowdown st
     \<or> (0 \<le> ToAct st \<and> ToAct st < int (length (Seats st))
        \<and> \<not> Folded (Seats st ! nat (ToAct st)) \<and> \<not> AllIn (Seats st ! nat (ToAct st)))"
proof -
  have w0: "wf st0" using New_wf [OF assms(1)] by simp
  have m0: "moving st0" using New_wf(3) [OF assms(1)] assms(2) by (auto simp: moving_def)
  have "moving st" unfolding assms(3)
    by (rule hands.run_stable [where P = moving, OF w0 m0 hand_step_moving])
  moreover have "wf st" using hands.run_inv [OF w0] assms(3) by simp
  ultimately show ?thesis
    by (auto simp: moving_def wf_def turn_ok_def able_def split: if_splits)
qed

theorem hand_never_stuck_witness:
  "\<exists>st. st = run hand_step sample_hand fold_to_one
    \<and> (Done st \<or> AwaitingBoard st \<or> AwaitingShowdown st
     \<or> (0 \<le> ToAct st \<and> ToAct st < int (length (Seats st))
        \<and> \<not> Folded (Seats st ! nat (ToAct st)) \<and> \<not> AllIn (Seats st ! nat (ToAct st))))"
proof -
  have "\<exists>s \<in> set (Seats sample_hand). \<not> AllIn s" by code_simp
  from hand_never_stuck [OF sample_hand_starts this refl, of fold_to_one] show ?thesis by simp
qed

lemma stuck_step:
  assumes "wf st" "\<not> moving st"
  shows "\<not> moving (hand_step st c) \<and> Pot (hand_step st c) = Pot st"
proof -
  have s: "\<not> Done st" "\<not> AwaitingBoard st" "\<not> AwaitingShowdown st" "ToAct st < 0"
    using assms(2) by (auto simp: moving_def)
  show ?thesis
  proof (cases c)
    case (CApply a)
    with s show ?thesis using Apply_rejects [of st a] assms(2) by (auto simp: hand_step_def accepts_def)
  next
    case (CBoard cs)
    with s assms(2) show ?thesis by (simp add: hand_step_def SupplyBoard_def)
  next
    case (CHole i hole)
    have "chips (hand_step st c) = chips st" "map Stack (Seats (hand_step st c)) = map Stack (Seats st)"
      using SetRevealedHole_wf(2) [OF assms(1)] CHole
      by (auto simp: hand_step_def SetRevealedHole_def set_seat_def map_nth_update_same split: option.splits)
    then have "Pot (hand_step st c) = Pot st" by (simp add: chips_def)
    with s CHole show ?thesis
      by (auto simp: hand_step_def moving_def SetRevealedHole_def set_seat_def split: option.splits if_splits)
  next
    case CShowdown
    with s assms(2) show ?thesis by (simp add: hand_step_def CompleteShowdown_def)
  qed
qed

text \<open>
  C40: when the blinds put every seat all-in, \<open>New\<close> returns a hand that no call can ever move: it is not
  over, it waits for no cards, nobody is to act, and whatever is called the pot stays where it is.
\<close>

theorem all_in_blinds_stuck:
  assumes "New cfg = Inr st0" and "\<forall>s \<in> set (Seats st0). AllIn s" and "st = run hand_step st0 cs"
  shows "\<not> Done st \<and> \<not> AwaitingBoard st \<and> \<not> AwaitingShowdown st \<and> ToAct st < 0
     \<and> Pot st = sum_list (cfgStacks cfg)"
proof -
  let ?P = "\<lambda>s. \<not> moving s \<and> Pot s = Pot st0"
  have w0: "wf st0" using New_wf [OF assms(1)] by simp
  have "ToAct st0 < 0" using New_wf(3) [OF assms(1)] assms(2) by simp
  moreover have n0: "\<not> Done st0" "\<not> AwaitingBoard st0" "\<not> AwaitingShowdown st0"
    using New_open [OF assms(1)] by simp_all
  ultimately have P0: "?P st0" by (simp add: moving_def)
  have "?P st" unfolding assms(3)
    by (rule hands.run_stable [where P = ?P, OF w0 P0]) (use stuck_step in auto)
  moreover have "\<forall>s \<in> set (Seats st0). Stack s = 0"
    using w0 n0 assms(2) by (auto simp: wf_def betting_ok_def seat_betting_def)
  then have "map Stack (Seats st0) = map (\<lambda>s. 0) (Seats st0)" by simp
  then have "sum_list (map Stack (Seats st0)) = 0" by (simp only: sum_list_0)
  then have "Pot st0 = sum_list (cfgStacks cfg)" using New_wf(2) [OF assms(1)] by (simp add: chips_def)
  ultimately show ?thesis by (simp add: moving_def)
qed


definition short_cfg :: config where
  "short_cfg = sample_cfg\<lparr>cfgStacks := [3, 10]\<rparr>"

definition short_hand :: hand where
  "short_hand = (case New short_cfg of Inr st \<Rightarrow> st | Inl e \<Rightarrow> start_hand short_cfg 2)"

theorem all_in_blinds_stuck_witness:
  "New short_cfg = Inr short_hand
   \<and> \<not> Done (run hand_step short_hand [CApply \<lparr>Kind = Check, ActSeat = 0, To = 0\<rparr>, CShowdown])
   \<and> Pot (run hand_step short_hand [CApply \<lparr>Kind = Check, ActSeat = 0, To = 0\<rparr>, CShowdown]) = 13"
proof -
  have "isl (New short_cfg) = False" by code_simp
  then have N: "New short_cfg = Inr short_hand" by (cases "New short_cfg") (auto simp: short_hand_def)
  have "\<forall>s \<in> set (Seats short_hand). AllIn s" by code_simp
  from all_in_blinds_stuck [OF N this refl, of "[CApply \<lparr>Kind = Check, ActSeat = 0, To = 0\<rparr>, CShowdown]"]
  show ?thesis using N by (simp add: short_cfg_def)
qed


section \<open>The showdown\<close>

text \<open>The part of the pot below a level \<open>c\<close> that some seat reached.\<close>

lemma layer_pots_upto:
  assumes "\<forall>s \<in> set (Seats st). 0 \<le> TotalCommit s" "c = 0 \<or> c \<in> set (commit_levels st)"
  shows "(\<Sum>l\<leftarrow>layers (commit_levels st) 0. if snd l \<le> c then layer_pot st l else 0)
       = (\<Sum>s\<leftarrow>Seats st. min (TotalCommit s) c)"
proof -
  let ?ls = "layers (commit_levels st) 0"
  have "(\<Sum>l\<leftarrow>?ls. if snd l \<le> c then layer_pot st l else 0) = sum_list (map (layer_pot st) (filter (\<lambda>l. snd l \<le> c) ?ls))"
    by (rule sum_list_map_if_filter)
  also have "\<dots> = (\<Sum>s\<leftarrow>Seats st. \<Sum>l\<leftarrow>filter (\<lambda>l. snd l \<le> c) ?ls.
       if snd l \<le> TotalCommit s then snd l - fst l else 0)"
    unfolding layer_pot_def by (rule sum_list_layers_swap)
  also have "\<dots> = (\<Sum>s\<leftarrow>Seats st. min (TotalCommit s) c)"
  proof (intro arg_cong [where f = sum_list] map_cong refl)
    fix s assume s: "s \<in> set (Seats st)"
    let ?m = "min (TotalCommit s) c"
    have m: "?m \<in> set (0 # commit_levels st)"
      using assms s by (auto simp: set_commit_levels min_def order_le_less)
    have "(\<Sum>l\<leftarrow>filter (\<lambda>l. snd l \<le> c) ?ls. if snd l \<le> TotalCommit s then snd l - fst l else 0)
        = (\<Sum>l\<leftarrow>?ls. if snd l \<le> c then if snd l \<le> TotalCommit s then snd l - fst l else 0 else 0)"
      by (rule sum_list_map_if_filter [symmetric])
    also have "\<dots> = (\<Sum>l\<leftarrow>?ls. if snd l \<le> ?m then snd l - fst l else 0)"
      by (intro arg_cong [where f = sum_list] map_cong) auto
    also have "\<dots> = ?m" using layers_telescope [OF commit_levels_sorted m] by simp
    finally show "(\<Sum>l\<leftarrow>filter (\<lambda>l. snd l \<le> c) ?ls. if snd l \<le> TotalCommit s then snd l - fst l else 0) = ?m" .
  qed
  finally show ?thesis .
qed

text \<open>In Hold'em any five real cards can be scored.\<close>

lemma holdem_scores:
  assumes "UseHole st \<le> 0" "5 \<le> length (Hole s @ Board st)" "\<forall>c \<in> set (Hole s @ Board st). Valid c"
  shows "\<exists>r. seat_result st s = Inr r"
  using Best_optimal [of "Hole s @ Board st"] assms
  by (auto simp: seat_result_def BestConstrained_def HandSize_def)

definition live_top :: "hand \<Rightarrow> int" where
  "live_top st = Max (TotalCommit ` {s \<in> set (Seats st). \<not> Folded s})"

text \<open>A seat shares in a layer only if it reached it or if no live seat did.\<close>

lemma best_seats_reach:
  assumes "seats_indexed st" "i < length (Seats st)" "i \<in> best_seats st lvl"
  shows "\<not> Folded (Seats st ! i)" "lvl \<le> TotalCommit (Seats st ! i) \<or> live_top st < lvl"
proof -
  let ?live = "{s \<in> set (Seats st). \<not> Folded s}"
  from assms(3) obtain s where s: "s \<in> contenders st lvl" "SeatIndex s = i" by (auto simp: best_seats_def)
  have "s \<in> set (Seats st)" "\<not> Folded s" using s(1) by (auto simp: contenders_def Let_def split: if_splits)
  with seats_indexed_inj [OF assms(1), of s "Seats st ! i"] seats_indexed_nth [OF assms(1,2)] assms(2) s(2)
  have eq: "s = Seats st ! i" by simp
  with \<open>\<not> Folded s\<close> show "\<not> Folded (Seats st ! i)" by simp
  show "lvl \<le> TotalCommit (Seats st ! i) \<or> live_top st < lvl"
  proof (rule disjCI)
    assume "\<not> live_top st < lvl"
    moreover have "?live \<noteq> {}" using \<open>s \<in> set (Seats st)\<close> \<open>\<not> Folded s\<close> by auto
    moreover from this have "live_top st \<in> TotalCommit ` ?live"
      unfolding live_top_def by (intro Max_in) auto
    ultimately have "\<exists>t \<in> ?live. lvl \<le> TotalCommit t" by (auto simp: not_less)
    with s(1) eq show "lvl \<le> TotalCommit (Seats st ! i)" by (auto simp: contenders_def Let_def split: if_splits)
  qed
qed

lemma showdown_stack:
  assumes "table_ok st" "scorable st" "i < length (Seats st)"
  shows "Stack (Seats (snd (scoreAndPay st)) ! i)
       = Stack (Seats st ! i) + (\<Sum>l\<leftarrow>layers (commit_levels st) 0. showdown_share st i l)"
  using assms table_ok_nth(2) [OF assms(1,3)] showdown_won_shares [OF assms(2), of i]
  by (simp add: scoreAndPay_eq Stack_receive table_ok_def)


text \<open>A three-way hand with an all-in, a fold after it and a tie, ready to be scored.\<close>

definition showdown_seat :: "nat \<Rightarrow> int \<Rightarrow> int \<Rightarrow> bool \<Rightarrow> card list \<Rightarrow> seat" where
  "showdown_seat i stack amt folded hole = \<lparr>SeatIndex = i, Stack = stack, Hole = hole, Folded = folded,
     AllIn = (stack = 0), StreetCommit = 0, TotalCommit = amt, ActedThisStreet = True\<rparr>"

definition showdown_hand :: hand where
  "showdown_hand = sample_hand\<lparr>Done := True, Street := Complete, ToAct := -1,
     Board := drop 6 sample_deck,
     Seats := [showdown_seat 0 0 25 False [\<lparr>Rank = 14, Suit = 0\<rparr>, \<lparr>Rank = 14, Suit = 1\<rparr>],
               showdown_seat 1 10 61 False [\<lparr>Rank = 13, Suit = 0\<rparr>, \<lparr>Rank = 13, Suit = 1\<rparr>],
               showdown_seat 2 40 61 True [\<lparr>Rank = 7, Suit = 2\<rparr>, \<lparr>Rank = 2, Suit = 3\<rparr>]]\<rparr>"

lemma showdown_hand_ok: "table_ok showdown_hand" "scorable showdown_hand" "1 < length (Seats showdown_hand)"
proof -
  show "table_ok showdown_hand" unfolding table_ok_def seats_indexed_def by code_simp
  have "\<forall>s \<in> set (Seats showdown_hand). 5 \<le> length (Hole s @ Board showdown_hand)
      \<and> (\<forall>c \<in> set (Hole s @ Board showdown_hand). Valid c)" "UseHole showdown_hand \<le> 0"
    "\<exists>s \<in> set (Seats showdown_hand). \<not> Folded s" by code_simp+
  then show "scorable showdown_hand" using holdem_scores by (auto simp: scorable_def)
  show "1 < length (Seats showdown_hand)" by code_simp
qed


lemma dead_money:
  assumes "table_ok st" "scorable st"
  shows "(\<Sum>l\<leftarrow>layers (commit_levels st) 0. if live_top st < snd l then layer_pot st l else 0)
       = (\<Sum>s\<leftarrow>Seats st. max 0 (TotalCommit s - live_top st))"
proof -
  let ?ls = "layers (commit_levels st) 0" and ?top = "live_top st" and ?live = "{s \<in> set (Seats st). \<not> Folded s}"
  have "?live \<noteq> {}" using assms(2) by (auto simp: scorable_def)
  then have "?top \<in> TotalCommit ` ?live" unfolding live_top_def by (intro Max_in) auto
  then have "?top = 0 \<or> ?top \<in> set (commit_levels st)"
    using commit_nonneg [OF assms(1)] by (auto simp: set_commit_levels order_le_less)
  from layer_pots_upto [OF commit_nonneg [OF assms(1)] this]
  have low: "(\<Sum>l\<leftarrow>?ls. if snd l \<le> ?top then layer_pot st l else 0) = (\<Sum>s\<leftarrow>Seats st. min (TotalCommit s) ?top)" .
  have "(\<Sum>l\<leftarrow>?ls. if snd l \<le> ?top then layer_pot st l else 0) + (\<Sum>l\<leftarrow>?ls. if ?top < snd l then layer_pot st l else 0)
      = sum_list (map (layer_pot st) ?ls)"
    unfolding sum_list_addf [symmetric] by (intro arg_cong [where f = sum_list] map_cong) auto
  also have "\<dots> = sum_list (map TotalCommit (Seats st))"
    using layer_pots_total commit_nonneg [OF assms(1)] by auto
  also have "\<dots> = (\<Sum>s\<leftarrow>Seats st. min (TotalCommit s) ?top) + (\<Sum>s\<leftarrow>Seats st. max 0 (TotalCommit s - ?top))"
    unfolding sum_list_addf [symmetric] by (intro arg_cong [where f = sum_list] map_cong) auto
  finally show ?thesis using low by simp
qed



end
