(* ===== verification/Table.thy ===== *)
theory Table
  imports Poker_Prelude
begin

text \<open>
  The table service of \<^verbatim>\<open>internal/protocol/table/table.go\<close>: the roster, the funding
  precondition and the life cycle of one table. Every method that takes the write lock is one
  atomic function on the table; the clock \<open>now\<close> is an argument (nanoseconds). A seat pointer of
  \<open>byIdentity\<close> is the seat's position in \<open>seats\<close>. Identity keys are hex, so \<open>ToLower\<close> and
  \<open>TrimSpace\<close> are modelled on ASCII characters.
\<close>

section \<open>Strings\<close>

definition lower_char :: "char \<Rightarrow> char" where
  "lower_char c = (if 65 \<le> (of_char c :: nat) \<and> (of_char c :: nat) \<le> 90
                   then char_of ((of_char c :: nat) + 32) else c)"

definition ToLower :: "string \<Rightarrow> string" where
  "ToLower = map lower_char"

definition space_char :: "char \<Rightarrow> bool" where
  "space_char c \<longleftrightarrow> (of_char c :: nat) \<in> {9, 10, 11, 12, 13, 32}"

definition TrimSpace :: "string \<Rightarrow> string" where
  "TrimSpace s = rev (dropWhile space_char (rev (dropWhile space_char s)))"

definition norm_key :: "string \<Rightarrow> string" where
  "norm_key k = ToLower (TrimSpace k)"

section \<open>Terms and state\<close>

datatype phase = PhaseOpen | PhaseFunding | PhaseDealing | PhaseBetting | PhaseSettling
  | PhaseClosed | PhaseStalled

definition TMinSeats :: int where "TMinSeats = 2"
definition TMaxSeats :: int where "TMaxSeats = 6"

record terms =
  TermsTableID :: string
  BuyInSatoshis :: u64
  TermsSmallBlind :: u64
  TermsBigBlind :: u64
  TermsSeats :: int
  RefundLockHeight :: u32

datatype terms_error = TableIDRequired | SeatsOutOfBounds int | BuyInNotPositive
  | TermsBlindsNotPositive | TermsSmallExceedsBig | BigBlindExceedsBuyIn | RefundHeightRequired

text \<open>\<open>errors.Join\<close> collects every complaint; no complaint is the nil error.\<close>

definition Terms_Validate :: "terms \<Rightarrow> terms_error list" where
  "Terms_Validate t =
     (if TermsTableID t = '''' then [TableIDRequired] else [])
   @ (if TermsSeats t < TMinSeats \<or> TermsSeats t > TMaxSeats then [SeatsOutOfBounds (TermsSeats t)] else [])
   @ (if BuyInSatoshis t = 0 then [BuyInNotPositive] else [])
   @ (if TermsBigBlind t = 0 \<or> TermsSmallBlind t = 0 then [TermsBlindsNotPositive] else [])
   @ (if TermsSmallBlind t > TermsBigBlind t then [TermsSmallExceedsBig] else [])
   @ (if TermsBigBlind t > BuyInSatoshis t then [BigBlindExceedsBuyIn] else [])
   @ (if RefundLockHeight t = 0 then [RefundHeightRequired] else [])"

record tseat =
  TIndex :: nat
  IdentityKey :: string
  Funded :: bool
  RefundHeld :: bool
  JoinedAt :: int
  LastSeen :: int

record poker_table =
  tterms :: terms
  tphase :: phase
  tseats :: "tseat list"
  byIdentity :: "string \<rightharpoonup> nat"
  stallReason :: string
  stalledSeat :: int

datatype table_error = InvalidTerms "terms_error list" | IdentityRequired | SeatsClosed phase
  | AlreadySeated string | TableFull int | NoSeat string | SeatMissing int | NotSeat string int
  | RosterNotOpen phase | TooFewTaken nat | NotFundingPhase phase | NoRefundYet int
  | NotDealable phase | PartialPot | BadTransition phase phase | StallReasonRequired | ClosedCannotStall

section \<open>Operations\<close>

definition Table_New :: "terms \<Rightarrow> (table_error, poker_table) res" where
  "Table_New t =
     (if Terms_Validate t \<noteq> [] then Inl (InvalidTerms (Terms_Validate t))
      else Inr \<lparr>tterms = t, tphase = PhaseOpen, tseats = [], byIdentity = Map.empty,
                stallReason = '''', stalledSeat = -1\<rparr>)"

definition seat_exists :: "poker_table \<Rightarrow> int \<Rightarrow> bool" where
  "seat_exists t i \<longleftrightarrow> \<not> (i < 0 \<or> i \<ge> int (length (tseats t)))"

definition Join :: "poker_table \<Rightarrow> int \<Rightarrow> string \<Rightarrow> (table_error, nat) res \<times> poker_table" where
  "Join t now identityKey =
     (let key = norm_key identityKey
      in if key = '''' then (Inl IdentityRequired, t)
         else if tphase t \<noteq> PhaseOpen then (Inl (SeatsClosed (tphase t)), t)
         else if byIdentity t key \<noteq> None then (Inl (AlreadySeated key), t)
         else if int (length (tseats t)) \<ge> TermsSeats (tterms t) then (Inl (TableFull (TermsSeats (tterms t))), t)
         else let i = length (tseats t);
                  s = \<lparr>TIndex = i, IdentityKey = key, Funded = False, RefundHeld = False,
                       JoinedAt = now, LastSeen = now\<rparr>
           in (Inr i, t\<lparr>tseats := tseats t @ [s], byIdentity := (byIdentity t)(key \<mapsto> i)\<rparr>))"

definition SeatOf :: "poker_table \<Rightarrow> string \<Rightarrow> (table_error, nat) res" where
  "SeatOf t identityKey =
     (case byIdentity t (norm_key identityKey) of
        None \<Rightarrow> Inl (NoSeat (norm_key identityKey))
      | Some i \<Rightarrow> Inr (TIndex (tseats t ! i)))"

definition Authorise :: "poker_table \<Rightarrow> int \<Rightarrow> string \<Rightarrow> table_error option" where
  "Authorise t i identityKey =
     (let key = norm_key identityKey
      in if \<not> seat_exists t i then Some (SeatMissing i)
         else if IdentityKey (tseats t ! nat i) \<noteq> key then Some (NotSeat key i)
         else None)"

definition update_seat :: "poker_table \<Rightarrow> int \<Rightarrow> (tseat \<Rightarrow> tseat) \<Rightarrow> poker_table" where
  "update_seat t i f = t\<lparr>tseats := (tseats t)[nat i := f (tseats t ! nat i)]\<rparr>"

definition Touch :: "poker_table \<Rightarrow> int \<Rightarrow> int \<Rightarrow> (table_error, poker_table) outcome" where
  "Touch t now i =
     (if \<not> seat_exists t i then (Some (SeatMissing i), t)
      else (None, update_seat t i (\<lambda>s. s\<lparr>LastSeen := now\<rparr>)))"

definition CloseRoster :: "poker_table \<Rightarrow> (table_error, poker_table) outcome" where
  "CloseRoster t =
     (if tphase t \<noteq> PhaseOpen then (Some (RosterNotOpen (tphase t)), t)
      else if int (length (tseats t)) < TMinSeats then (Some (TooFewTaken (length (tseats t))), t)
      else (None, t\<lparr>tphase := PhaseFunding\<rparr>))"

definition MarkRefundHeld :: "poker_table \<Rightarrow> int \<Rightarrow> (table_error, poker_table) outcome" where
  "MarkRefundHeld t i =
     (if \<not> seat_exists t i then (Some (SeatMissing i), t)
      else (None, update_seat t i (\<lambda>s. s\<lparr>RefundHeld := True\<rparr>)))"

definition MarkFunded :: "poker_table \<Rightarrow> int \<Rightarrow> (table_error, poker_table) outcome" where
  "MarkFunded t i =
     (if tphase t \<noteq> PhaseFunding then (Some (NotFundingPhase (tphase t)), t)
      else if \<not> seat_exists t i then (Some (SeatMissing i), t)
      else if \<not> RefundHeld (tseats t ! nat i) then (Some (NoRefundYet i), t)
      else (None, update_seat t i (\<lambda>s. s\<lparr>Funded := True\<rparr>)))"

definition fullyFundedLocked :: "poker_table \<Rightarrow> bool" where
  "fullyFundedLocked t \<longleftrightarrow>
     (if int (length (tseats t)) < TMinSeats then False else list_all Funded (tseats t))"

definition UnfundedSeats :: "poker_table \<Rightarrow> nat list" where
  "UnfundedSeats t = map TIndex (filter (\<lambda>s. \<not> Funded s) (tseats t))"

definition BeginDeal :: "poker_table \<Rightarrow> (table_error, poker_table) outcome" where
  "BeginDeal t =
     (if tphase t \<noteq> PhaseFunding then (Some (NotDealable (tphase t)), t)
      else if \<not> fullyFundedLocked t then (Some PartialPot, t)
      else (None, t\<lparr>tphase := PhaseDealing\<rparr>))"

fun allowed :: "phase \<Rightarrow> phase list" where
  "allowed PhaseOpen = [PhaseFunding, PhaseClosed]"
| "allowed PhaseFunding = [PhaseDealing, PhaseStalled, PhaseClosed]"
| "allowed PhaseDealing = [PhaseBetting, PhaseStalled]"
| "allowed PhaseBetting = [PhaseSettling, PhaseStalled]"
| "allowed PhaseSettling = [PhaseClosed, PhaseStalled]"
| "allowed PhaseStalled = [PhaseClosed]"
| "allowed PhaseClosed = []"

definition Advance :: "poker_table \<Rightarrow> phase \<Rightarrow> (table_error, poker_table) outcome" where
  "Advance t to =
     (if List.member (allowed (tphase t)) to then (None, t\<lparr>tphase := to\<rparr>)
      else (Some (BadTransition (tphase t) to), t))"

definition Stall :: "poker_table \<Rightarrow> int \<Rightarrow> string \<Rightarrow> (table_error, poker_table) outcome" where
  "Stall t i reason =
     (if reason = '''' then (Some StallReasonRequired, t)
      else if tphase t = PhaseClosed then (Some ClosedCannotStall, t)
      else if i \<ge> int (length (tseats t)) then (Some (SeatMissing i), t)
      else (None, t\<lparr>tphase := PhaseStalled, stalledSeat := i, stallReason := reason\<rparr>))"

definition StallInfo :: "poker_table \<Rightarrow> int \<times> string" where
  "StallInfo t = (stalledSeat t, stallReason t)"

definition TimedOutSeats :: "poker_table \<Rightarrow> int \<Rightarrow> int \<Rightarrow> nat list" where
  "TimedOutSeats t now limit =
     map TIndex (filter (\<lambda>s. LastSeen s < now - limit) (tseats t))"

definition Table_Close :: "poker_table \<Rightarrow> poker_table" where
  "Table_Close t = t\<lparr>tphase := PhaseClosed\<rparr>"

text \<open>The loop writes \<open>out[s.Index]\<close>; an index outside the slice would be a panic (\<open>None\<close>).\<close>

fun place_keys :: "tseat list \<Rightarrow> string list \<Rightarrow> string list option" where
  "place_keys [] out = Some out"
| "place_keys (s # ss) out =
     (if TIndex s < length out then place_keys ss (out[TIndex s := IdentityKey s]) else None)"

definition IdentityKeys :: "poker_table \<Rightarrow> string list option" where
  "IdentityKeys t = place_keys (tseats t) (replicate (length (tseats t)) '''')"

end
