(* ===== verification/Table_Props.thy ===== *)
theory Table_Props
  imports Table "HOL-Library.Sublist"
begin

text \<open>
  What the table service guarantees to the seats, over any sequence of its operations: one seat per
  identity, no stake without a refund, a life cycle that only moves forward, frozen terms and a stable
  key order; and where the guarantee against dealing on a partial pot depends on the caller.
\<close>

section \<open>Operations as events\<close>

datatype table_op = OJoin int string | OTouch int int | OCloseRoster | ORefundHeld int | OFunded int
  | OBeginDeal | OAdvance phase | OStall int string | OClose

fun table_step :: "poker_table \<Rightarrow> table_op \<Rightarrow> poker_table" where
  "table_step t (OJoin now k) = snd (Join t now k)"
| "table_step t (OTouch now i) = snd (Touch t now i)"
| "table_step t OCloseRoster = snd (CloseRoster t)"
| "table_step t (ORefundHeld i) = snd (MarkRefundHeld t i)"
| "table_step t (OFunded i) = snd (MarkFunded t i)"
| "table_step t OBeginDeal = snd (BeginDeal t)"
| "table_step t (OAdvance p) = snd (Advance t p)"
| "table_step t (OStall i r) = snd (Stall t i r)"
| "table_step t OClose = Table_Close t"

lemmas table_ops = Join_def Touch_def CloseRoster_def MarkRefundHeld_def MarkFunded_def BeginDeal_def
  Advance_def Stall_def Table_Close_def Let_def

section \<open>The invariant\<close>

definition roster_ok :: "poker_table \<Rightarrow> bool" where
  "roster_ok t \<longleftrightarrow>
     map TIndex (tseats t) = [0..<length (tseats t)]
   \<and> (\<forall>i < length (tseats t). byIdentity t (IdentityKey (tseats t ! i)) = Some i)
   \<and> (\<forall>k i. byIdentity t k = Some i \<longrightarrow> i < length (tseats t) \<and> IdentityKey (tseats t ! i) = k)
   \<and> (\<forall>s \<in> set (tseats t). IdentityKey s \<noteq> '''' \<and> (Funded s \<longrightarrow> RefundHeld s))
   \<and> int (length (tseats t)) \<le> TermsSeats (tterms t) \<and> Terms_Validate (tterms t) = []"

text \<open>The writes to a seat leave its identity alone, so the index of identities stays right.\<close>

lemma roster_ok_update:
  assumes t: "roster_ok t" and i: "seat_exists t i"
    and f: "TIndex (f (tseats t ! nat i)) = TIndex (tseats t ! nat i)"
      "IdentityKey (f (tseats t ! nat i)) = IdentityKey (tseats t ! nat i)"
      "Funded (f (tseats t ! nat i)) \<Longrightarrow> RefundHeld (f (tseats t ! nat i))"
  shows "roster_ok (update_seat t i f)"
proof -
  let ?ss = "(tseats t)[nat i := f (tseats t ! nat i)]"
  have lt: "nat i < length (tseats t)" using i by (auto simp: seat_exists_def)
  have "map TIndex ?ss = map TIndex (tseats t)" by (rule map_nth_update_same) (rule f(1))
  moreover have key: "IdentityKey (?ss ! k) = IdentityKey (tseats t ! k)" for k
    using f(2) lt by (cases "k = nat i") auto
  moreover have "IdentityKey s \<noteq> '''' \<and> (Funded s \<longrightarrow> RefundHeld s)" if "s \<in> set ?ss" for s
    using set_update_subset_insert [THEN subsetD, OF that] t f nth_mem [OF lt] by (auto simp: roster_ok_def)
  ultimately show ?thesis using t by (simp add: roster_ok_def update_seat_def)
qed

lemma roster_ok_phase: "roster_ok t \<Longrightarrow> roster_ok (t\<lparr>tphase := p\<rparr>)"
  by (simp add: roster_ok_def)

lemma roster_ok_Join:
  assumes "roster_ok t"
  shows "roster_ok (snd (Join t now k))"
proof (cases "snd (Join t now k) = t")
  case True
  with assms show ?thesis by simp
next
  case False
  define s where "s = \<lparr>TIndex = length (tseats t), IdentityKey = norm_key k, Funded = False, RefundHeld = False,
       JoinedAt = now, LastSeen = now\<rparr>"
  define t' where "t' = t\<lparr>tseats := tseats t @ [s], byIdentity := (byIdentity t)(norm_key k \<mapsto> length (tseats t))\<rparr>"
  have new: "norm_key k \<noteq> ''''" "byIdentity t (norm_key k) = None"
    "int (length (tseats t)) < TermsSeats (tterms t)" and J: "snd (Join t now k) = t'"
    using False by (auto simp: Join_def Let_def t'_def s_def split: if_splits)
  have old: "byIdentity t (IdentityKey (tseats t ! i)) = Some i" if "i < length (tseats t)" for i
    using assms that by (simp add: roster_ok_def)
  then have neq: "IdentityKey (tseats t ! i) \<noteq> norm_key k" if "i < length (tseats t)" for i
    using new(2) that by (metis option.distinct(1))
  have "\<forall>i < length (tseats t'). byIdentity t' (IdentityKey (tseats t' ! i)) = Some i"
    using old neq by (auto simp: t'_def s_def nth_append less_Suc_eq)
  moreover have "i < length (tseats t') \<and> IdentityKey (tseats t' ! i) = k'" if "byIdentity t' k' = Some i" for k' i
  proof (cases "k' = norm_key k")
    case True
    with that show ?thesis by (auto simp: t'_def s_def)
  next
    case False
    with that have "byIdentity t k' = Some i" by (simp add: t'_def)
    with assms have "i < length (tseats t) \<and> IdentityKey (tseats t ! i) = k'" by (simp add: roster_ok_def)
    then show ?thesis by (simp add: t'_def nth_append)
  qed
  moreover have "map TIndex (tseats t') = [0..<length (tseats t')]"
    using assms by (simp add: t'_def s_def roster_ok_def)
  ultimately show ?thesis using assms new unfolding J by (auto simp: roster_ok_def t'_def s_def)
qed

lemma table_step_roster:
  assumes "roster_ok t"
  shows "roster_ok (table_step t e)"
proof (cases e)
  case (OJoin now k)
  with assms show ?thesis by (simp add: roster_ok_Join)
next
  case (OFunded i)
  with assms show ?thesis
    by (auto simp: MarkFunded_def intro!: roster_ok_update)
next
  case (OStall i r)
  with assms show ?thesis by (simp add: Stall_def roster_ok_def)
qed (use assms in \<open>auto simp: Touch_def CloseRoster_def MarkRefundHeld_def BeginDeal_def Advance_def
       Table_Close_def intro!: roster_ok_update roster_ok_phase, (auto simp: roster_ok_def seat_exists_def)?\<close>)

text \<open>How far along a table is; a stall and the close are the last stages.\<close>

fun phase_rank :: "phase \<Rightarrow> nat" where
  "phase_rank PhaseOpen = 0"
| "phase_rank PhaseFunding = 1"
| "phase_rank PhaseDealing = 2"
| "phase_rank PhaseBetting = 3"
| "phase_rank PhaseSettling = 4"
| "phase_rank PhaseStalled = 5"
| "phase_rank PhaseClosed = 6"

lemma phase_rank_le: "phase_rank p \<le> 6" "phase_rank p = 6 \<longleftrightarrow> p = PhaseClosed" "p \<noteq> PhaseClosed \<Longrightarrow> phase_rank p \<le> 5"
  by (cases p; simp)+

lemma allowed_rank: "p' \<in> set (allowed p) \<Longrightarrow> phase_rank p < phase_rank p'"
  by (cases p) auto

lemma table_step_rank: "phase_rank (tphase t) \<le> phase_rank (tphase (table_step t e))"
  using phase_rank_le [of "tphase t"] allowed_rank [of _ "tphase t"]
  by (cases e) (auto simp: table_ops update_seat_def order_less_imp_le)

interpretation tables: monotone_machine table_step roster_ok "\<lambda>t. phase_rank (tphase t)"
  by unfold_locales (simp_all add: table_step_roster table_step_rank)

lemma Table_New_ok: "Table_New tm = Inr t \<Longrightarrow> roster_ok t \<and> tphase t = PhaseOpen \<and> tterms t = tm \<and> tseats t = []"
  by (auto simp: Table_New_def roster_ok_def TMinSeats_def Terms_Validate_def split: if_splits)

lemma reachable_roster: "Table_New tm = Inr t \<Longrightarrow> roster_ok (run table_step t ops)"
  using tables.run_inv Table_New_ok by blast


section \<open>One seat per identity\<close>

lemma Authorise_iff_SeatOf:
  assumes "roster_ok t"
  shows "Authorise t (int i) k = None \<longleftrightarrow> SeatOf t k = Inr i"
proof -
  have ix: "TIndex (tseats t ! j) = j" if "j < length (tseats t)" for j
    using assms that unfolding roster_ok_def by (metis add_0 diff_zero length_map nth_map nth_upt)
  show ?thesis
  proof (cases "byIdentity t (norm_key k)")
    case None
    then have "\<forall>j < length (tseats t). IdentityKey (tseats t ! j) \<noteq> norm_key k"
      using assms unfolding roster_ok_def by (metis option.distinct(1))
    with None show ?thesis by (auto simp: Authorise_def SeatOf_def Let_def seat_exists_def)
  next
    case (Some j)
    then have j: "j < length (tseats t)" "IdentityKey (tseats t ! j) = norm_key k"
      using assms by (auto simp: roster_ok_def)
    have "IdentityKey (tseats t ! i) = norm_key k \<longleftrightarrow> i = j" if "i < length (tseats t)"
      using assms Some j that unfolding roster_ok_def by (metis option.inject)
    with Some j ix show ?thesis by (auto simp: Authorise_def SeatOf_def Let_def seat_exists_def)
  qed
qed

lemma roster_distinct:
  assumes "roster_ok t"
  shows "distinct (map IdentityKey (tseats t))"
  using assms unfolding roster_ok_def distinct_conv_nth by (metis length_map nth_map option.inject)

text \<open>
  C34: one seat per identity. After any sequence of operations on a new table, the seats belong to
  different, non-empty identities and are no more than the terms say; and a message is authorised for a
  seat exactly when that seat is the one its identity holds, so nobody can act as another or hold two
  hands.
\<close>

theorem one_seat_per_identity:
  assumes "Table_New tm = Inr t0" and "t = run table_step t0 ops"
  shows "distinct (map IdentityKey (tseats t)) \<and> '''' \<notin> set (map IdentityKey (tseats t))
     \<and> int (length (tseats t)) \<le> TermsSeats (tterms t)
     \<and> (Authorise t (int i) k = None \<longleftrightarrow> SeatOf t k = Inr i)"
  using reachable_roster [OF assms(1), of ops] roster_distinct [of t] Authorise_iff_SeatOf [of t i k] assms(2)
  by (auto simp: roster_ok_def)

definition sample_terms :: terms where
  "sample_terms = \<lparr>TermsTableID = ''t1'', BuyInSatoshis = 1000, TermsSmallBlind = 5, TermsBigBlind = 10,
     TermsSeats = 2, RefundLockHeight = 900000\<rparr>"

definition sample_table :: poker_table where
  "sample_table = \<lparr>tterms = sample_terms, tphase = PhaseOpen, tseats = [], byIdentity = Map.empty,
     stallReason = '''', stalledSeat = -1\<rparr>"

definition two_join :: "table_op list" where
  "two_join = [OJoin 1 ''02AA'', OJoin 2 '' 02bb '', OJoin 3 ''02aa'']"

lemma sample_table_new: "Table_New sample_terms = Inr sample_table"
proof -
  have "Terms_Validate sample_terms = []" by code_simp
  then show ?thesis by (simp add: Table_New_def sample_table_def)
qed

theorem one_seat_per_identity_witness:
  "Table_New sample_terms = Inr sample_table
   \<and> map IdentityKey (tseats (run table_step sample_table two_join)) = [''02aa'', ''02bb'']
   \<and> distinct (map IdentityKey (tseats (run table_step sample_table two_join)))
   \<and> (Authorise (run table_step sample_table two_join) (int 1) ''02BB'' = None
      \<longleftrightarrow> SeatOf (run table_step sample_table two_join) ''02BB'' = Inr 1)"
proof -
  have "map IdentityKey (tseats (run table_step sample_table two_join)) = [''02aa'', ''02bb'']"
    by code_simp
  with one_seat_per_identity [OF sample_table_new refl, of two_join 1 "''02BB''"] sample_table_new
  show ?thesis by simp
qed

section \<open>No stake without a refund, no hand on a partial pot\<close>

text \<open>The phases in which a hand is on.\<close>

definition playing :: "phase \<Rightarrow> bool" where
  "playing p \<longleftrightarrow> p \<in> {PhaseDealing, PhaseBetting, PhaseSettling}"

definition pot_complete :: "poker_table \<Rightarrow> bool" where
  "pot_complete t \<longleftrightarrow> (playing (tphase t) \<longrightarrow> 2 \<le> length (tseats t) \<and> (\<forall>s \<in> set (tseats t). Funded s))"

lemma table_step_pot:
  assumes "pot_complete t" "e \<noteq> OAdvance PhaseDealing"
  shows "pot_complete (table_step t e)"
proof (cases e)
  case (OAdvance p)
  have "playing p \<Longrightarrow> p \<noteq> PhaseDealing \<Longrightarrow> p \<in> set (allowed q) \<Longrightarrow> playing q" for q
    by (cases q) (auto simp: playing_def)
  with OAdvance assms show ?thesis by (auto simp: Advance_def pot_complete_def)
next
  case (OFunded i)
  with assms show ?thesis
    by (auto simp: MarkFunded_def pot_complete_def playing_def update_seat_def)
next
  case OBeginDeal
  with assms show ?thesis
    by (auto simp: BeginDeal_def fullyFundedLocked_def pot_complete_def list_all_iff TMinSeats_def)
next
  case (OTouch now i)
  have "Funded s" if "\<forall>s \<in> set (tseats t). Funded s" "seat_exists t i"
    "s \<in> set ((tseats t)[nat i := (tseats t ! nat i)\<lparr>LastSeen := now\<rparr>])" for s
    using set_update_subset_insert [THEN subsetD, OF that(3)] that(1,2) nth_mem [of "nat i" "tseats t"]
    by (auto simp: seat_exists_def)
  with OTouch assms show ?thesis by (auto simp: Touch_def pot_complete_def update_seat_def)
next
  case (ORefundHeld i)
  have "Funded s" if "\<forall>s \<in> set (tseats t). Funded s" "seat_exists t i"
    "s \<in> set ((tseats t)[nat i := (tseats t ! nat i)\<lparr>RefundHeld := True\<rparr>])" for s
    using set_update_subset_insert [THEN subsetD, OF that(3)] that(1,2) nth_mem [of "nat i" "tseats t"]
    by (auto simp: seat_exists_def)
  with ORefundHeld assms show ?thesis by (auto simp: MarkRefundHeld_def pot_complete_def update_seat_def)
qed (use assms in \<open>auto simp: Join_def CloseRoster_def Stall_def Table_Close_def Let_def pot_complete_def playing_def\<close>)


lemma run_pot_complete:
  "pot_complete t \<Longrightarrow> OAdvance PhaseDealing \<notin> set ops \<Longrightarrow> pot_complete (run table_step t ops)"
proof (induction ops arbitrary: t)
  case (Cons e ops)
  have "pot_complete (table_step t e)" using Cons.prems by (intro table_step_pot) auto
  with Cons show ?case by simp
qed simp

text \<open>
  C26: the funding rules. After any sequence of operations every seat whose buy-in is recorded holds its
  refund. If in addition the dealing phase is only ever entered through \<open>BeginDeal\<close> (never by
  \<open>Advance\<close>), then whenever a hand is on, at least two seats are taken and every one of them is funded.
\<close>

theorem funding_rules:
  assumes "Table_New tm = Inr t0" and "t = run table_step t0 ops"
  shows "(\<forall>s \<in> set (tseats t). Funded s \<longrightarrow> RefundHeld s)
     \<and> (OAdvance PhaseDealing \<notin> set ops \<and> playing (tphase t)
        \<longrightarrow> 2 \<le> length (tseats t) \<and> (\<forall>s \<in> set (tseats t). Funded s \<and> RefundHeld s))"
proof -
  have r: "\<forall>s \<in> set (tseats t). Funded s \<longrightarrow> RefundHeld s"
    using reachable_roster [OF assms(1), of ops] assms(2) by (simp add: roster_ok_def)
  have "pot_complete t0" using Table_New_ok [OF assms(1)] by (simp add: pot_complete_def playing_def)
  then have "OAdvance PhaseDealing \<notin> set ops \<Longrightarrow> pot_complete t" using run_pot_complete assms(2) by simp
  with r show ?thesis by (auto simp: pot_complete_def)
qed

definition play_ops :: "table_op list" where
  "play_ops = [OJoin 1 ''02aa'', OJoin 2 ''02bb'', OCloseRoster, ORefundHeld 0, OFunded 0, OFunded 1,
     ORefundHeld 1, OBeginDeal, OFunded 1, OBeginDeal, OAdvance PhaseBetting]"

theorem funding_rules_witness:
  "Table_New sample_terms = Inr sample_table \<and> tphase (run table_step sample_table play_ops) = PhaseBetting
   \<and> list_all (\<lambda>s. Funded s \<and> RefundHeld s) (tseats (run table_step sample_table play_ops))"
proof -
  have "tphase (run table_step sample_table play_ops) = PhaseBetting" by code_simp
  moreover have "OAdvance PhaseDealing \<notin> set play_ops" by (simp add: play_ops_def)
  ultimately show ?thesis
    using funding_rules [OF sample_table_new refl, of play_ops] sample_table_new by (simp add: playing_def list_all_iff)
qed

text \<open>
  \<open>Advance\<close> does not check what \<open>CloseRoster\<close> and \<open>BeginDeal\<close> check: from any freshly made table
  two calls of it reach the dealing phase with nobody seated and nothing funded.
\<close>

theorem Advance_skips_funding:
  assumes "Table_New tm = Inr t"
  shows "let t' = run table_step t [OAdvance PhaseFunding, OAdvance PhaseDealing]
     in tphase t' = PhaseDealing \<and> tseats t' = [] \<and> \<not> fullyFundedLocked t' \<and> fst (BeginDeal (snd (Advance t PhaseFunding))) = Some PartialPot"
  using Table_New_ok [OF assms]
  by (simp add: Advance_def fullyFundedLocked_def TMinSeats_def BeginDeal_def)

theorem Advance_skips_funding_witness:
  "Table_New sample_terms = Inr sample_table
   \<and> tphase (run table_step sample_table [OAdvance PhaseFunding, OAdvance PhaseDealing]) = PhaseDealing"
  using Advance_skips_funding [OF sample_table_new] sample_table_new by (simp add: Let_def)

section \<open>Life cycle, terms and key order\<close>

lemma place_keys_eq:
  assumes "map TIndex ss = [k..<k + length ss]" "length out = k + length ss"
  shows "place_keys ss out = Some (take k out @ map IdentityKey ss)"
  using assms
proof (induction ss arbitrary: k out)
  case (Cons s ss)
  have ix: "TIndex s = k" "map TIndex ss = [Suc k..<Suc k + length ss]"
    using Cons.prems(1) by (simp_all add: upt_conv_Cons del: upt_Suc)
  have "place_keys ss (out[k := IdentityKey s]) = Some (take (Suc k) (out[k := IdentityKey s]) @ map IdentityKey ss)"
    using Cons.IH [OF ix(2)] Cons.prems(2) by simp
  with ix(1) Cons.prems(2) show ?case by (simp add: take_Suc_conv_app_nth take_update_cancel)
qed simp

lemma IdentityKeys_eq: "roster_ok t \<Longrightarrow> IdentityKeys t = Some (map IdentityKey (tseats t))"
  using place_keys_eq [of "tseats t" 0 "replicate (length (tseats t)) ''''"]
  by (simp add: IdentityKeys_def roster_ok_def)

lemma table_step_frame:
  "tterms (table_step t e) = tterms t
   \<and> prefix (map IdentityKey (tseats t)) (map IdentityKey (tseats (table_step t e)))
   \<and> (tphase t \<noteq> PhaseOpen \<longrightarrow> map IdentityKey (tseats (table_step t e)) = map IdentityKey (tseats t))"
proof -
  have upd: "map IdentityKey ((tseats t)[i := f (tseats t ! i)]) = map IdentityKey (tseats t)"
    if "\<And>s. IdentityKey (f s) = IdentityKey s" for i f
    using that by (intro map_nth_update_same)
  show ?thesis by (cases e) (auto simp: table_ops update_seat_def upd)
qed

lemma run_frame:
  "tterms (run table_step t ops) = tterms t
   \<and> prefix (map IdentityKey (tseats t)) (map IdentityKey (tseats (run table_step t ops)))
   \<and> (tphase t \<noteq> PhaseOpen \<longrightarrow> map IdentityKey (tseats (run table_step t ops)) = map IdentityKey (tseats t))"
proof (induction ops arbitrary: t)
  case (Cons e ops)
  have "tphase t \<noteq> PhaseOpen \<Longrightarrow> tphase (table_step t e) \<noteq> PhaseOpen"
    using table_step_rank [of t e] by (cases "tphase t") auto
  with Cons [of "table_step t e"] table_step_frame [of t e] show ?case
    by (auto intro: prefix_order.order_trans)
qed simp

text \<open>
  C35: a table only moves forward. Over any operations the terms are the advertised ones, the phase never
  goes back (a closed table stays closed, a stalled one can only close), and the identity keys, whose
  order is the pot script's key order, are only ever extended, and not at all once the roster is fixed.
\<close>

theorem table_moves_forward:
  assumes "Table_New tm = Inr t0" and "t = run table_step t0 ops"
  shows "tterms (run table_step t later) = tm
     \<and> phase_rank (tphase t) \<le> phase_rank (tphase (run table_step t later))
     \<and> IdentityKeys (run table_step t later) = Some (map IdentityKey (tseats (run table_step t later)))
     \<and> prefix (map IdentityKey (tseats t)) (map IdentityKey (tseats (run table_step t later)))
     \<and> (tphase t \<noteq> PhaseOpen \<longrightarrow> IdentityKeys (run table_step t later) = IdentityKeys t)"
proof -
  have r: "roster_ok t" "roster_ok (run table_step t later)"
    using reachable_roster [OF assms(1)] tables.run_inv assms(2) by auto
  show ?thesis
    using run_frame [of t0 ops] run_frame [of t later] tables.run_rank [OF r(1), of later] Table_New_ok [OF assms(1)]
      IdentityKeys_eq [OF r(1)] IdentityKeys_eq [OF r(2)] assms(2) by auto
qed

theorem table_moves_forward_witness:
  "IdentityKeys (run table_step (run table_step sample_table play_ops) [OJoin 9 ''02cc'', OStall 1 ''quiet''])
     = IdentityKeys (run table_step sample_table play_ops)
   \<and> tphase (run table_step sample_table play_ops) \<noteq> PhaseOpen"
proof -
  have "tphase (run table_step sample_table play_ops) \<noteq> PhaseOpen" by code_simp
  with table_moves_forward [OF sample_table_new refl, of play_ops "[OJoin 9 ''02cc'', OStall 1 ''quiet'']"]
  show ?thesis by blast
qed

end
