(* ===== verification/Transport.thy ===== *)
theory Transport
  imports Poker_Prelude "HOL-Library.AList"
begin

text \<open>
  The message layer of \<^verbatim>\<open>internal/protocol/transport\<close>: the receiving side's de-duplicator
  (transport.go) and the in-process bus (memory.go). A handler is code the caller registers, so it
  is a parameter here: \<open>'h\<close> names it, and \<open>Publish\<close> returns which handlers get which message. The
  goroutines of \<open>Publish\<close> deliver in no particular order, so the deliveries are listed by
  subscription and nothing below depends on their order.
\<close>

section \<open>De-duplication\<close>

record dedup =
  seen :: "string list"
  order :: "string list"
  limit :: int

definition NewDedup :: "int \<Rightarrow> dedup" where
  "NewDedup lim = \<lparr>seen = [], order = [], limit = (if lim \<le> 0 then 4096 else lim)\<rparr>"

text \<open>\<open>seen\<close> is a Go map used as a set: adding a member again changes nothing, deleting removes it.\<close>

definition FirstSeen :: "dedup \<Rightarrow> string \<Rightarrow> bool \<times> dedup" where
  "FirstSeen d mid =
     (if mid = '''' then (True, d)
      else if List.member (seen d) mid then (False, d)
      else let d = d\<lparr>seen := List.insert mid (seen d), order := order d @ [mid]\<rparr>
        in if int (length (order d)) > limit d
           then (True, d\<lparr>order := tl (order d), seen := removeAll (hd (order d)) (seen d)\<rparr>)
           else (True, d))"

definition Dedup_Len :: "dedup \<Rightarrow> nat" where
  "Dedup_Len d = length (seen d)"

section \<open>The in-process transport\<close>

record message =
  MsgTableID :: string
  MsgID :: string
  Payload :: bytes

record 'h memory =
  closed :: bool
  nextID :: u64
  tables :: "(string \<times> (u64 \<times> 'h) list) list"

datatype transport_error = NoTableID | NoHandler | ErrClosed | CtxDone | NoRandom

definition NewMemory :: "'h memory" where
  "NewMemory = \<lparr>closed = False, nextID = 0, tables = []\<rparr>"

definition subscribers :: "'h memory \<Rightarrow> string \<Rightarrow> (u64 \<times> 'h) list" where
  "subscribers m tableID = (case map_of (tables m) tableID of None \<Rightarrow> [] | Some subs \<Rightarrow> subs)"

text \<open>\<open>Subscribe\<close> returns the subscription's id, which is what the unsubscribe closure captures.\<close>

definition Subscribe ::
  "'h memory \<Rightarrow> string \<Rightarrow> 'h option \<Rightarrow> (transport_error, u64) res \<times> 'h memory" where
  "Subscribe m tableID handler =
     (if tableID = '''' then (Inl NoTableID, m)
      else case handler of
             None \<Rightarrow> (Inl NoHandler, m)
           | Some h \<Rightarrow>
               (if closed m then (Inl ErrClosed, m)
                else let i = nextID m + 1
                  in (Inr i, m\<lparr>nextID := i,
                        tables := AList.update tableID (AList.update i h (subscribers m tableID)) (tables m)\<rparr>)))"

definition unsubscribe :: "'h memory \<Rightarrow> string \<Rightarrow> u64 \<Rightarrow> 'h memory" where
  "unsubscribe m tableID i =
     (case map_of (tables m) tableID of
        None \<Rightarrow> m
      | Some subs \<Rightarrow>
          let subs' = AList.delete i subs
          in m\<lparr>tables := (if subs' = [] then AList.delete tableID (tables m)
                          else AList.update tableID subs' (tables m))\<rparr>)"

text \<open>\<open>ctxErr\<close>: the context is done; \<open>rnd\<close>: what \<open>NewID\<close> returns, if the random source can be read.\<close>

definition Publish ::
  "'h memory \<Rightarrow> bool \<Rightarrow> string option \<Rightarrow> string \<Rightarrow> bytes \<Rightarrow> string
     \<Rightarrow> (transport_error, (u64 \<times> 'h \<times> message) list) res" where
  "Publish m ctxErr rnd tableID payload mid =
     (if tableID = '''' then Inl NoTableID
      else if ctxErr then Inl CtxDone
      else case (if mid = '''' then rnd else Some mid) of
             None \<Rightarrow> Inl NoRandom
           | Some mid' \<Rightarrow>
               (if closed m then Inl ErrClosed
                else let msg = \<lparr>MsgTableID = tableID, MsgID = mid', Payload = payload\<rparr>
                  in Inr (map (\<lambda>(i, h). (i, h, msg)) (subscribers m tableID))))"

definition Memory_Close :: "'h memory \<Rightarrow> 'h memory" where
  "Memory_Close m = (if closed m then m else m\<lparr>closed := True, tables := []\<rparr>)"

section \<open>The de-duplicator's window\<close>

text \<open>The ids a de-duplicator let through, in order, are its abstract state; what it retains are the
  last \<open>limit\<close> of them.\<close>

definition last_n :: "nat \<Rightarrow> 'a list \<Rightarrow> 'a list" where
  "last_n n xs = drop (length xs - n) xs"

lemma last_n_snoc:
  "0 < n \<Longrightarrow> last_n n (xs @ [x]) = (if length xs < n then last_n n xs @ [x] else tl (last_n n xs) @ [x])"
proof (cases "length xs < n")
  case False
  assume n: "0 < n"
  have "last_n n (xs @ [x]) = drop (Suc (length xs - n)) xs @ [x]"
    using False n by (simp add: last_n_def Suc_diff_le)
  then show ?thesis using False by (simp add: last_n_def drop_Suc tl_drop)
qed (simp add: last_n_def)

lemma length_last_n: "length (last_n n xs) = min n (length xs)"
  by (simp add: last_n_def)

definition dedup_ok :: "dedup \<Rightarrow> bool" where
  "dedup_ok d \<longleftrightarrow> set (seen d) = set (order d) \<and> distinct (seen d) \<and> distinct (order d)
     \<and> int (length (order d)) \<le> limit d \<and> 0 < limit d \<and> '''' \<notin> set (order d)"

text \<open>One call against the abstract window.\<close>

definition window_first :: "nat \<Rightarrow> string list \<Rightarrow> string \<Rightarrow> bool" where
  "window_first n acc mid \<longleftrightarrow> mid = '''' \<or> mid \<notin> set (last_n n acc)"

definition window_add :: "nat \<Rightarrow> string list \<Rightarrow> string \<Rightarrow> string list" where
  "window_add n acc mid = (if mid \<noteq> '''' \<and> window_first n acc mid then acc @ [mid] else acc)"


lemma FirstSeen_window:
  assumes ok: "dedup_ok d" and acc: "order d = last_n (nat (limit d)) acc"
  shows "fst (FirstSeen d mid) = window_first (nat (limit d)) acc mid"
    and "order (snd (FirstSeen d mid)) = last_n (nat (limit d)) (window_add (nat (limit d)) acc mid)"
    and "dedup_ok (snd (FirstSeen d mid))" and "limit (snd (FirstSeen d mid)) = limit d"
proof -
  let ?n = "nat (limit d)"
  have mem: "List.member (seen d) mid \<longleftrightarrow> mid \<in> set (last_n ?n acc)"
    using ok acc by (simp add: dedup_ok_def)
  have n: "0 < ?n" using ok by (simp add: dedup_ok_def)
  have len: "length (order d) = min ?n (length acc)" using acc by (simp add: length_last_n)
  show "fst (FirstSeen d mid) = window_first ?n acc mid"
    using mem by (auto simp: FirstSeen_def window_first_def Let_def)
  show lim: "limit (snd (FirstSeen d mid)) = limit d" by (simp add: FirstSeen_def Let_def)
  consider (old) "mid = '''' \<or> mid \<in> set (order d)"
    | (room) "mid \<noteq> ''''" "mid \<notin> set (order d)" "length acc < ?n"
    | (full) "mid \<noteq> ''''" "mid \<notin> set (order d)" "?n \<le> length acc" by linarith
  then have *: "order (snd (FirstSeen d mid)) = last_n ?n (window_add ?n acc mid) \<and> dedup_ok (snd (FirstSeen d mid))"
  proof cases
    case old
    then have "FirstSeen d mid = (mid = '''', d)" "window_add ?n acc mid = acc"
      using mem acc by (auto simp: FirstSeen_def window_add_def window_first_def)
    with acc ok show ?thesis by simp
  next
    case room
    then have lt: "\<not> limit d < int (length (order d)) + 1" using len n by linarith
    have F: "snd (FirstSeen d mid) = d\<lparr>seen := mid # seen d, order := order d @ [mid]\<rparr>"
      using room mem acc lt by (simp add: FirstSeen_def Let_def List.insert_def)
    have W: "window_add ?n acc mid = acc @ [mid]" using room acc by (simp add: window_add_def window_first_def)
    have "dedup_ok (snd (FirstSeen d mid))" using F ok room lt by (auto simp: dedup_ok_def)
    then show ?thesis using F W room acc last_n_snoc [OF n, of acc mid] by simp
  next
    case full
    then have ge: "limit d < int (length (order d)) + 1" using len n by linarith
    have ne: "order d \<noteq> []" using full len n by auto
    have F: "snd (FirstSeen d mid) = d\<lparr>seen := removeAll (hd (order d)) (mid # seen d), order := tl (order d) @ [mid]\<rparr>"
      using full mem acc ge ne by (simp add: FirstSeen_def Let_def List.insert_def)
    have W: "window_add ?n acc mid = acc @ [mid]" using full acc by (simp add: window_add_def window_first_def)
    obtain x xs where o: "order d = x # xs" using ne by (cases "order d") auto
    have d: "set (seen d) = insert x (set xs)" "distinct (seen d)" "x \<notin> set xs" "distinct xs"
      "int (length xs) + 1 \<le> limit d" "0 < limit d" "'''' \<notin> set xs"
      using ok o by (simp_all add: dedup_ok_def)
    have m: "mid \<noteq> x" "mid \<notin> set xs" "mid \<notin> set (seen d)" using full o d(1) by simp_all
    have "dedup_ok (snd (FirstSeen d mid))"
      unfolding F o dedup_ok_def using d m full(1) by (simp add: distinct_removeAll)
    then show ?thesis using F W full acc last_n_snoc [OF n, of acc mid] by simp
  qed
  from * show "order (snd (FirstSeen d mid)) = last_n ?n (window_add ?n acc mid)"
    and "dedup_ok (snd (FirstSeen d mid))" by simp_all
qed


fun answers :: "dedup \<Rightarrow> string list \<Rightarrow> bool list" where
  "answers d [] = []"
| "answers d (mid # mids) = fst (FirstSeen d mid) # answers (snd (FirstSeen d mid)) mids"

fun window_answers :: "nat \<Rightarrow> string list \<Rightarrow> string list \<Rightarrow> bool list" where
  "window_answers n acc [] = []"
| "window_answers n acc (mid # mids) = window_first n acc mid # window_answers n (window_add n acc mid) mids"

definition dedup_step :: "dedup \<Rightarrow> string \<Rightarrow> dedup" where
  "dedup_step d mid = snd (FirstSeen d mid)"

lemma answers_window:
  "dedup_ok d \<Longrightarrow> order d = last_n (nat (limit d)) acc \<Longrightarrow>
     answers d mids = window_answers (nat (limit d)) acc mids"
proof (induction mids arbitrary: d acc)
  case (Cons mid mids)
  note step = FirstSeen_window [OF Cons.prems, of mid]
  have "answers (snd (FirstSeen d mid)) mids
      = window_answers (nat (limit d)) (window_add (nat (limit d)) acc mid) mids"
    using Cons.IH [of "snd (FirstSeen d mid)" "window_add (nat (limit d)) acc mid"] step by simp
  with step(1) show ?case by simp
qed simp

interpretation dedups: machine dedup_step dedup_ok
proof
  fix d mid assume ok: "dedup_ok d"
  have "order d = last_n (nat (limit d)) (order d)"
    using ok by (simp add: dedup_ok_def last_n_def le_nat_iff)
  from FirstSeen_window(3) [OF ok this] show "dedup_ok (dedup_step d mid)" by (simp add: dedup_step_def)
qed

lemma NewDedup_ok: "dedup_ok (NewDedup lim)"
  by (simp add: NewDedup_def dedup_ok_def)

lemma limit_run: "limit (run dedup_step d mids) = limit d"
proof (induction mids arbitrary: d)
  case (Cons mid mids)
  have "limit (dedup_step d mid) = limit d" by (simp add: dedup_step_def FirstSeen_def Let_def)
  with Cons show ?case by simp
qed simp

text \<open>
  C37: the de-duplicator is a sliding window. Over any stream of message ids its answers are those of
  the specification that remembers the last \<open>limit\<close> ids it let through: an id is suppressed exactly when
  it is one of them, an empty id never; and it never retains more than \<open>limit\<close> ids.
\<close>

theorem Dedup_refines_window:
  "answers (NewDedup lim) mids = window_answers (nat (if lim \<le> 0 then 4096 else lim)) [] mids
   \<and> int (Dedup_Len (run dedup_step (NewDedup lim) mids)) \<le> (if lim \<le> 0 then 4096 else lim)"
proof
  have "order (NewDedup lim) = last_n (nat (limit (NewDedup lim))) []"
    by (simp add: NewDedup_def last_n_def)
  from answers_window [OF NewDedup_ok this, of mids]
  show "answers (NewDedup lim) mids = window_answers (nat (if lim \<le> 0 then 4096 else lim)) [] mids"
    by (simp add: NewDedup_def)
  let ?d = "run dedup_step (NewDedup lim) mids"
  have "dedup_ok ?d" using dedups.run_inv NewDedup_ok by blast
  moreover from this have "length (seen ?d) = length (order ?d)"
    by (metis dedup_ok_def distinct_card)
  ultimately show "int (Dedup_Len ?d) \<le> (if lim \<le> 0 then 4096 else lim)"
    using limit_run [of "NewDedup lim" mids] by (simp add: Dedup_Len_def dedup_ok_def NewDedup_def)
qed

section \<open>The bus\<close>

text \<open>Subscription ids are handed out in increasing order; they are fresh as long as the 64-bit counter
  has not wrapped.\<close>

definition memory_ok :: "'h memory \<Rightarrow> bool" where
  "memory_ok m \<longleftrightarrow> distinct (map fst (tables m))
     \<and> (\<forall>t subs. map_of (tables m) t = Some subs \<longrightarrow> distinct (map fst subs) \<and> (\<forall>i \<in> fst ` set subs. i \<le> nextID m))"

datatype 'h bus_op = BSubscribe string "'h option" | BUnsubscribe string u64 | BClose

fun bus_step :: "'h memory \<Rightarrow> 'h bus_op \<Rightarrow> 'h memory" where
  "bus_step m (BSubscribe t h) = (if nextID m = - 1 then m else snd (Subscribe m t h))"
| "bus_step m (BUnsubscribe t i) = unsubscribe m t i"
| "bus_step m BClose = Memory_Close m"

lemma subscribers_ok:
  assumes "memory_ok m"
  shows "distinct (map fst (subscribers m t))" "(i, h) \<in> set (subscribers m t) \<Longrightarrow> i \<le> nextID m"
  using assms by (force simp: memory_ok_def subscribers_def split: option.split)+

lemma word_less_plus_one: "(w :: u64) \<noteq> - 1 \<Longrightarrow> w < w + 1"
proof -
  assume "w \<noteq> - 1"
  moreover have "unat (- 1 :: u64) = 2 ^ 64 - 1"
    by (simp add: unsigned_minus_1_eq_mask mask_eq_exp_minus_1)
  ultimately have "unat w \<noteq> 2 ^ 64 - 1" using word_unat_eq_iff [of w "- 1"] by metis
  with unsigned_less [of w, where ?'a = nat] have lt: "unat w + 1 < 2 ^ 64" by simp
  then have "unat (w + 1) = unat w + 1" by (simp add: unat_word_ariths)
  then show "w < w + 1" by (simp add: word_less_nat_alt)
qed

lemma Subscribe_ok:
  assumes ok: "memory_ok m" and n: "nextID m \<noteq> - 1"
  shows "memory_ok (snd (Subscribe m t h))"
proof (cases "snd (Subscribe m t h) = m")
  case True
  with ok show ?thesis by simp
next
  case False
  let ?i = "nextID m + 1"
  obtain g where g: "snd (Subscribe m t h) = m\<lparr>nextID := ?i,
      tables := AList.update t (AList.update ?i g (subscribers m t)) (tables m)\<rparr>"
    using False by (auto simp: Subscribe_def Let_def split: option.splits if_splits)
  have lt: "nextID m < ?i" using word_less_plus_one [OF n] .
  have "distinct (map fst subs) \<and> (\<forall>j \<in> fst ` set subs. j \<le> ?i)"
    if "map_of (AList.update t (AList.update ?i g (subscribers m t)) (tables m)) t' = Some subs" for t' subs
  proof (cases "t' = t")
    case True
    with that have subs: "subs = AList.update ?i g (subscribers m t)" by (simp add: update_conv')
    have "fst ` set subs = insert ?i (fst ` set (subscribers m t))" by (simp add: subs dom_update)
    then show ?thesis using subscribers_ok(1) [OF ok, of t] subscribers_ok(2) [OF ok, of _ _ t] lt
      by (force simp: subs distinct_update)
  next
    case False
    with that have "map_of (tables m) t' = Some subs" by (simp add: update_conv')
    with ok lt show ?thesis unfolding memory_ok_def by (meson order.strict_implies_order order_trans)
  qed
  then show ?thesis using ok unfolding g memory_ok_def by (simp add: distinct_update)
qed

lemma unsubscribe_ok:
  assumes ok: "memory_ok m"
  shows "memory_ok (unsubscribe m t i)"
proof (cases "map_of (tables m) t")
  case (Some subs)
  let ?subs = "AList.delete i subs"
  have "distinct (map fst subs)" "\<forall>j \<in> fst ` set subs. j \<le> nextID m"
    using ok Some unfolding memory_ok_def by blast+
  then have s: "distinct (map fst ?subs)" "\<forall>j \<in> fst ` set ?subs. j \<le> nextID m"
    using dom_delete_subset [of i subs] by (simp add: distinct_delete, blast)
  let ?tabs = "if ?subs = [] then AList.delete t (tables m) else AList.update t ?subs (tables m)"
  have "distinct (map fst subs') \<and> (\<forall>j \<in> fst ` set subs'. j \<le> nextID m)" if "map_of ?tabs t' = Some subs'" for t' subs'
  proof (cases "t' = t")
    case True
    with that s show ?thesis by (auto simp: update_conv' delete_conv' split: if_splits)
  next
    case False
    with that have "map_of (tables m) t' = Some subs'" by (simp add: update_conv' delete_conv' split: if_splits)
    with ok show ?thesis unfolding memory_ok_def by blast
  qed
  moreover have "distinct (map fst ?tabs)" using ok by (simp add: memory_ok_def distinct_update distinct_delete)
  ultimately show ?thesis using Some by (simp add: memory_ok_def unsubscribe_def Let_def)
qed (simp add: unsubscribe_def ok)

interpretation buses: machine bus_step memory_ok
proof
  fix m :: "'h memory" and e assume "memory_ok m"
  then show "memory_ok (bus_step m e)"
  proof (cases e)
    case BClose
    with \<open>memory_ok m\<close> show ?thesis by (simp add: Memory_Close_def memory_ok_def)
  qed (simp_all add: Subscribe_ok unsubscribe_ok)
qed


lemma NewMemory_ok: "memory_ok NewMemory"
  by (simp add: NewMemory_def memory_ok_def)

lemma subscribers_Subscribe:
  "Subscribe m t (Some h) = (Inr i, m') \<Longrightarrow>
   subscribers m' t' = (if t' = t then AList.update i h (subscribers m t) else subscribers m t')"
  by (auto simp: Subscribe_def Let_def subscribers_def update_conv' split: if_splits)

lemma subscribers_unsubscribe:
  "subscribers (unsubscribe m t i) t' = (if t' = t then AList.delete i (subscribers m t) else subscribers m t')"
  by (auto simp: unsubscribe_def Let_def subscribers_def update_conv' delete_conv' split: option.split)

lemma update_fresh: "i \<notin> fst ` set al \<Longrightarrow> AList.update i h al = al @ [(i, h)]"
  by (induction al) auto

lemma delete_fresh: "i \<notin> fst ` set al \<Longrightarrow> AList.delete i (al @ [(i, h)]) = al"
  by (induction al) (auto simp: AList.delete_eq)

lemma Publish_open:
  "\<not> closed m \<Longrightarrow> t \<noteq> '''' \<Longrightarrow> mid \<noteq> '''' \<Longrightarrow> Publish m False rnd t payload mid
     = Inr (map (\<lambda>(i, h). (i, h, \<lparr>MsgTableID = t, MsgID = mid, Payload = payload\<rparr>)) (subscribers m t))"
  by (simp add: Publish_def Let_def)

text \<open>
  the bus delivers to exactly the current subscribers, the publisher's own included. In a bus
  reached from a new one by any operations (fewer than 2^64 subscriptions), a successful \<open>Subscribe\<close> adds
  one subscription under an id nobody had; a message then published on the table reaches everyone it
  would have reached before and the new subscriber, once each, with its id and payload as published;
  publishing on another table is unaffected; and after the unsubscribe it reaches whom it reached before.
\<close>

theorem bus_delivery:
  assumes "m = run bus_step NewMemory ops" and "nextID m \<noteq> - 1" and "Subscribe m t (Some h) = (Inr i, m')"
    and "mid \<noteq> ''''" and "t' \<noteq> t"
  shows "\<exists>ds msg. Publish m False rnd t payload mid = Inr ds \<and> i \<notin> set (map fst ds) \<and> distinct (map fst ds)
     \<and> msg = \<lparr>MsgTableID = t, MsgID = mid, Payload = payload\<rparr>
     \<and> Publish m' False rnd t payload mid = Inr (ds @ [(i, h, msg)])
     \<and> Publish m' False rnd t' payload mid = Publish m False rnd t' payload mid
     \<and> Publish (unsubscribe m' t i) False rnd t payload mid = Inr ds"
proof -
  have ok: "memory_ok m" using buses.run_inv NewMemory_ok assms(1) by blast
  have S: "\<not> closed m" "t \<noteq> ''''" "i = nextID m + 1" "closed m' = closed m"
    using assms(3) by (auto simp: Subscribe_def Let_def split: if_splits)
  have fresh: "i \<notin> fst ` set (subscribers m t)"
  proof
    assume "i \<in> fst ` set (subscribers m t)"
    then obtain g where "(i, g) \<in> set (subscribers m t)" by auto
    then have "i \<le> nextID m" using subscribers_ok(2) [OF ok] by blast
    with word_less_plus_one [OF assms(2)] S(3) show False by simp
  qed
  have new: "subscribers m' t = subscribers m t @ [(i, h)]" "subscribers m' t' = subscribers m t'"
    using subscribers_Subscribe [OF assms(3)] update_fresh [OF fresh] assms(5) by simp_all
  have gone: "subscribers (unsubscribe m' t i) t = subscribers m t" "closed (unsubscribe m' t i) = closed m"
    using subscribers_unsubscribe [of m' t i t] delete_fresh [OF fresh] new(1) S(4)
    by (auto simp: unsubscribe_def Let_def split: option.split)
  let ?msg = "\<lparr>MsgTableID = t, MsgID = mid, Payload = payload\<rparr>"
  let ?ds = "map (\<lambda>(i, h). (i, h, ?msg)) (subscribers m t)"
  have keys: "map fst ?ds = map fst (subscribers m t)" by (simp add: comp_def split_def)
  have "Publish m' False rnd t' payload mid = Publish m False rnd t' payload mid"
    using new(2) S(4) assms(4) by (simp add: Publish_def)
  moreover have "i \<notin> set (map fst ?ds)" "distinct (map fst ?ds)"
    unfolding keys using fresh subscribers_ok(1) [OF ok] by simp_all
  moreover have "Publish m False rnd t payload mid = Inr ?ds" using Publish_open [of m t mid] S assms(4) by simp
  moreover have "Publish m' False rnd t payload mid = Inr (?ds @ [(i, h, ?msg)])"
    using Publish_open [of m' t mid] S assms(4) new(1) by simp
  moreover have "Publish (unsubscribe m' t i) False rnd t payload mid = Inr ?ds"
    using Publish_open [of "unsubscribe m' t i" t mid] S assms(4) gone by simp
  ultimately show ?thesis by blast
qed

definition one_sub :: "nat bus_op list" where
  "one_sub = [BSubscribe ''t1'' (Some 7), BSubscribe ''t2'' (Some 8), BUnsubscribe ''t2'' 2]"

theorem bus_delivery_witness:
  "\<exists>ds. Publish (run bus_step NewMemory one_sub) False None ''t1'' [1, 2] ''m1'' = Inr ds
    \<and> Publish (snd (Subscribe (run bus_step NewMemory one_sub) ''t1'' (Some 9))) False None ''t1'' [1, 2] ''m1''
      = Inr (ds @ [(3, 9, \<lparr>MsgTableID = ''t1'', MsgID = ''m1'', Payload = [1, 2]\<rparr>)])"
proof -
  let ?m = "run bus_step NewMemory one_sub"
  have i: "fst (Subscribe ?m ''t1'' (Some 9)) = Inr 3" "nextID ?m \<noteq> - 1" by code_simp+
  then have "Subscribe ?m ''t1'' (Some 9) = (Inr 3, snd (Subscribe ?m ''t1'' (Some 9)))"
    by (metis prod.collapse)
  from bus_delivery [OF refl i(2) this, of "''m1''" "''t2''" None "[1, 2]"] show ?thesis by auto
qed

end
