(* ===== verification/Session.thy ===== *)
theory Session
  imports Table_Props Transport
begin

text \<open>
  Game messages and one seat's session over a transport:
  \<^verbatim>\<open>internal/protocol/table/messages.go\<close> and \<^verbatim>\<open>session.go\<close>. The wire format is the JSON of
  the standard library; \<open>marshal\<close> and \<open>unmarshal\<close> are arguments, \<open>None\<close> being their error. The
  handlers a caller registers are code of the caller: the session records which envelope a handler
  was called with, and the table as it was then, in \<open>delivered\<close>.
\<close>

section \<open>Messages\<close>

datatype kind = KindHello | KindShuffle | KindRemask | KindShuffleProof | KindHoleReveal | KindBoardReveal
  | KindShowdownReveal | KindAction | KindSettlementProposal | KindSignature | KindRefusal
  | KindCatchUpRequest | KindAck | OtherKind string

fun PhaseFor :: "kind \<Rightarrow> phase option" where
  "PhaseFor KindShuffle = Some PhaseDealing"
| "PhaseFor KindRemask = Some PhaseDealing"
| "PhaseFor KindShuffleProof = Some PhaseDealing"
| "PhaseFor KindHoleReveal = Some PhaseDealing"
| "PhaseFor KindAction = Some PhaseBetting"
| "PhaseFor KindBoardReveal = Some PhaseBetting"
| "PhaseFor KindShowdownReveal = Some PhaseBetting"
| "PhaseFor KindSettlementProposal = Some PhaseSettling"
| "PhaseFor KindSignature = Some PhaseSettling"
| "PhaseFor k = None"

record envelope =
  EnvTableID :: string
  EnvHandID :: string
  EnvKind :: kind
  EnvSeat :: int
  EnvKey :: string
  EnvSeq :: u64
  EnvRecipient :: string
  EnvBody :: bytes

datatype envelope_error = EnvTableIDRequired | EnvKindRequired | EnvSeatOutside int | EnvKeyRequired
  | EnvHandIDRequired kind

definition Envelope_Validate :: "envelope \<Rightarrow> envelope_error list" where
  "Envelope_Validate e =
     (if EnvTableID e = '''' then [EnvTableIDRequired] else [])
   @ (if EnvKind e = OtherKind '''' then [EnvKindRequired] else [])
   @ (if EnvSeat e < 0 \<or> EnvSeat e \<ge> TMaxSeats then [EnvSeatOutside (EnvSeat e)] else [])
   @ (if EnvKey e = '''' then [EnvKeyRequired] else [])
   @ (if EnvKind e \<noteq> KindHello \<and> EnvHandID e = '''' then [EnvHandIDRequired (EnvKind e)] else [])"

definition Private :: "envelope \<Rightarrow> bool" where
  "Private e \<longleftrightarrow> EnvRecipient e \<noteq> ''''"

record reveal_body =
  Positions :: "int list"
  Scalars :: "bytes list"

datatype reveal_error = NoPositions | PositionScalarMismatch nat nat | NegativePosition int | PositionTwice int

fun check_positions :: "int list \<Rightarrow> int list \<Rightarrow> reveal_error option" where
  "check_positions seen_ps [] = None"
| "check_positions seen_ps (p # ps) =
     (if p < 0 then Some (NegativePosition p)
      else if List.member seen_ps p then Some (PositionTwice p)
      else check_positions (p # seen_ps) ps)"

definition RevealBody_Validate :: "reveal_body \<Rightarrow> reveal_error option" where
  "RevealBody_Validate r =
     (if length (Positions r) = 0 then Some NoPositions
      else if length (Positions r) \<noteq> length (Scalars r)
      then Some (PositionScalarMismatch (length (Positions r)) (length (Scalars r)))
      else check_positions [] (Positions r))"

definition RefusalBody_Validate :: "string \<Rightarrow> bool" where
  "RefusalBody_Validate reason \<longleftrightarrow> reason \<noteq> ''''"

datatype session_error = BodyNotEncoded | InvalidEnvelope "envelope_error list" | EnvelopeNotEncoded
  | PublishFailed transport_error | RecipientRequired | NoBody kind | BodyNotDecoded kind
  | TransportRequired | NoIdentity

text \<open>\<open>Encode\<close>: a nil body, or a body whose JSON is given, if it has one.\<close>

definition Encode :: "envelope \<Rightarrow> bytes option option \<Rightarrow> (session_error, envelope) res" where
  "Encode e body =
     (case body of
        None \<Rightarrow> Inr (e\<lparr>EnvBody := []\<rparr>)
      | Some None \<Rightarrow> Inl BodyNotEncoded
      | Some (Some raw) \<Rightarrow> Inr (e\<lparr>EnvBody := raw\<rparr>))"

definition DecodeBody :: "(bytes \<Rightarrow> 'b option) \<Rightarrow> envelope \<Rightarrow> (session_error, 'b) res" where
  "DecodeBody decode e =
     (if EnvBody e = [] then Inl (NoBody (EnvKind e))
      else case decode (EnvBody e) of None \<Rightarrow> Inl (BodyNotDecoded (EnvKind e)) | Some b \<Rightarrow> Inr b)"

section \<open>A session\<close>

record session =
  sTable :: poker_table
  sTableID :: string
  sDedup :: dedup
  selfSeat :: int
  selfKey :: string
  applied :: "int \<rightharpoonup> u64"
  log :: "envelope list"
  nextSeq :: u64
  handlers :: "kind list"
  delivered :: "(poker_table \<times> envelope) list"

definition NewSession :: "poker_table \<Rightarrow> int \<Rightarrow> string \<Rightarrow> int \<Rightarrow> (session_error, session) res" where
  "NewSession t seat key dedupLimit =
     (if key = '''' then Inl NoIdentity
      else Inr \<lparr>sTable = t, sTableID = TermsTableID (tterms t), sDedup = NewDedup dedupLimit,
                selfSeat = seat, selfKey = key, applied = Map.empty, log = [], nextSeq = 0,
                handlers = [], delivered = []\<rparr>)"

definition Handle :: "session \<Rightarrow> kind \<Rightarrow> session" where
  "Handle s k = s\<lparr>handlers := k # handlers s\<rparr>"

definition applied_seq :: "session \<Rightarrow> int \<Rightarrow> u64" where
  "applied_seq s seat = (case applied s seat of None \<Rightarrow> 0 | Some q \<Rightarrow> q)"

definition handID :: "session \<Rightarrow> string" where
  "handID s = sTableID s"

text \<open>\<open>sendTo\<close> returns the bytes it published, if it got that far. \<open>pub\<close> is the transport's answer.\<close>

definition sendTo ::
  "(envelope \<Rightarrow> bytes option) \<Rightarrow> transport_error option \<Rightarrow> session \<Rightarrow> kind \<Rightarrow> string \<Rightarrow> bytes option option
     \<Rightarrow> session_error option \<times> bytes option \<times> session" where
  "sendTo marshal pub s k recipient body =
     (let q = nextSeq s + 1;
          s = s\<lparr>nextSeq := q\<rparr>;
          tid = TermsTableID (tterms (sTable s));
          env = \<lparr>EnvTableID = (if tid \<noteq> '''' then tid else sTableID s), EnvHandID = handID s, EnvKind = k,
                 EnvSeat = selfSeat s, EnvKey = selfKey s, EnvSeq = q, EnvRecipient = recipient, EnvBody = []\<rparr>
      in case Encode env body of
           Inl e \<Rightarrow> (Some e, None, s)
         | Inr env \<Rightarrow>
             (if Envelope_Validate env \<noteq> [] then (Some (InvalidEnvelope (Envelope_Validate env)), None, s)
              else case marshal env of
                     None \<Rightarrow> (Some EnvelopeNotEncoded, None, s)
                   | Some raw \<Rightarrow>
                       let s = s\<lparr>log := log s @ [env]\<rparr>
                       in case pub of
                            Some e \<Rightarrow> (Some (PublishFailed e), None, s)
                          | None \<Rightarrow> (None, Some raw, s)))"

definition Send where
  "Send marshal pub s k body = sendTo marshal pub s k '''' body"

definition SendPrivate where
  "SendPrivate marshal pub s k recipient body =
     (if recipient = '''' then (Some RecipientRequired, None, s) else sendTo marshal pub s k recipient body)"

definition phase_admits :: "kind \<Rightarrow> phase \<Rightarrow> bool" where
  "phase_admits k got =
     (case PhaseFor k of
        None \<Rightarrow> True
      | Some want \<Rightarrow> \<not> (got \<noteq> want \<and> \<not> (k = KindBoardReveal \<and> got = PhaseDealing)))"

definition onMessage :: "(bytes \<Rightarrow> envelope option) \<Rightarrow> int \<Rightarrow> session \<Rightarrow> message \<Rightarrow> session" where
  "onMessage unmarshal now s msg =
     (let (first, d) = FirstSeen (sDedup s) (MsgID msg); s = s\<lparr>sDedup := d\<rparr>
      in if \<not> first then s
         else case unmarshal (Payload msg) of
                None \<Rightarrow> s
              | Some env \<Rightarrow>
                  (if Envelope_Validate env \<noteq> [] then s
                   else if EnvTableID env \<noteq> sTableID s then s
                   else if Private env \<and> EnvRecipient env \<noteq> selfKey s then s
                   else if EnvKind env \<noteq> KindHello \<and> Authorise (sTable s) (EnvSeat env) (EnvKey env) \<noteq> None then s
                   else if \<not> phase_admits (EnvKind env) (tphase (sTable s)) then s
                   else let s = (if EnvSeq env > applied_seq s (EnvSeat env)
                                 then s\<lparr>applied := (applied s)(EnvSeat env \<mapsto> EnvSeq env)\<rparr> else s);
                            t = sTable s;
                            s = s\<lparr>sTable := snd (Touch t now (EnvSeat env))\<rparr>
                     in if List.member (handlers s) (EnvKind env)
                        then s\<lparr>delivered := delivered s @ [(t, env)]\<rparr> else s))"

text \<open>\<open>ServeCatchUp\<close> publishes what the requester misses, until the transport refuses; \<open>pub\<close> answers
  for each publication in turn.\<close>

definition missing_from :: "session \<Rightarrow> (int \<rightharpoonup> u64) \<Rightarrow> envelope list" where
  "missing_from s haveSeq =
     (let have_seq = (case haveSeq (selfSeat s) of None \<Rightarrow> 0 | Some q \<Rightarrow> q)
      in filter (\<lambda>env. EnvSeq env > have_seq \<and> \<not> Private env) (log s))"

fun publish_all ::
  "(envelope \<Rightarrow> bytes option) \<Rightarrow> (nat \<Rightarrow> transport_error option) \<Rightarrow> nat \<Rightarrow> envelope list
     \<Rightarrow> session_error option \<times> bytes list" where
  "publish_all marshal pub sent [] = (None, [])"
| "publish_all marshal pub sent (env # rest) =
     (case marshal env of
        None \<Rightarrow> (Some EnvelopeNotEncoded, [])
      | Some raw \<Rightarrow>
          (case pub sent of
             Some e \<Rightarrow> (Some (PublishFailed e), [])
           | None \<Rightarrow> (let (err, out) = publish_all marshal pub (sent + 1) rest in (err, raw # out))))"

definition ServeCatchUp where
  "ServeCatchUp marshal pub s haveSeq =
     (let (err, out) = publish_all marshal pub 0 (missing_from s haveSeq) in (length out, err, out))"

definition SentCount :: "session \<Rightarrow> nat" where
  "SentCount s = length (log s)"


section \<open>What reaches a handler\<close>

datatype session_event = SMsg int message | STable table_op | SHandle kind
  | SSend kind string "bytes option option" "transport_error option"

fun session_step ::
  "(bytes \<Rightarrow> envelope option) \<Rightarrow> (envelope \<Rightarrow> bytes option) \<Rightarrow> session \<Rightarrow> session_event \<Rightarrow> session" where
  "session_step um ma s (SMsg now msg) = onMessage um now s msg"
| "session_step um ma s (STable e) = s\<lparr>sTable := table_step (sTable s) e\<rparr>"
| "session_step um ma s (SHandle k) = Handle s k"
| "session_step um ma s (SSend k r b pub) = snd (snd (sendTo ma pub s k r b))"

text \<open>What an envelope must be for a handler of this session to see it at a table.\<close>

definition admissible :: "string \<Rightarrow> string \<Rightarrow> poker_table \<Rightarrow> envelope \<Rightarrow> bool" where
  "admissible tid key t env \<longleftrightarrow> Envelope_Validate env = [] \<and> EnvTableID env = tid
     \<and> (EnvRecipient env = '''' \<or> EnvRecipient env = key)
     \<and> (EnvKind env \<noteq> KindHello \<longrightarrow> SeatOf t (EnvKey env) = Inr (nat (EnvSeat env)))
     \<and> (\<forall>want. PhaseFor (EnvKind env) = Some want \<longrightarrow>
           tphase t = want \<or> EnvKind env = KindBoardReveal \<and> tphase t = PhaseDealing)"

definition session_ok :: "string \<Rightarrow> string \<Rightarrow> session \<Rightarrow> bool" where
  "session_ok tid key s \<longleftrightarrow> roster_ok (sTable s) \<and> dedup_ok (sDedup s) \<and> sTableID s = tid \<and> selfKey s = key
     \<and> (\<forall>(t, env) \<in> set (delivered s). admissible tid key t env)"

lemma Validate_seat: "Envelope_Validate env = [] \<Longrightarrow> 0 \<le> EnvSeat env"
  by (auto simp: Envelope_Validate_def split: if_splits)

lemma phase_admits_iff:
  "phase_admits k got \<longleftrightarrow>
     (\<forall>want. PhaseFor k = Some want \<longrightarrow> got = want \<or> k = KindBoardReveal \<and> got = PhaseDealing)"
  by (auto simp: phase_admits_def split: option.split)

text \<open>The receive path in one equation: what it does with a new message, and with any other.\<close>

definition receive_env :: "int \<Rightarrow> session \<Rightarrow> envelope \<Rightarrow> session" where
  "receive_env now s env =
     s\<lparr>applied := (if EnvSeq env > applied_seq s (EnvSeat env) then (applied s)(EnvSeat env \<mapsto> EnvSeq env) else applied s),
       sTable := snd (Touch (sTable s) now (EnvSeat env)),
       delivered := delivered s @ (if List.member (handlers s) (EnvKind env) then [(sTable s, env)] else [])\<rparr>"

lemma onMessage_eq:
  assumes "roster_ok (sTable s)"
  shows "onMessage um now s msg =
    (let (first, d) = FirstSeen (sDedup s) (MsgID msg); s' = s\<lparr>sDedup := d\<rparr>
     in case (if first then um (Payload msg) else None) of
          None \<Rightarrow> s'
        | Some env \<Rightarrow> if admissible (sTableID s) (selfKey s) (sTable s) env then receive_env now s' env else s')"
proof -
  have auth: "Authorise (sTable s) (EnvSeat env) (EnvKey env) = None \<longleftrightarrow> SeatOf (sTable s) (EnvKey env) = Inr (nat (EnvSeat env))"
    if "Envelope_Validate env = []" for env
    using Authorise_iff_SeatOf [OF assms, of "nat (EnvSeat env)" "EnvKey env"] Validate_seat [OF that] by simp
  obtain first d where F: "FirstSeen (sDedup s) (MsgID msg) = (first, d)" by fastforce
  show ?thesis
  proof (cases "if first then um (Payload msg) else None")
    case None
    then show ?thesis by (cases first) (auto simp: onMessage_def F)
  next
    case (Some env)
    then have first "um (Payload msg) = Some env" by (auto split: if_splits)
    then show ?thesis
      using auth [of env]
      by (auto simp: onMessage_def F admissible_def Private_def phase_admits_iff receive_env_def applied_seq_def Let_def)
  qed
qed


lemma FirstSeen_ok: "dedup_ok d \<Longrightarrow> dedup_ok (snd (FirstSeen d mid))"
  using dedups.step_inv by (simp add: dedup_step_def)

lemma Touch_roster: "roster_ok t \<Longrightarrow> roster_ok (snd (Touch t now i))"
  using table_step_roster [of t "OTouch now i"] by simp

lemma sendTo_frame:
  "sTable (snd (snd (sendTo ma pub s k r b))) = sTable s \<and> sDedup (snd (snd (sendTo ma pub s k r b))) = sDedup s
   \<and> sTableID (snd (snd (sendTo ma pub s k r b))) = sTableID s \<and> selfKey (snd (snd (sendTo ma pub s k r b))) = selfKey s
   \<and> delivered (snd (snd (sendTo ma pub s k r b))) = delivered s"
  by (auto simp: sendTo_def Let_def split: sum.split option.split)

lemma onMessage_ok:
  assumes "session_ok tid key s"
  shows "session_ok tid key (onMessage um now s msg)"
proof -
  have r: "roster_ok (sTable s)" using assms by (simp add: session_ok_def)
  obtain first d where F: "FirstSeen (sDedup s) (MsgID msg) = (first, d)" by fastforce
  have d: "dedup_ok d" using FirstSeen_ok [of "sDedup s" "MsgID msg"] assms F by (simp add: session_ok_def)
  have "session_ok tid key (s\<lparr>sDedup := d\<rparr>)" using assms d by (simp add: session_ok_def)
  moreover have "session_ok tid key (receive_env now (s\<lparr>sDedup := d\<rparr>) env)" if "admissible tid key (sTable s) env" for env
    using assms d that Touch_roster [OF r] by (auto simp: session_ok_def receive_env_def)
  ultimately show ?thesis
    using assms unfolding onMessage_eq [OF r] F
    by (auto simp: Let_def session_ok_def [of tid key s] split: option.split)
qed

interpretation sessions: machine "session_step um ma" "session_ok tid key"
proof
  fix s e assume ok: "session_ok tid key s"
  show "session_ok tid key (session_step um ma s e)"
  proof (cases e)
    case (SMsg now msg)
    with ok show ?thesis by (simp add: onMessage_ok)
  next
    case (STable op)
    with ok show ?thesis using table_step_roster by (simp add: session_ok_def)
  next
    case (SHandle k)
    with ok show ?thesis by (simp add: session_ok_def Handle_def)
  next
    case (SSend k r b pub)
    with ok show ?thesis using sendTo_frame [of ma pub s k r b] by (simp add: session_ok_def)
  qed
qed

lemma NewSession_ok:
  "NewSession t seat key lim = Inr s \<Longrightarrow> roster_ok t \<Longrightarrow> session_ok (TermsTableID (tterms t)) key s"
  by (auto simp: NewSession_def session_ok_def NewDedup_ok split: if_splits)

section \<open>Properties\<close>


definition hello_env :: envelope where
  "hello_env = \<lparr>EnvTableID = ''t1'', EnvHandID = ''t1'', EnvKind = KindAck, EnvSeat = 1, EnvKey = ''02bb'', EnvSeq = 4,
     EnvRecipient = '''', EnvBody = []\<rparr>"

definition sample_session :: session where
  "sample_session = \<lparr>sTable = run table_step sample_table play_ops, sTableID = ''t1'', sDedup = NewDedup 8, selfSeat = 0,
     selfKey = ''02aa'', applied = Map.empty, log = [], nextSeq = 0, handlers = [], delivered = []\<rparr>"

definition sample_um :: "bytes \<Rightarrow> envelope option" where
  "sample_um b = (if b = [1] then Some hello_env else None)"

definition sample_msg :: "string \<Rightarrow> message" where
  "sample_msg m = \<lparr>MsgTableID = ''t1'', MsgID = m, Payload = [1]\<rparr>"

lemma sample_session_new: "NewSession (run table_step sample_table play_ops) 0 ''02aa'' 8 = Inr sample_session"
proof -
  have "TermsTableID (tterms (run table_step sample_table play_ops)) = ''t1''" by code_simp
  then show ?thesis by (simp add: NewSession_def sample_session_def)
qed

definition sample_events :: "session_event list" where
  "sample_events = [SHandle KindAck, SMsg 5 (sample_msg ''x''), SMsg 6 (sample_msg ''x'')]"


text \<open>
  delivering a message twice is delivering it once. After a message with an id has been received,
  receiving it again, at any time before the window moves on, changes nothing at all.
\<close>

theorem onMessage_idempotent:
  assumes "dedup_ok (sDedup s)" and "MsgID msg \<noteq> ''''"
  shows "onMessage um later (onMessage um now s msg) msg = onMessage um now s msg"
proof -
  let ?s = "onMessage um now s msg"
  have D: "sDedup ?s = snd (FirstSeen (sDedup s) (MsgID msg))"
    by (auto simp: onMessage_def Let_def split: prod.split option.split)
  have "MsgID msg \<in> set (order (snd (FirstSeen (sDedup s) (MsgID msg))))"
  proof (cases "List.member (seen (sDedup s)) (MsgID msg)")
    case True
    with assms show ?thesis by (simp add: FirstSeen_def dedup_ok_def)
  next
    case False
    have "MsgID msg \<in> set (tl (order (sDedup s) @ [MsgID msg]))" if "order (sDedup s) \<noteq> []"
      using that by (cases "order (sDedup s)") auto
    moreover have "order (sDedup s) \<noteq> []" if "int (length (order (sDedup s))) + 1 > limit (sDedup s)"
      using that assms(1) by (auto simp: dedup_ok_def)
    ultimately show ?thesis using False assms(2) by (simp add: FirstSeen_def Let_def)
  qed
  then have "List.member (seen (sDedup ?s)) (MsgID msg)"
    using FirstSeen_ok [OF assms(1), of "MsgID msg"] by (simp add: D dedup_ok_def)
  then have "FirstSeen (sDedup ?s) (MsgID msg) = (False, sDedup ?s)"
    using assms(2) by (simp add: FirstSeen_def)
  then show ?thesis by (simp add: onMessage_def [of um later ?s])
qed

theorem onMessage_idempotent_witness:
  "onMessage sample_um 9 (onMessage sample_um 5 sample_session (sample_msg ''x'')) (sample_msg ''x'')
     = onMessage sample_um 5 sample_session (sample_msg ''x'')"
  by (rule onMessage_idempotent) (simp_all add: sample_session_def sample_msg_def NewDedup_ok)


section \<open>Sequence numbers and catching up\<close>

lemma Touch_same: "SeatOf (snd (Touch t now i)) k = SeatOf t k" "tphase (snd (Touch t now i)) = tphase t"
proof -
  have "TIndex ((tseats t)[j := (tseats t ! j)\<lparr>LastSeen := now\<rparr>] ! l) = TIndex (tseats t ! l)" for j l
    by (cases "j < length (tseats t)"; cases "l = j") (simp_all add: list_update_beyond)
  then show "SeatOf (snd (Touch t now i)) k = SeatOf t k" "tphase (snd (Touch t now i)) = tphase t"
    by (auto simp: Touch_def update_seat_def SeatOf_def split: option.split)
qed

lemma admissible_Touch: "admissible tid key (snd (Touch t now i)) env = admissible tid key t env"
  by (simp add: admissible_def Touch_same)

lemma onMessage_new:
  assumes "session_ok tid key s" "fst (FirstSeen (sDedup s) (MsgID msg))" "um (Payload msg) = Some env"
    "admissible tid key (sTable s) env"
  shows "onMessage um now s msg = receive_env now (s\<lparr>sDedup := snd (FirstSeen (sDedup s) (MsgID msg))\<rparr>) env"
proof -
  obtain d where "FirstSeen (sDedup s) (MsgID msg) = (True, d)" using assms(2) by (metis prod.collapse)
  then show ?thesis using onMessage_eq [of s um now msg] assms by (simp add: session_ok_def Let_def)
qed

lemma set_tl_subset: "set (tl xs) \<subseteq> set xs"
  by (cases xs) auto

lemma FirstSeen_other:
  assumes "dedup_ok d" "m \<notin> set (order d)" "m \<noteq> m'" "m \<noteq> ''''"
  shows "fst (FirstSeen (snd (FirstSeen d m')) m)"
proof -
  have "set (order (snd (FirstSeen d m'))) \<subseteq> insert m' (set (order d))"
    using set_tl_subset [of "order d @ [m']"] by (auto simp: FirstSeen_def Let_def)
  then have "m \<notin> set (order (snd (FirstSeen d m')))" using assms(2,3) by auto
  moreover have "set (seen (snd (FirstSeen d m'))) = set (order (snd (FirstSeen d m')))"
    using FirstSeen_ok [OF assms(1)] by (simp add: dedup_ok_def)
  ultimately show ?thesis using assms(4) by (simp add: FirstSeen_def [of "snd (FirstSeen d m')"] Let_def)
qed

text \<open>
  a replay under a fresh id is applied again. When a message has been received and its sequence
  number is recorded as applied, the same envelope arriving under another id, which is how \<open>ServeCatchUp\<close>
  re-publishes it, calls the handler a second time: the receive path never compares \<open>Seq\<close> with what was
  applied.
\<close>

theorem replay_applied_again:
  assumes "session_ok tid key s" and "admissible tid key (sTable s) env" and "EnvKind env \<in> set (handlers s)"
    and "um (Payload m1) = Some env" and "Payload m2 = Payload m1"
    and "fst (FirstSeen (sDedup s) (MsgID m1))" and "MsgID m2 \<noteq> MsgID m1"
    and "MsgID m2 \<noteq> ''''" and "MsgID m2 \<notin> set (order (sDedup s))"
  shows "EnvSeq env \<le> applied_seq (onMessage um now s m1) (EnvSeat env)
     \<and> map snd (delivered (onMessage um later (onMessage um now s m1) m2)) = map snd (delivered s) @ [env, env]"
proof -
  let ?s1 = "onMessage um now s m1"
  have s1: "?s1 = receive_env now (s\<lparr>sDedup := snd (FirstSeen (sDedup s) (MsgID m1))\<rparr>) env"
    by (rule onMessage_new [where tid = tid and key = key]) (use assms in simp_all)
  have ok1: "session_ok tid key ?s1" using onMessage_ok [OF assms(1)] .
  have first: "fst (FirstSeen (sDedup ?s1) (MsgID m2))"
    using FirstSeen_other [OF _ assms(9,7,8)] assms(1) by (simp add: s1 receive_env_def session_ok_def)
  have adm: "admissible tid key (sTable ?s1) env"
    using assms(2) by (simp add: s1 receive_env_def admissible_Touch)
  have "onMessage um later ?s1 m2 = receive_env later (?s1\<lparr>sDedup := snd (FirstSeen (sDedup ?s1) (MsgID m2))\<rparr>) env"
    by (rule onMessage_new [where tid = tid and key = key]) (use ok1 first adm assms(4,5) in simp_all)
  then have "map snd (delivered (onMessage um later ?s1 m2)) = map snd (delivered s) @ [env, env]"
    using assms(3) by (simp add: receive_env_def s1)
  moreover have "EnvSeq env \<le> applied_seq ?s1 (EnvSeat env)"
    by (auto simp: s1 receive_env_def applied_seq_def)
  ultimately show ?thesis by simp
qed

theorem replay_applied_again_witness:
  "map snd (delivered (onMessage sample_um 6 (onMessage sample_um 5 (Handle sample_session KindAck) (sample_msg ''x''))
     (sample_msg ''y''))) = [hello_env, hello_env]"
proof -
  let ?s = "Handle sample_session KindAck"
  have ok: "session_ok ''t1'' ''02aa'' ?s"
    using NewSession_ok [OF sample_session_new reachable_roster [OF sample_table_new]]
    by (simp add: session_ok_def Handle_def sample_session_def)
  have "SeatOf (sTable ?s) ''02bb'' = Inr 1" by code_simp
  then have adm: "admissible ''t1'' ''02aa'' (sTable ?s) hello_env"
    by (simp add: admissible_def hello_env_def Envelope_Validate_def TMaxSeats_def)
  from replay_applied_again [OF ok adm, of sample_um "sample_msg ''x''" "sample_msg ''y''" 5 6] show ?thesis
    by (simp add: Handle_def hello_env_def sample_um_def sample_msg_def sample_session_def NewDedup_def FirstSeen_def)
qed


definition own_log :: "int \<Rightarrow> string \<Rightarrow> session \<Rightarrow> bool" where
  "own_log seat key s \<longleftrightarrow> selfSeat s = seat \<and> selfKey s = key
     \<and> (\<forall>env \<in> set (log s). EnvSeat env = seat \<and> EnvKey env = key \<and> Envelope_Validate env = [])"

lemma sendTo_own:
  assumes "own_log seat key s"
  shows "own_log seat key (snd (snd (sendTo ma pub s k r b)))"
proof -
  have "EnvSeat env' = EnvSeat env \<and> EnvKey env' = EnvKey env" if "Encode env b = Inr env'" for env env'
    using that by (auto simp: Encode_def split: option.splits)
  note enc = this
  show ?thesis
    using assms unfolding sendTo_def Let_def
    by (auto simp: own_log_def dest!: enc split: sum.split option.split)
qed

lemma onMessage_log:
  "log (onMessage um now s msg) = log s \<and> selfSeat (onMessage um now s msg) = selfSeat s
   \<and> selfKey (onMessage um now s msg) = selfKey s"
  by (simp add: onMessage_def Let_def split: prod.split option.split)

lemma session_step_own:
  assumes "own_log seat key s"
  shows "own_log seat key (session_step um ma s e)"
proof (cases e)
  case (SMsg now msg)
  with assms onMessage_log [of um now s msg] show ?thesis by (simp add: own_log_def)
next
  case (SSend k r b pub)
  with assms show ?thesis by (simp add: sendTo_own)
qed (use assms in \<open>simp_all add: own_log_def Handle_def\<close>)

lemma run_own: "own_log seat key s \<Longrightarrow> own_log seat key (run (session_step um ma) s es)"
proof (induction es arbitrary: s)
  case (Cons e es)
  from session_step_own [OF Cons.prems] Cons.IH show ?case by simp
qed simp

lemma publish_all_prefix:
  "\<exists>k \<le> length envs. snd (publish_all ma pub n envs) = map (the \<circ> ma) (take k envs)
     \<and> (\<forall>env \<in> set (take k envs). ma env \<noteq> None) \<and> (fst (publish_all ma pub n envs) = None \<longleftrightarrow> k = length envs)"
proof (induction envs arbitrary: n)
  case (Cons env envs)
  show ?case
  proof (cases "ma env = None \<or> pub n \<noteq> None")
    case True
    then show ?thesis by (intro exI [of _ 0]) (auto split: option.split)
  next
    case False
    then obtain raw where raw: "ma env = Some raw" "pub n = None" by auto
    from Cons [of "Suc n"] obtain k where "k \<le> length envs"
      "snd (publish_all ma pub (Suc n) envs) = map (the \<circ> ma) (take k envs)"
      "\<forall>env \<in> set (take k envs). ma env \<noteq> None" "fst (publish_all ma pub (Suc n) envs) = None \<longleftrightarrow> k = length envs"
      by auto
    with raw show ?thesis by (intro exI [of _ "Suc k"]) (auto split: prod.split)
  qed
qed simp

text \<open>
  catch-up discloses only this seat's own public messages. In any session, whatever a requester claims
  to have, \<open>ServeCatchUp\<close> re-publishes, in the order they were sent, messages of this seat's own log, all of
  them valid, none addressed to one recipient, and each with a sequence number above the claimed one; it
  reports how many it sent, and when it reports no error it has sent every such message.
\<close>

theorem catch_up_own_public:
  assumes "NewSession t seat key lim = Inr s0" and "s = run (session_step um ma) s0 es"
    and "ServeCatchUp ma pub s have_map = (n, err, out)"
  shows "\<exists>envs. out = map (the \<circ> ma) envs \<and> n = length envs
     \<and> prefix envs (filter (\<lambda>env. \<not> Private env \<and> (case have_map seat of None \<Rightarrow> 0 | Some q \<Rightarrow> q) < EnvSeq env) (log s))
     \<and> (\<forall>env \<in> set envs. EnvSeat env = seat \<and> EnvKey env = key \<and> Envelope_Validate env = [])
     \<and> (err = None \<longrightarrow> envs = filter (\<lambda>env. \<not> Private env \<and> (case have_map seat of None \<Rightarrow> 0 | Some q \<Rightarrow> q) < EnvSeq env) (log s))"
proof -
  let ?m = "filter (\<lambda>env. \<not> Private env \<and> (case have_map seat of None \<Rightarrow> 0 | Some q \<Rightarrow> q) < EnvSeq env) (log s)"
  have "own_log seat key s0" using assms(1) by (auto simp: NewSession_def own_log_def split: if_splits)
  then have own: "own_log seat key s" unfolding assms(2) by (rule run_own)
  then have m: "missing_from s have_map = ?m"
    by (auto simp: missing_from_def own_log_def Let_def intro!: filter_cong)
  obtain k where k: "snd (publish_all ma pub 0 ?m) = map (the \<circ> ma) (take k ?m)"
    "fst (publish_all ma pub 0 ?m) = None \<longleftrightarrow> k = length ?m"
    using publish_all_prefix [of ?m ma pub 0] by (elim exE conjE) (rule that)
  have "out = map (the \<circ> ma) (take k ?m)" "n = length (take k ?m)" "err = None \<longrightarrow> k = length ?m"
    using assms(3) k m by (auto simp: ServeCatchUp_def split: prod.splits)
  moreover have "\<forall>env \<in> set (take k ?m). EnvSeat env = seat \<and> EnvKey env = key \<and> Envelope_Validate env = []"
    using own by (auto simp: own_log_def dest: in_set_takeD)
  ultimately show ?thesis by (intro exI [of _ "take k ?m"]) (auto simp: take_is_prefix)
qed


definition byte_marshal :: "envelope \<Rightarrow> bytes option" where
  "byte_marshal e = Some [ucast (EnvSeq e)]"

definition chatter :: "session_event list" where
  "chatter = [SSend KindAck '''' None None, SSend KindHoleReveal ''02bb'' None None, SSend KindAck '''' None (Some ErrClosed),
     SSend KindRefusal '''' (Some None) None]"

theorem catch_up_own_public_witness:
  "ServeCatchUp byte_marshal (\<lambda>n. None) (run (session_step sample_um byte_marshal) sample_session chatter) Map.empty
     = (2, None, [[1], [3]])
   \<and> (\<exists>envs. [[1], [3]] = map (the \<circ> byte_marshal) envs \<and> length envs = 2 \<and> \<not> list_ex Private envs)"
proof -
  let ?s = "run (session_step sample_um byte_marshal) sample_session chatter"
  have S: "ServeCatchUp byte_marshal (\<lambda>n. None) ?s Map.empty = (2, None, [[1], [3]])" by code_simp
  from catch_up_own_public [OF sample_session_new refl S] obtain envs where
    "[[1], [3]] = map (the \<circ> byte_marshal) envs" "2 = length envs"
    "envs = filter (\<lambda>env. \<not> Private env \<and> (case Map.empty (0 :: int) of None \<Rightarrow> 0 | Some q \<Rightarrow> q) < EnvSeq env) (log ?s)"
    by (elim exE conjE) (rule that, assumption+, simp)
  then show ?thesis using S by (intro conjI exI [of _ envs]) (simp_all add: list_ex_iff)
qed

end
