(* ===== verification/Money.thy ===== *)
theory Money
  imports Table Cards
begin

text \<open>
  The money tracker of \<^verbatim>\<open>internal/protocol/table/moneystate.go\<close>: what each seat is told about its
  own funds. The tracker is a map from seats to money states; a loop over the whole map is a map over
  it. The clock is an argument.
\<close>

section \<open>State\<close>

datatype money_phase = MoneyUncommitted | MoneyRefundHeld | MoneyCommitted | MoneySettling
  | MoneySettled | MoneyStalled | MoneyRecovered

record money_state =
  MHandID :: string
  MSeat :: int
  MPhase :: money_phase
  StakeSatoshis :: u64
  PotSatoshis :: u64
  MRefundHeld :: bool
  RefundSpendableAtHeight :: u32
  CurrentHeight :: u32
  PayoutSatoshis :: u64
  SettlementTxID :: string
  PayoutSpendable :: bool
  StalledSeat :: int
  MStallReason :: string
  UpdatedAt :: int

type_synonym tracker = "int \<rightharpoonup> money_state"

datatype money_error = MoneySeatsOutOfBounds int | MoneyRefundHeightRequired | MoneyNoSeat int
  | MoneyNoRefund int | MoneyReasonRequired

definition show_u64 :: "u64 \<Rightarrow> string" where "show_u64 w = decimal (unat w)"
definition show_u32 :: "u32 \<Rightarrow> string" where "show_u32 w = decimal (unat w)"

definition Summary :: "money_state \<Rightarrow> string" where
  "Summary m = (case MPhase m of
     MoneyUncommitted \<Rightarrow> ''Nothing committed yet.''
   | MoneyRefundHeld \<Rightarrow> ''Refund held, spendable from block '' @ show_u32 (RefundSpendableAtHeight m)
       @ ''. Safe to commit '' @ show_u64 (StakeSatoshis m) @ '' sat.''
   | MoneyCommitted \<Rightarrow> show_u64 (StakeSatoshis m) @ '' sat committed to a '' @ show_u64 (PotSatoshis m)
       @ '' sat pot. If the hand stalls you can reclaim it from block ''
       @ show_u32 (RefundSpendableAtHeight m) @ ''.''
   | MoneySettling \<Rightarrow> ''Settlement in progress. Not final until it confirms.''
   | MoneySettled \<Rightarrow>
       (if PayoutSatoshis m = 0 then ''Hand settled. You did not win this pot.''
        else if \<not> PayoutSpendable m
        then ''Hand settled, '' @ show_u64 (PayoutSatoshis m)
             @ '' sat to you. Broadcast and spendable; your wallet is still recording it.''
        else ''Hand settled, '' @ show_u64 (PayoutSatoshis m) @ '' sat received and spendable.'')
   | MoneyStalled \<Rightarrow>
       (let who = (if StalledSeat m \<ge> 0 then ''seat '' @ Sprint_int (StalledSeat m) else ''a seat'');
            blocks = (if CurrentHeight m > 0 \<and> RefundSpendableAtHeight m > CurrentHeight m
                      then '' (about '' @ show_u32 (RefundSpendableAtHeight m - CurrentHeight m) @ '' blocks away)''
                      else '''')
        in ''Hand stalled by '' @ who @ '': '' @ MStallReason m @ ''. Your '' @ show_u64 (StakeSatoshis m)
           @ '' sat is recoverable from block '' @ show_u32 (RefundSpendableAtHeight m) @ blocks @ ''.'')
   | MoneyRecovered \<Rightarrow> ''Stake of '' @ show_u64 (StakeSatoshis m) @ '' sat recovered by refund.'')"

definition AtRisk :: "money_state \<Rightarrow> bool" where
  "AtRisk m = (case MPhase m of MoneyCommitted \<Rightarrow> True | MoneySettling \<Rightarrow> True | MoneyStalled \<Rightarrow> True | _ \<Rightarrow> False)"

section \<open>Operations\<close>

definition NewMoneyTracker :: "int \<Rightarrow> u64 \<Rightarrow> u64 \<Rightarrow> u32 \<Rightarrow> int \<Rightarrow> (money_error, tracker) res" where
  "NewMoneyTracker seats stake pot refundHeight now =
     (if seats < TMinSeats \<or> seats > TMaxSeats then Inl (MoneySeatsOutOfBounds seats)
      else if refundHeight = 0 then Inl MoneyRefundHeightRequired
      else Inr (\<lambda>seat. if 0 \<le> seat \<and> seat < seats
        then Some \<lparr>MHandID = '''', MSeat = seat, MPhase = MoneyUncommitted, StakeSatoshis = stake,
                   PotSatoshis = pot, MRefundHeld = False, RefundSpendableAtHeight = refundHeight,
                   CurrentHeight = 0, PayoutSatoshis = 0, SettlementTxID = '''', PayoutSpendable = False,
                   StalledSeat = -1, MStallReason = '''', UpdatedAt = now\<rparr>
        else None))"

definition Money_State :: "tracker \<Rightarrow> int \<Rightarrow> (money_error, money_state) res" where
  "Money_State t seat = (case t seat of None \<Rightarrow> Inl (MoneyNoSeat seat) | Some s \<Rightarrow> Inr s)"

definition each_state :: "tracker \<Rightarrow> (int \<Rightarrow> money_state \<Rightarrow> money_state) \<Rightarrow> tracker" where
  "each_state t f = (\<lambda>seat. map_option (f seat) (t seat))"

definition money_update ::
  "tracker \<Rightarrow> int \<Rightarrow> int \<Rightarrow> (money_state \<Rightarrow> (money_error, money_state) res) \<Rightarrow> (money_error, tracker) outcome" where
  "money_update t now seat fn =
     (case t seat of
        None \<Rightarrow> (Some (MoneyNoSeat seat), t)
      | Some s \<Rightarrow> (case fn s of Inl e \<Rightarrow> (Some e, t) | Inr s' \<Rightarrow> (None, t(seat \<mapsto> s'\<lparr>UpdatedAt := now\<rparr>))))"

definition SetHand :: "tracker \<Rightarrow> int \<Rightarrow> string \<Rightarrow> tracker" where
  "SetHand t now handID = each_state t (\<lambda>seat s. s\<lparr>MHandID := handID, UpdatedAt := now\<rparr>)"

definition Money_RefundHeld :: "tracker \<Rightarrow> int \<Rightarrow> int \<Rightarrow> (money_error, tracker) outcome" where
  "Money_RefundHeld t now seat = money_update t now seat
     (\<lambda>s. let s = s\<lparr>MRefundHeld := True\<rparr>
          in Inr (if MPhase s = MoneyUncommitted then s\<lparr>MPhase := MoneyRefundHeld\<rparr> else s))"

definition Committed :: "tracker \<Rightarrow> int \<Rightarrow> int \<Rightarrow> (money_error, tracker) outcome" where
  "Committed t now seat = money_update t now seat
     (\<lambda>s. if \<not> MRefundHeld s then Inl (MoneyNoRefund seat) else Inr (s\<lparr>MPhase := MoneyCommitted\<rparr>))"

definition Settling :: "tracker \<Rightarrow> int \<Rightarrow> string \<Rightarrow> tracker" where
  "Settling t now txid = each_state t
     (\<lambda>seat s. if MPhase s = MoneyCommitted
               then s\<lparr>MPhase := MoneySettling, SettlementTxID := txid, UpdatedAt := now\<rparr> else s)"

text \<open>A Go map lookup of an absent seat is zero.\<close>

definition Settled :: "tracker \<Rightarrow> int \<Rightarrow> string \<Rightarrow> (int \<rightharpoonup> u64) \<Rightarrow> tracker" where
  "Settled t now txid payouts = each_state t
     (\<lambda>seat s. s\<lparr>MPhase := MoneySettled, SettlementTxID := txid,
                 PayoutSatoshis := (case payouts seat of None \<Rightarrow> 0 | Some v \<Rightarrow> v), UpdatedAt := now\<rparr>)"

definition PayoutReceived :: "tracker \<Rightarrow> int \<Rightarrow> int \<Rightarrow> (money_error, tracker) outcome" where
  "PayoutReceived t now seat = money_update t now seat (\<lambda>s. Inr (s\<lparr>PayoutSpendable := True\<rparr>))"

definition Stalled :: "tracker \<Rightarrow> int \<Rightarrow> int \<Rightarrow> string \<Rightarrow> (money_error, tracker) outcome" where
  "Stalled t now seat reason =
     (if reason = '''' then (Some MoneyReasonRequired, t)
      else (None, each_state t
        (\<lambda>i s. if MPhase s = MoneySettled \<or> MPhase s = MoneyRecovered then s
               else s\<lparr>MPhase := MoneyStalled, StalledSeat := seat, MStallReason := reason, UpdatedAt := now\<rparr>)))"

definition Recovered :: "tracker \<Rightarrow> int \<Rightarrow> int \<Rightarrow> (money_error, tracker) outcome" where
  "Recovered t now seat = money_update t now seat (\<lambda>s. Inr (s\<lparr>MPhase := MoneyRecovered\<rparr>))"

definition SetHeight :: "tracker \<Rightarrow> u32 \<Rightarrow> tracker" where
  "SetHeight t height = each_state t (\<lambda>seat s. s\<lparr>CurrentHeight := height\<rparr>)"

text \<open>\<open>All\<close> walks the seats 0, 1, ... below the number of entries and keeps those that exist.\<close>

definition Money_All :: "tracker \<Rightarrow> money_state list" where
  "Money_All t = List.map_filter t (map int [0..<card (dom t)])"

section \<open>The tracker as a machine\<close>

datatype money_op = MSetHand string | MRefund int | MCommitted int | MSettling string
  | MSettled string "int \<rightharpoonup> u64" | MReceived int | MStalled int string | MRecovered int | MHeight u32

fun money_step :: "tracker \<Rightarrow> int \<times> money_op \<Rightarrow> tracker" where
  "money_step t (now, MSetHand h) = SetHand t now h"
| "money_step t (now, MRefund i) = snd (Money_RefundHeld t now i)"
| "money_step t (now, MCommitted i) = snd (Committed t now i)"
| "money_step t (now, MSettling x) = Settling t now x"
| "money_step t (now, MSettled x p) = Settled t now x p"
| "money_step t (now, MReceived i) = snd (PayoutReceived t now i)"
| "money_step t (now, MStalled i r) = snd (Stalled t now i r)"
| "money_step t (now, MRecovered i) = snd (Recovered t now i)"
| "money_step t (now, MHeight h) = SetHeight t h"

lemmas money_ops = SetHand_def Money_RefundHeld_def Committed_def Settling_def Settled_def PayoutReceived_def
  Stalled_def Recovered_def SetHeight_def money_update_def each_state_def Let_def

text \<open>What holds of every state: nothing is shown as committed or settling without a refund, the
  advertised stake, pot and maturity never change, and the entry is the seat's own.\<close>

definition state_ok :: "u64 \<Rightarrow> u64 \<Rightarrow> u32 \<Rightarrow> int \<Rightarrow> money_state \<Rightarrow> bool" where
  "state_ok stake pot height seat s \<longleftrightarrow> MSeat s = seat \<and> StakeSatoshis s = stake \<and> PotSatoshis s = pot
     \<and> RefundSpendableAtHeight s = height
     \<and> (MPhase s \<in> {MoneyRefundHeld, MoneyCommitted, MoneySettling} \<longrightarrow> MRefundHeld s)
     \<and> (MRefundHeld s \<longrightarrow> MPhase s \<noteq> MoneyUncommitted)
     \<and> (MPhase s = MoneyStalled \<longrightarrow> MStallReason s \<noteq> '''')"

definition tracker_ok :: "int \<Rightarrow> u64 \<Rightarrow> u64 \<Rightarrow> u32 \<Rightarrow> tracker \<Rightarrow> bool" where
  "tracker_ok n stake pot height t \<longleftrightarrow>
     dom t = {0..<n} \<and> (\<forall>seat s. t seat = Some s \<longrightarrow> state_ok stake pot height seat s)"

lemma money_step_ok:
  assumes "tracker_ok n stake pot height t"
  shows "tracker_ok n stake pot height (money_step t e)"
proof -
  obtain now e' where e: "e = (now, e')" by fastforce
  have each: "tracker_ok n stake pot height (each_state t f)"
    if "\<And>seat s. state_ok stake pot height seat s \<Longrightarrow> state_ok stake pot height seat (f seat s)" for f
    using assms that by (auto simp: tracker_ok_def each_state_def dom_def)
  have upd: "tracker_ok n stake pot height (snd (money_update t now seat fn))"
    if "\<And>s s'. state_ok stake pot height seat s \<Longrightarrow> fn s = Inr s' \<Longrightarrow> state_ok stake pot height seat s'" for seat fn
  proof (cases "t seat")
    case (Some s)
    have "state_ok stake pot height seat s" using Some assms by (auto simp: tracker_ok_def)
    note that [OF this]
    then have "state_ok stake pot height seat (s'\<lparr>UpdatedAt := now\<rparr>)" if "fn s = Inr s'" for s'
      using that by (simp add: state_ok_def)
    with Some assms show ?thesis by (auto simp: money_update_def tracker_ok_def split: sum.split)
  qed (simp add: money_update_def assms)
  show ?thesis
    unfolding e
    by (cases e')
      (auto simp: SetHand_def Money_RefundHeld_def Committed_def Settling_def Settled_def PayoutReceived_def
        Stalled_def Recovered_def SetHeight_def Let_def assms state_ok_def intro!: each upd split: if_splits)
qed

interpretation money: machine money_step "tracker_ok n stake pot height"
  by unfold_locales (rule money_step_ok)

lemma NewMoneyTracker_ok:
  "NewMoneyTracker n stake pot height now = Inr t \<Longrightarrow> tracker_ok n stake pot height t"
  by (auto simp: NewMoneyTracker_def tracker_ok_def state_ok_def split: if_splits)


lemma Money_All_eq:
  assumes "dom t = {0..<n}"
  shows "Money_All t = map (\<lambda>i. the (t (int i))) [0..<nat n]"
proof -
  have c: "card (dom t) = nat n" using assms by simp
  have "t (int i) \<noteq> None" if "i < nat n" for i
    using assms that by (auto simp: dom_def set_eq_iff)
  then have "List.map_filter t (map int xs) = map (\<lambda>i. the (t (int i))) xs" if "set xs \<subseteq> {..<nat n}" for xs
    using that by (induction xs) (auto simp: List.map_filter_simps split: option.split)
  from this [of "[0..<nat n]"] show ?thesis unfolding Money_All_def c by (simp add: atLeast0LessThan)
qed

section \<open>Properties\<close>

text \<open>
  what a player is told never contradicts the funding rule. After any sequence of updates to a new
  tracker, each of its seats has exactly one entry, listed in seat order; the stake, the pot and the
  maturity height it shows are the advertised ones; no seat is shown with a refund held, committed or
  settling unless its refund is recorded; and a stall always comes with a reason.
\<close>

theorem money_states_consistent:
  assumes "NewMoneyTracker n stake pot height now = Inr t0" and "t = run money_step t0 ops"
  shows "Money_All t = map (\<lambda>i. the (t (int i))) [0..<nat n]
     \<and> (\<forall>i s. t i = Some s \<longrightarrow> 0 \<le> i \<and> i < n \<and> MSeat s = i
         \<and> StakeSatoshis s = stake \<and> PotSatoshis s = pot \<and> RefundSpendableAtHeight s = height
         \<and> (MPhase s \<in> {MoneyRefundHeld, MoneyCommitted, MoneySettling} \<longrightarrow> MRefundHeld s)
         \<and> (MPhase s = MoneyStalled \<longrightarrow> MStallReason s \<noteq> ''''))"
proof -
  have ok: "tracker_ok n stake pot height t"
    using money.run_inv [OF NewMoneyTracker_ok [OF assms(1)]] assms(2) by simp
  moreover have "0 \<le> i \<and> i < n" if "t i = Some s" for i s
    using ok that by (auto simp: tracker_ok_def dom_def set_eq_iff)
  ultimately show ?thesis using Money_All_eq by (auto simp: tracker_ok_def state_ok_def)
qed

definition sample_tracker :: tracker where
  "sample_tracker = (case NewMoneyTracker 2 1000 2000 900000 0 of Inr t \<Rightarrow> t | Inl e \<Rightarrow> Map.empty)"

definition money_script :: "(int \<times> money_op) list" where
  "money_script = [(1, MCommitted 0), (2, MRefund 0), (3, MCommitted 0), (4, MSettling ''ab'')]"

theorem money_states_consistent_witness:
  "\<exists>s. run money_step sample_tracker money_script 0 = Some s \<and> MPhase s = MoneySettling \<and> MRefundHeld s"
proof -
  have N: "NewMoneyTracker 2 1000 2000 900000 0 = Inr sample_tracker"
    by (simp add: sample_tracker_def NewMoneyTracker_def TMinSeats_def TMaxSeats_def)
  have "map_option MPhase (run money_step sample_tracker money_script 0) = Some MoneySettling" by code_simp
  then obtain s where s: "run money_step sample_tracker money_script 0 = Some s" "MPhase s = MoneySettling"
    by (auto simp: map_option_eq_Some)
  with money_states_consistent [OF N refl, of money_script] show ?thesis by auto
qed

end
