(* ===== verification/Cosign.thy ===== *)
theory Cosign
  imports Table "HOL-Library.Multiset"
begin

text \<open>
  The shared pot of \<^verbatim>\<open>internal/protocol/cosign\<close>: its script, the assembly of a complete signature
  set, the checks a seat makes before it signs a settlement or a refund, and the construction of
  refunds. Transactions, scripts and keys are types of the go-sdk, which is not part of the
  repository: a transaction is a record of the fields the code reads, scripts and keys are type
  parameters, and the SDK functions the code calls are the fields of \<open>sdk\<close>. Satoshi amounts are
  64-bit words and every sum wraps as it does in Go.
\<close>

section \<open>What the SDK provides\<close>

datatype opcode = Op0 | Op2 | Op3 | Op4 | Op5 | Op6 | OpCHECKMULTISIG

record 's txout =
  Satoshis :: u64
  LockingScript :: "'s option"

record 's txin =
  SourceTXID :: "string option"
  SourceTxOutIndex :: u32
  SequenceNumber :: u32
  SourceTxOutput :: "'s txout option"
  UnlockingScript :: "'s option"

record 's transaction =
  Inputs :: "'s txin list"
  Outputs :: "'s txout list"
  LockTime :: u32

record ('s, 'k) sdk =
  NewScript :: 's
  AppendOpcodes :: "'s \<Rightarrow> opcode list \<Rightarrow> 's option"
  AppendPushData :: "'s \<Rightarrow> bytes \<Rightarrow> 's option"
  ScriptString :: "'s \<Rightarrow> string"
  ScriptLen :: "'s \<Rightarrow> nat"
  Compressed :: "'k \<Rightarrow> bytes"
  P2PKHLock :: "'k \<Rightarrow> 's option"
  ParseTxid :: "string \<Rightarrow> string option"
  DefaultSequenceNumber :: u32

section \<open>The pot script\<close>

definition PotMaxSeats :: int where "PotMaxSeats = 6"

datatype cosign_error = PotTooFewSeats nat | PotTooManySeats nat | NoSmallInt nat | ScriptAppend
  | SeatHasNoKey nat | SeatRepeatsKey nat
  | AssembleTooFewSeats int | IncompleteSignatures nat int | SignatureSeatOutside int | TwoSignatures int
  | EmptySignature int | NoSignatureFrom nat
  | NoTransaction | DoesNotSpend string u32 | NoPotScript
  | ExpectationNamesNoPot | UnboundedExpectation | PotInputOutside int nat | NoSourceTx int
  | SpendsAnotherPot int | PotSpentTwice nat | OutputWithoutScript nat | RecipientNotPaid string
  | WrongPayout string u64 u64 | UnexpectedOutput string u64 | OutputsExceedPot u64 u64 | FeeAboveLimit u64 u64
  | NoOwnScript | NoLockTime | AllInputsFinal | PaysOthers u64 | PaysNothing | PaysAboveStake u64 u64
  | NamesNoBalances | NoFeeBound | MaturesTooLate u32 u32 | SeatUnpaid string u64 | WrongBalance string u64 u64
  | SeveralShort
  | RecipientMissing | NotPayable u64 u64 | LockHeightMissing | BothForms | RefundRecipientKey nat
  | RefundOwedNothing nat | BalancesTotal u64 u64 | FeeMissing | NoBalanceForFee | BadTxid string

definition smallInt :: "nat \<Rightarrow> (cosign_error, opcode) res" where
  "smallInt n = (if n = 2 then Inr Op2 else if n = 3 then Inr Op3 else if n = 4 then Inr Op4
     else if n = 5 then Inr Op5 else if n = 6 then Inr Op6 else Inl (NoSmallInt n))"

fun append_keys ::
  "('s, 'k) sdk \<Rightarrow> nat \<Rightarrow> bytes list \<Rightarrow> 's \<Rightarrow> 'k option list \<Rightarrow> (cosign_error, 's) res" where
  "append_keys sdk i seen_keys s [] = Inr s"
| "append_keys sdk i seen_keys s (pub # seats) =
     (case pub of
        None \<Rightarrow> Inl (SeatHasNoKey i)
      | Some p \<Rightarrow>
          let key = Compressed sdk p
          in if List.member seen_keys key then Inl (SeatRepeatsKey i)
             else case AppendPushData sdk s key of
                    None \<Rightarrow> Inl ScriptAppend
                  | Some s' \<Rightarrow> append_keys sdk (i + 1) (key # seen_keys) s' seats)"

definition PotScript :: "('s, 'k) sdk \<Rightarrow> 'k option list \<Rightarrow> (cosign_error, 's) res" where
  "PotScript sdk seats =
     (if length seats < 2 then Inl (PotTooFewSeats (length seats))
      else if int (length seats) > PotMaxSeats then Inl (PotTooManySeats (length seats))
      else case smallInt (length seats) of
             Inl e \<Rightarrow> Inl e
           | Inr n \<Rightarrow>
               (case AppendOpcodes sdk (NewScript sdk) [n] of
                  None \<Rightarrow> Inl ScriptAppend
                | Some s \<Rightarrow>
                    (case append_keys sdk 0 [] s seats of
                       Inl e \<Rightarrow> Inl e
                     | Inr s' \<Rightarrow>
                         (case AppendOpcodes sdk s' [n, OpCHECKMULTISIG] of
                            None \<Rightarrow> Inl ScriptAppend
                          | Some s'' \<Rightarrow> Inr s''))))"

definition UnlockingScriptLength :: "int \<Rightarrow> u32" where
  "UnlockingScriptLength seats = word_of_int (1 + seats * (1 + 73) + 8)"

section \<open>Signatures\<close>

record signature =
  SigSeat :: int
  SigKey :: string
  DER :: bytes

text \<open>An absent signature is the zero value, whose \<open>DER\<close> is nil, here the empty list.\<close>

fun order_sigs :: "int \<Rightarrow> signature list \<Rightarrow> bytes list \<Rightarrow> (cosign_error, bytes list) res" where
  "order_sigs seats [] ordered = Inr ordered"
| "order_sigs seats (s # sigs) ordered =
     (if SigSeat s < 0 \<or> SigSeat s \<ge> seats then Inl (SignatureSeatOutside (SigSeat s))
      else if ordered ! nat (SigSeat s) \<noteq> [] then Inl (TwoSignatures (SigSeat s))
      else if DER s = [] then Inl (EmptySignature (SigSeat s))
      else order_sigs seats sigs (ordered[nat (SigSeat s) := DER s]))"

fun push_all :: "('s, 'k) sdk \<Rightarrow> 's \<Rightarrow> bytes list \<Rightarrow> (cosign_error, 's) res" where
  "push_all sdk s [] = Inr s"
| "push_all sdk s (d # ds) =
     (case AppendPushData sdk s d of None \<Rightarrow> Inl ScriptAppend | Some s' \<Rightarrow> push_all sdk s' ds)"

definition Assemble :: "('s, 'k) sdk \<Rightarrow> signature list \<Rightarrow> int \<Rightarrow> (cosign_error, 's) res" where
  "Assemble sdk sigs seats =
     (if seats < 2 then Inl (AssembleTooFewSeats seats)
      else if int (length sigs) \<noteq> seats then Inl (IncompleteSignatures (length sigs) seats)
      else case order_sigs seats sigs (replicate (nat seats) []) of
             Inl e \<Rightarrow> Inl e
           | Inr ordered \<Rightarrow>
               (case find (\<lambda>i. ordered ! i = []) [0..<length ordered] of
                  Some i \<Rightarrow> Inl (NoSignatureFrom i)
                | None \<Rightarrow>
                    (case AppendOpcodes sdk (NewScript sdk) [Op0] of
                       None \<Rightarrow> Inl ScriptAppend
                     | Some out \<Rightarrow> push_all sdk out ordered)))"

definition spends :: "'s txin \<Rightarrow> string \<Rightarrow> u32 \<Rightarrow> bool" where
  "spends i txid vout \<longleftrightarrow> SourceTXID i = Some txid \<and> SourceTxOutIndex i = vout"

definition FindPotInput :: "'s transaction option \<Rightarrow> string \<Rightarrow> u32 \<Rightarrow> (cosign_error, nat) res" where
  "FindPotInput tx txid vout =
     (case tx of
        None \<Rightarrow> Inl NoTransaction
      | Some tx \<Rightarrow>
          (case find (\<lambda>i. spends (Inputs tx ! i) txid vout) [0..<length (Inputs tx)] of
             Some i \<Rightarrow> Inr i
           | None \<Rightarrow> Inl (DoesNotSpend txid vout)))"

section \<open>Verifying a settlement\<close>

text \<open>A Go map is the list of its entries in the order the loop visits them; an update of \<open>got\<close> keeps
  one entry per key.\<close>

type_synonym amounts = "(string \<times> u64) list"

definition amount_of :: "amounts \<Rightarrow> string \<Rightarrow> u64" where
  "amount_of m k = (case map_of m k of None \<Rightarrow> 0 | Some v \<Rightarrow> v)"

definition add_amount :: "string \<Rightarrow> u64 \<Rightarrow> amounts \<Rightarrow> amounts" where
  "add_amount k v m = (if map_of m k = None then m @ [(k, v)]
     else map (\<lambda>(k', w). if k' = k then (k', w + v) else (k', w)) m)"

definition drop_key :: "string \<Rightarrow> amounts \<Rightarrow> amounts" where
  "drop_key k m = filter (\<lambda>(k', v). k' \<noteq> k) m"

fun tally_outputs ::
  "('s, 'k) sdk \<Rightarrow> nat \<Rightarrow> 's txout list \<Rightarrow> amounts \<Rightarrow> u64 \<Rightarrow> (cosign_error, amounts \<times> u64) res" where
  "tally_outputs sdk i [] got total_out = Inr (got, total_out)"
| "tally_outputs sdk i (o' # outs) got total_out =
     (case LockingScript o' of
        None \<Rightarrow> Inl (OutputWithoutScript i)
      | Some s \<Rightarrow> tally_outputs sdk (i + 1) outs
                    (add_amount (ToLower (ScriptString sdk s)) (Satoshis o') got) (total_out + Satoshis o'))"

record expectation =
  ExpPotTxid :: string
  ExpPotVout :: u32
  ExpPotSatoshis :: u64
  ExpPayouts :: amounts
  ExpMaxFee :: u64
  ExpPotScriptHex :: string

record 's proposal =
  PropHandID :: string
  PropTx :: "'s transaction option"
  PropPotInput :: int

fun check_payouts :: "amounts \<Rightarrow> amounts \<Rightarrow> (cosign_error, amounts) res" where
  "check_payouts [] got = Inr got"
| "check_payouts ((wantScript, wantSats) # want) got =
     (let key = ToLower wantScript
      in case map_of got key of
           None \<Rightarrow> Inl (RecipientNotPaid key)
         | Some gotSats \<Rightarrow>
             (if gotSats \<noteq> wantSats then Inl (WrongPayout key gotSats wantSats)
              else check_payouts want (drop_key key got)))"

definition VerifyProposal :: "('s, 'k) sdk \<Rightarrow> 's proposal \<Rightarrow> expectation \<Rightarrow> cosign_error option" where
  "VerifyProposal sdk p want =
     (case PropTx p of
        None \<Rightarrow> Some NoTransaction
      | Some tx \<Rightarrow>
          if ExpPotTxid want = '''' then Some ExpectationNamesNoPot
          else if ExpPayouts want = [] \<and> ExpMaxFee want = 0 then Some UnboundedExpectation
          else if PropPotInput p < 0 \<or> PropPotInput p \<ge> int (length (Inputs tx))
          then Some (PotInputOutside (PropPotInput p) (length (Inputs tx)))
          else let pi = nat (PropPotInput p); i = Inputs tx ! pi
            in if SourceTXID i = None then Some (NoSourceTx (PropPotInput p))
               else if \<not> spends i (ExpPotTxid want) (ExpPotVout want) then Some (SpendsAnotherPot (PropPotInput p))
               else case find (\<lambda>k. k \<noteq> pi \<and> spends (Inputs tx ! k) (ExpPotTxid want) (ExpPotVout want))
                              [0..<length (Inputs tx)] of
                      Some k \<Rightarrow> Some (PotSpentTwice k)
                    | None \<Rightarrow>
                        (case tally_outputs sdk 0 (Outputs tx) [] 0 of
                           Inl e \<Rightarrow> Some e
                         | Inr (got, totalOut) \<Rightarrow>
                             (case check_payouts (ExpPayouts want) got of
                                Inl e \<Rightarrow> Some e
                              | Inr rest \<Rightarrow>
                                  (case (if ExpPayouts want \<noteq> []
                                         then find (\<lambda>(key, sats). \<not> (ExpMaxFee want > 0 \<and> sats \<le> ExpMaxFee want)) rest
                                         else None) of
                                     Some (key, sats) \<Rightarrow> Some (UnexpectedOutput key sats)
                                   | None \<Rightarrow>
                                       if totalOut > ExpPotSatoshis want
                                       then Some (OutputsExceedPot totalOut (ExpPotSatoshis want))
                                       else let fee = ExpPotSatoshis want - totalOut
                                         in if ExpMaxFee want > 0 \<and> fee > ExpMaxFee want
                                            then Some (FeeAboveLimit fee (ExpMaxFee want))
                                            else None))))"

section \<open>Verifying refunds\<close>

definition all_final :: "('s, 'k) sdk \<Rightarrow> 's transaction \<Rightarrow> bool" where
  "all_final sdk tx \<longleftrightarrow> list_all (\<lambda>i. SequenceNumber i = DefaultSequenceNumber sdk) (Inputs tx)"

fun refund_paid ::
  "('s, 'k) sdk \<Rightarrow> string \<Rightarrow> nat \<Rightarrow> 's txout list \<Rightarrow> u64 \<Rightarrow> (cosign_error, u64) res" where
  "refund_paid sdk want i [] paid = Inr paid"
| "refund_paid sdk want i (o' # outs) paid =
     (case LockingScript o' of
        None \<Rightarrow> Inl (OutputWithoutScript i)
      | Some s \<Rightarrow>
          if ToLower (ScriptString sdk s) = want then refund_paid sdk want (i + 1) outs (paid + Satoshis o')
          else Inl (PaysOthers (Satoshis o')))"

definition VerifyRefund ::
  "('s, 'k) sdk \<Rightarrow> 's transaction option \<Rightarrow> string \<Rightarrow> u32 \<Rightarrow> u64 \<Rightarrow> 's option \<Rightarrow> u64 \<Rightarrow> cosign_error option" where
  "VerifyRefund sdk tx potTxid potVout stake ownScript maxFee =
     (case tx of
        None \<Rightarrow> Some NoTransaction
      | Some t \<Rightarrow>
          (case ownScript of
             None \<Rightarrow> Some NoOwnScript
           | Some own \<Rightarrow>
               if LockTime t = 0 then Some NoLockTime
               else if all_final sdk t then Some AllInputsFinal
               else case FindPotInput tx potTxid potVout of
                      Inl e \<Rightarrow> Some e
                    | Inr idx \<Rightarrow>
                        (case refund_paid sdk (ToLower (ScriptString sdk own)) 0 (Outputs t) 0 of
                           Inl e \<Rightarrow> Some e
                         | Inr paid \<Rightarrow>
                             if paid = 0 then Some PaysNothing
                             else if paid > stake then Some (PaysAboveStake paid stake)
                             else if maxFee > 0 \<and> stake - paid > maxFee then Some (FeeAboveLimit (stake - paid) maxFee)
                             else None)))"

record shared_expectation =
  SharedPotTxid :: string
  SharedPotVout :: u32
  SharedPotSatoshis :: u64
  Balances :: amounts
  SharedMaxFee :: u64
  MaxLockHeight :: u32

fun check_balances :: "u64 \<Rightarrow> amounts \<Rightarrow> amounts \<Rightarrow> nat \<Rightarrow> (cosign_error, amounts \<times> nat) res" where
  "check_balances maxFee [] got shortfalls = Inr (got, shortfalls)"
| "check_balances maxFee ((wantScript, wantSats) # want) got shortfalls =
     (let key = ToLower wantScript
      in case map_of got key of
           None \<Rightarrow> Inl (SeatUnpaid key wantSats)
         | Some gotSats \<Rightarrow>
             (if gotSats = wantSats then check_balances maxFee want (drop_key key got) shortfalls
              else if gotSats < wantSats \<and> wantSats - gotSats \<le> maxFee
              then check_balances maxFee want (drop_key key got) (shortfalls + 1)
              else Inl (WrongBalance key gotSats wantSats)))"

definition VerifySharedRefund ::
  "('s, 'k) sdk \<Rightarrow> 's transaction option \<Rightarrow> shared_expectation \<Rightarrow> cosign_error option" where
  "VerifySharedRefund sdk tx want =
     (case tx of
        None \<Rightarrow> Some NoTransaction
      | Some t \<Rightarrow>
          if SharedPotTxid want = '''' then Some ExpectationNamesNoPot
          else if Balances want = [] then Some NamesNoBalances
          else if SharedMaxFee want = 0 then Some NoFeeBound
          else if LockTime t = 0 then Some NoLockTime
          else if all_final sdk t then Some AllInputsFinal
          else if MaxLockHeight want > 0 \<and> LockTime t > MaxLockHeight want
          then Some (MaturesTooLate (LockTime t) (MaxLockHeight want))
          else case FindPotInput tx (SharedPotTxid want) (SharedPotVout want) of
                 Inl e \<Rightarrow> Some e
               | Inr idx \<Rightarrow>
                   (case tally_outputs sdk 0 (Outputs t) [] 0 of
                      Inl e \<Rightarrow> Some e
                    | Inr (got, totalOut) \<Rightarrow>
                        (case check_balances (SharedMaxFee want) (Balances want) got 0 of
                           Inl e \<Rightarrow> Some e
                         | Inr (rest, shortfalls) \<Rightarrow>
                             if shortfalls > 1 then Some SeveralShort
                             else case rest of
                                    (key, sats) # _ \<Rightarrow> Some (UnexpectedOutput key sats)
                                  | [] \<Rightarrow>
                                      if totalOut > SharedPotSatoshis want
                                      then Some (OutputsExceedPot totalOut (SharedPotSatoshis want))
                                      else if SharedPotSatoshis want - totalOut > SharedMaxFee want
                                      then Some (FeeAboveLimit (SharedPotSatoshis want - totalOut) (SharedMaxFee want))
                                      else None)))"

definition ScriptForKeyHex :: "('s, 'k) sdk \<Rightarrow> 's option \<Rightarrow> string" where
  "ScriptForKeyHex sdk lock = (case lock of None \<Rightarrow> [] | Some l \<Rightarrow> ToLower (ScriptString sdk l))"

section \<open>Building refunds\<close>

record 's funded_pot =
  PotTxid :: string
  PotVout :: u32
  PotScriptOf :: "'s option"
  PotValue :: u64
  PotBEEF :: bytes

record 'k refund_output =
  OutRecipient :: "'k option"
  OutSatoshis :: u64

record ('s, 'k) refund_args =
  RPot :: "'s funded_pot"
  RRecipient :: "'k option"
  RSatoshis :: u64
  RRecipients :: "'k refund_output list"
  RLockHeight :: u32
  RFee :: u64

definition pot_spend :: "('s, 'k) sdk \<Rightarrow> 's funded_pot \<Rightarrow> string \<Rightarrow> 's txin" where
  "pot_spend sdk pot txid = \<lparr>SourceTXID = Some txid, SourceTxOutIndex = PotVout pot,
     SequenceNumber = DefaultSequenceNumber sdk - 1,
     SourceTxOutput = Some \<lparr>Satoshis = PotValue pot, LockingScript = PotScriptOf pot\<rparr>, UnlockingScript = None\<rparr>"

text \<open>The loop over the recipients: the total, and the largest balance with its index.\<close>

fun scan_recipients ::
  "nat \<Rightarrow> 'k refund_output list \<Rightarrow> u64 \<Rightarrow> u64 \<Rightarrow> int \<Rightarrow> (cosign_error, u64 \<times> u64 \<times> int) res" where
  "scan_recipients i [] tot largest largestIdx = Inr (tot, largest, largestIdx)"
| "scan_recipients i (r # rs) tot largest largestIdx =
     (if OutRecipient r = None then Inl (RefundRecipientKey i)
      else if OutSatoshis r = 0 then Inl (RefundOwedNothing i)
      else if OutSatoshis r > largest
      then scan_recipients (i + 1) rs (tot + OutSatoshis r) (OutSatoshis r) (int i)
      else scan_recipients (i + 1) rs (tot + OutSatoshis r) largest largestIdx)"

fun refund_outputs ::
  "('s, 'k) sdk \<Rightarrow> u64 \<Rightarrow> int \<Rightarrow> nat \<Rightarrow> 'k refund_output list \<Rightarrow> (cosign_error, 's txout list) res" where
  "refund_outputs sdk fee largestIdx i [] = Inr []"
| "refund_outputs sdk fee largestIdx i (r # rs) =
     (case Option.bind (OutRecipient r) (P2PKHLock sdk) of
        None \<Rightarrow> Inl ScriptAppend
      | Some lock \<Rightarrow>
          (case refund_outputs sdk fee largestIdx (i + 1) rs of
             Inl e \<Rightarrow> Inl e
           | Inr outs \<Rightarrow>
               Inr (\<lparr>Satoshis = (if int i = largestIdx then OutSatoshis r - fee else OutSatoshis r),
                     LockingScript = Some lock\<rparr> # outs)))"

definition buildSharedRefund :: "('s, 'k) sdk \<Rightarrow> ('s, 'k) refund_args \<Rightarrow> (cosign_error, 's transaction) res" where
  "buildSharedRefund sdk args =
     (if RRecipient args \<noteq> None \<or> RSatoshis args \<noteq> 0 then Inl BothForms
      else if PotScriptOf (RPot args) = None then Inl NoPotScript
      else if RLockHeight args = 0 then Inl LockHeightMissing
      else case scan_recipients 0 (RRecipients args) 0 0 (-1) of
             Inl e \<Rightarrow> Inl e
           | Inr (tot, largest, largestIdx) \<Rightarrow>
               if tot \<noteq> PotValue (RPot args) then Inl (BalancesTotal tot (PotValue (RPot args)))
               else if RFee args = 0 then Inl FeeMissing
               else if largestIdx < 0 \<or> largest \<le> RFee args then Inl NoBalanceForFee
               else case ParseTxid sdk (PotTxid (RPot args)) of
                      None \<Rightarrow> Inl (BadTxid (PotTxid (RPot args)))
                    | Some txid \<Rightarrow>
                        (case refund_outputs sdk (RFee args) largestIdx 0 (RRecipients args) of
                           Inl e \<Rightarrow> Inl e
                         | Inr outs \<Rightarrow>
                             Inr \<lparr>Inputs = [pot_spend sdk (RPot args) txid], Outputs = outs,
                                  LockTime = RLockHeight args\<rparr>))"

definition BuildRefund :: "('s, 'k) sdk \<Rightarrow> ('s, 'k) refund_args \<Rightarrow> (cosign_error, 's transaction) res" where
  "BuildRefund sdk args =
     (if RRecipients args \<noteq> [] then buildSharedRefund sdk args
      else case RRecipient args of
             None \<Rightarrow> Inl RecipientMissing
           | Some k \<Rightarrow>
               if RSatoshis args = 0 \<or> RSatoshis args > PotValue (RPot args)
               then Inl (NotPayable (RSatoshis args) (PotValue (RPot args)))
               else if RLockHeight args = 0 then Inl LockHeightMissing
               else if PotScriptOf (RPot args) = None then Inl NoPotScript
               else case P2PKHLock sdk k of
                      None \<Rightarrow> Inl ScriptAppend
                    | Some lock \<Rightarrow>
                        (case ParseTxid sdk (PotTxid (RPot args)) of
                           None \<Rightarrow> Inl (BadTxid (PotTxid (RPot args)))
                         | Some txid \<Rightarrow>
                             Inr \<lparr>Inputs = [pot_spend sdk (RPot args) txid],
                                  Outputs = [\<lparr>Satoshis = RSatoshis args, LockingScript = Some lock\<rparr>],
                                  LockTime = RLockHeight args\<rparr>))"

end
