(* ===== verification/Cosign_Props.thy ===== *)
theory Cosign_Props
  imports Cosign
begin

text \<open>
  What the co-signing checks guarantee. A complete signature set assembles in key order whatever the
  order it arrived in; a settlement or refund that a seat's checks accept spends the seat's own pot and
  pays what the seat expects; and the refund the code builds is one every seat's check accepts.
\<close>

section \<open>Assembly\<close>

definition sigs_fit :: "int \<Rightarrow> signature list \<Rightarrow> bytes list \<Rightarrow> bool" where
  "sigs_fit seats sigs ordered \<longleftrightarrow> distinct (map SigSeat sigs)
     \<and> (\<forall>s \<in> set sigs. 0 \<le> SigSeat s \<and> SigSeat s < seats \<and> DER s \<noteq> [] \<and> ordered ! nat (SigSeat s) = [])"

text \<open>The slot of each seat after the loop.\<close>

definition placed :: "signature list \<Rightarrow> bytes list \<Rightarrow> bytes list" where
  "placed sigs ordered = map (\<lambda>k. case find (\<lambda>s. SigSeat s = int k) sigs of None \<Rightarrow> ordered ! k | Some s \<Rightarrow> DER s)
     [0..<length ordered]"

lemma find_sig:
  "distinct (map SigSeat sigs) \<Longrightarrow> s \<in> set sigs \<Longrightarrow> SigSeat s = k \<Longrightarrow> find (\<lambda>s. SigSeat s = k) sigs = Some s"
  by (induction sigs) auto

lemma find_None_sig: "find (\<lambda>s. SigSeat s = k) sigs = None \<longleftrightarrow> k \<notin> SigSeat ` set sigs"
  by (auto simp: find_None_iff)

lemma order_sigs_iff:
  assumes "length ordered = nat seats"
  shows "order_sigs seats sigs ordered = Inr r \<longleftrightarrow> sigs_fit seats sigs ordered \<and> r = placed sigs ordered"
  using assms
proof (induction sigs arbitrary: ordered)
  case Nil
  have "map (\<lambda>k. ordered ! k) [0..<length ordered] = ordered" by (rule map_nth)
  then show ?case by (auto simp: sigs_fit_def placed_def)
next
  case (Cons s sigs)
  let ?i = "nat (SigSeat s)"
  show ?case
  proof (cases "0 \<le> SigSeat s \<and> SigSeat s < seats \<and> DER s \<noteq> [] \<and> ordered ! ?i = []")
    case True
    then have i: "?i < length ordered" using Cons.prems by simp
    have fit: "sigs_fit seats (s # sigs) ordered \<longleftrightarrow> sigs_fit seats sigs (ordered[?i := DER s])"
    proof -
      have "ordered[?i := DER s] ! nat (SigSeat x) = [] \<longleftrightarrow> SigSeat x \<noteq> SigSeat s \<and> ordered ! nat (SigSeat x) = []"
        if "0 \<le> SigSeat x" for x
        using that True i by (cases "nat (SigSeat x) = ?i") auto
      then show ?thesis using True by (auto simp: sigs_fit_def image_iff)
    qed
    have "placed (s # sigs) ordered = placed sigs (ordered[?i := DER s])" if "SigSeat s \<notin> SigSeat ` set sigs"
    proof -
      have "find (\<lambda>t. SigSeat t = int k) sigs = None" if "SigSeat s = int k" for k
        using \<open>SigSeat s \<notin> SigSeat ` set sigs\<close> that by (simp add: find_None_sig)
      then show ?thesis using True by (auto simp: placed_def nth_list_update split: option.split)
    qed
    then have "sigs_fit seats (s # sigs) ordered \<Longrightarrow> placed (s # sigs) ordered = placed sigs (ordered[?i := DER s])"
      by (auto simp: sigs_fit_def)
    with Cons.IH [of "ordered[?i := DER s]"] Cons.prems True fit show ?thesis by auto
  next
    case False
    then show ?thesis by (auto simp: sigs_fit_def)
  qed
qed

lemma find_sig_perm:
  assumes "distinct (map SigSeat sigs)" "mset sigs = mset sigs'"
  shows "find (\<lambda>s. SigSeat s = k) sigs' = find (\<lambda>s. SigSeat s = k) sigs"
proof -
  have d: "distinct (map SigSeat sigs')" "set sigs' = set sigs"
    using assms by (metis mset_map mset_eq_imp_distinct_iff, metis set_mset_mset)
  show ?thesis
  proof (cases "find (\<lambda>s. SigSeat s = k) sigs")
    case None
    then have "find (\<lambda>s. SigSeat s = k) sigs' = None" using d(2) unfolding find_None_sig by simp
    with None show ?thesis by simp
  next
    case (Some s)
    then have "s \<in> set sigs" "SigSeat s = k" by (auto simp: find_Some_iff)
    with d show ?thesis using find_sig [OF d(1), of s k] Some by simp
  qed
qed

lemma seats_covered:
  assumes "distinct (map SigSeat sigs)" "\<forall>s \<in> set sigs. 0 \<le> SigSeat s \<and> SigSeat s < seats" "int (length sigs) = seats"
  shows "SigSeat ` set sigs = {0..<seats}"
proof -
  have "SigSeat ` set sigs \<subseteq> {0..<seats}" using assms(2) by auto
  moreover have "card (SigSeat ` set sigs) = card {0..<seats}"
    using assms(1,3) distinct_card [of "map SigSeat sigs"] by simp
  ultimately show ?thesis by (intro card_subset_eq) auto
qed

text \<open>The assembled script of a complete signature set, in the order of the seats.\<close>

definition seat_ders :: "signature list \<Rightarrow> nat \<Rightarrow> bytes list" where
  "seat_ders sigs n = map (\<lambda>k. DER (the (find (\<lambda>s. SigSeat s = int k) sigs))) [0..<n]"

lemma Assemble_iff:
  "Assemble sdk sigs seats = Inr out \<longleftrightarrow>
     2 \<le> seats \<and> int (length sigs) = seats \<and> distinct (map SigSeat sigs)
   \<and> (\<forall>s \<in> set sigs. 0 \<le> SigSeat s \<and> SigSeat s < seats \<and> DER s \<noteq> [])
   \<and> (\<exists>start. AppendOpcodes sdk (NewScript sdk) [Op0] = Some start
        \<and> push_all sdk start (seat_ders sigs (nat seats)) = Inr out)"
proof (cases "2 \<le> seats \<and> int (length sigs) = seats")
  case True
  let ?z = "replicate (nat seats) []"
  have fit: "sigs_fit seats sigs ?z \<longleftrightarrow> distinct (map SigSeat sigs)
      \<and> (\<forall>s \<in> set sigs. 0 \<le> SigSeat s \<and> SigSeat s < seats \<and> DER s \<noteq> [])"
    using True by (auto simp: sigs_fit_def)
  have full: "placed sigs ?z = seat_ders sigs (nat seats)"
    "find (\<lambda>i. placed sigs ?z ! i = []) [0..<length (placed sigs ?z)] = None" if f: "sigs_fit seats sigs ?z"
  proof -
    have ex: "\<exists>s. find (\<lambda>s. SigSeat s = int k) sigs = Some s \<and> DER s \<noteq> []" if "k < nat seats" for k
    proof -
      have "int k \<in> SigSeat ` set sigs" using seats_covered [of sigs seats] f that True by (auto simp: fit)
      then obtain s where "s \<in> set sigs" "SigSeat s = int k" by auto
      with find_sig [of sigs s "int k"] f show ?thesis by (auto simp: fit)
    qed
    then show "placed sigs ?z = seat_ders sigs (nat seats)"
      by (fastforce simp: placed_def seat_ders_def)
    show "find (\<lambda>i. placed sigs ?z ! i = []) [0..<length (placed sigs ?z)] = None"
      using ex by (fastforce simp: find_None_iff placed_def)
  qed
  show ?thesis
  proof (cases "sigs_fit seats sigs ?z")
    case f: True
    then have "order_sigs seats sigs ?z = Inr (seat_ders sigs (nat seats))"
      using order_sigs_iff [of ?z seats sigs] full by simp
    then show ?thesis using True f full fit
      by (auto simp: Assemble_def split: option.split)
  next
    case f: False
    then have "\<nexists>r. order_sigs seats sigs ?z = Inr r" using order_sigs_iff [of ?z seats sigs] by simp
    then obtain e where "order_sigs seats sigs ?z = Inl e" by (cases "order_sigs seats sigs ?z") auto
    then show ?thesis using True f fit by (simp add: Assemble_def)
  qed
qed (auto simp: Assemble_def)


section \<open>Tallying outputs\<close>

definition script_key :: "('s, 'k) sdk \<Rightarrow> 's txout \<Rightarrow> string option" where
  "script_key sdk o' = map_option (\<lambda>s. ToLower (ScriptString sdk s)) (LockingScript o')"

definition paid_to :: "('s, 'k) sdk \<Rightarrow> 's txout list \<Rightarrow> string \<Rightarrow> u64" where
  "paid_to sdk outs k = sum_list (map Satoshis (filter (\<lambda>o'. script_key sdk o' = Some k) outs))"

definition total_out :: "'s txout list \<Rightarrow> u64" where
  "total_out outs = sum_list (map Satoshis outs)"

lemma map_of_add_amount:
  "map_of (add_amount k v m) k' = (if k' = k then Some (amount_of m k + v) else map_of m k')"
proof (cases "map_of m k")
  case None
  then show ?thesis
    by (auto simp: add_amount_def amount_of_def map_add_def split: option.split)
next
  case (Some w)
  have "map_of (map (\<lambda>(k', w). if k' = k then (k', w + v) else (k', w)) m) k'
      = (if k' = k then map_option (\<lambda>w. w + v) (map_of m k) else map_of m k')"
    by (induction m) auto
  with Some show ?thesis by (simp add: add_amount_def amount_of_def)
qed

lemma keys_add_amount:
  "distinct (map fst m) \<Longrightarrow> distinct (map fst (add_amount k v m))"
proof (cases "map_of m k")
  case None
  then show "distinct (map fst m) \<Longrightarrow> ?thesis" by (simp add: add_amount_def map_of_eq_None_iff)
next
  case (Some w)
  have "map fst (map (\<lambda>(k', w). if k' = k then (k', w + v) else (k', w)) m) = map fst m" by auto
  then have "map fst (add_amount k v m) = map fst m" using Some by (simp only: add_amount_def option.distinct if_False)
  then show "distinct (map fst m) \<Longrightarrow> ?thesis" by (simp only:)
qed

lemma tally_outputs_Inr:
  assumes "tally_outputs sdk i outs got tot = Inr (got', tot')"
  shows "\<forall>o' \<in> set outs. LockingScript o' \<noteq> None" "tot' = tot + total_out outs"
    "map_of got' k = (if (\<exists>o' \<in> set outs. script_key sdk o' = Some k)
                      then Some (amount_of got k + paid_to sdk outs k) else map_of got k)"
    "distinct (map fst got) \<Longrightarrow> distinct (map fst got')"
proof -
  have "(\<forall>o' \<in> set outs. LockingScript o' \<noteq> None) \<and> tot' = tot + total_out outs
    \<and> (\<forall>k. map_of got' k = (if (\<exists>o' \<in> set outs. script_key sdk o' = Some k)
                      then Some (amount_of got k + paid_to sdk outs k) else map_of got k))
    \<and> (distinct (map fst got) \<longrightarrow> distinct (map fst got'))"
    using assms
  proof (induction sdk i outs got tot arbitrary: got' tot' rule: tally_outputs.induct)
    case (1 sdk i got tot)
    then show ?case by (simp add: total_out_def)
  next
    case (2 sdk i o' outs got tot)
    then obtain s where s: "LockingScript o' = Some s" by (auto split: option.splits)
    let ?k = "ToLower (ScriptString sdk s)"
    let ?got = "add_amount ?k (Satoshis o') got"
    have rec: "tally_outputs sdk (i + 1) outs ?got (tot + Satoshis o') = Inr (got', tot')"
      using 2(2) s by simp
    note IH = 2(1) [OF s rec]
    have key: "script_key sdk o' = Some ?k" by (simp add: script_key_def s)
    have "map_of got' k = (if (\<exists>x \<in> set (o' # outs). script_key sdk x = Some k)
                      then Some (amount_of got k + paid_to sdk (o' # outs) k) else map_of got k)" for k
    proof (cases "k = ?k")
      case True
      have "amount_of ?got k = amount_of got k + Satoshis o'"
        using True by (simp add: amount_of_def [of ?got] map_of_add_amount)
      with IH True key show ?thesis
        by (auto simp: paid_to_def map_of_add_amount ac_simps amount_of_def [of ?got])
    next
      case False
      then have "amount_of ?got k = amount_of got k" by (simp add: amount_of_def map_of_add_amount)
      with IH False key show ?thesis by (auto simp: paid_to_def map_of_add_amount)
    qed
    then show ?case using IH s keys_add_amount by (auto simp: total_out_def ac_simps)
  qed
  then show "\<forall>o' \<in> set outs. LockingScript o' \<noteq> None" "tot' = tot + total_out outs"
    "map_of got' k = (if (\<exists>o' \<in> set outs. script_key sdk o' = Some k)
                      then Some (amount_of got k + paid_to sdk outs k) else map_of got k)"
    "distinct (map fst got) \<Longrightarrow> distinct (map fst got')" by auto
qed

lemma tally_outputs_total:
  "\<forall>o' \<in> set outs. LockingScript o' \<noteq> None \<Longrightarrow> \<exists>r. tally_outputs sdk i outs got tot = Inr r"
  by (induction sdk i outs got tot rule: tally_outputs.induct) auto

lemma paid_to_zero: "\<not> (\<exists>o' \<in> set outs. script_key sdk o' = Some k) \<Longrightarrow> paid_to sdk outs k = 0"
  by (simp add: paid_to_def filter_empty_conv [THEN iffD2])

text \<open>The tally of a transaction's outputs, as the two checks start from it.\<close>

lemma tally_all:
  assumes "tally_outputs sdk 0 outs [] 0 = Inr (got, tot)"
  shows "\<forall>o' \<in> set outs. LockingScript o' \<noteq> None" "tot = total_out outs" "distinct (map fst got)"
    "map_of got k = (if (\<exists>o' \<in> set outs. script_key sdk o' = Some k) then Some (paid_to sdk outs k) else None)"
  using tally_outputs_Inr [OF assms] by (simp_all add: amount_of_def)

section \<open>Checking payouts\<close>

lemma map_of_drop_key: "map_of (drop_key k m) k' = (if k' = k then None else map_of m k')"
  by (induction m) (auto simp: drop_key_def)

lemma distinct_drop_key: "distinct (map fst m) \<Longrightarrow> distinct (map fst (drop_key k m))"
  by (induction m) (auto simp: drop_key_def)

lemma check_payouts_Inr:
  assumes "check_payouts want got = Inr rest"
  shows "\<forall>(w, sats) \<in> set want. map_of got (ToLower w) = Some sats"
    "distinct (map (ToLower \<circ> fst) want)"
    "map_of rest k = (if k \<in> ToLower ` fst ` set want then None else map_of got k)"
    "distinct (map fst got) \<Longrightarrow> distinct (map fst rest)"
proof -
  have "(\<forall>(w, sats) \<in> set want. map_of got (ToLower w) = Some sats) \<and> distinct (map (ToLower \<circ> fst) want)
    \<and> (\<forall>k. map_of rest k = (if k \<in> ToLower ` fst ` set want then None else map_of got k))
    \<and> (distinct (map fst got) \<longrightarrow> distinct (map fst rest))"
    using assms
  proof (induction want got rule: check_payouts.induct)
    case (1 got)
    then show ?case by simp
  next
    case (2 w sats want got)
    let ?k = "ToLower w"
    have g: "map_of got ?k = Some sats" and rec: "check_payouts want (drop_key ?k got) = Inr rest"
      using 2(2) by (auto simp: Let_def split: option.splits if_splits)
    have IH: "(\<forall>(w, sats) \<in> set want. map_of (drop_key ?k got) (ToLower w) = Some sats)
      \<and> distinct (map (ToLower \<circ> fst) want)
      \<and> (\<forall>k. map_of rest k = (if k \<in> ToLower ` fst ` set want then None else map_of (drop_key ?k got) k))
      \<and> (distinct (map fst (drop_key ?k got)) \<longrightarrow> distinct (map fst rest))"
      using 2(1) [OF refl g _ rec] by (simp add: comp_def)
    then have other: "ToLower w' \<noteq> ?k \<and> map_of got (ToLower w') = Some s" if "(w', s) \<in> set want" for w' s
      using that by (fastforce simp: map_of_drop_key split: if_splits)
    then have "?k \<notin> ToLower ` fst ` set want" by force
    with IH g other show ?case by (auto simp: map_of_drop_key distinct_drop_key comp_def)
  qed
  then show "\<forall>(w, sats) \<in> set want. map_of got (ToLower w) = Some sats"
    "distinct (map (ToLower \<circ> fst) want)"
    "map_of rest k = (if k \<in> ToLower ` fst ` set want then None else map_of got k)"
    "distinct (map fst got) \<Longrightarrow> distinct (map fst rest)" by auto
qed


lemma VerifyProposal_accepts:
  assumes "VerifyProposal sdk p want = None" and tx: "PropTx p = Some tx"
  obtains got rest where "0 \<le> PropPotInput p" "PropPotInput p < int (length (Inputs tx))"
    "spends (Inputs tx ! nat (PropPotInput p)) (ExpPotTxid want) (ExpPotVout want)"
    "\<forall>k < length (Inputs tx). k \<noteq> nat (PropPotInput p) \<longrightarrow> \<not> spends (Inputs tx ! k) (ExpPotTxid want) (ExpPotVout want)"
    "tally_outputs sdk 0 (Outputs tx) [] 0 = Inr (got, total_out (Outputs tx))"
    "check_payouts (ExpPayouts want) got = Inr rest"
    "ExpPayouts want \<noteq> [] \<longrightarrow> (\<forall>(key, sats) \<in> set rest. sats \<le> ExpMaxFee want \<and> 0 < ExpMaxFee want)"
    "total_out (Outputs tx) \<le> ExpPotSatoshis want"
    "0 < ExpMaxFee want \<longrightarrow> ExpPotSatoshis want - total_out (Outputs tx) \<le> ExpMaxFee want"
proof -
  have ix: "0 \<le> PropPotInput p" "PropPotInput p < int (length (Inputs tx))"
    "spends (Inputs tx ! nat (PropPotInput p)) (ExpPotTxid want) (ExpPotVout want)"
    using assms tx by (auto simp: VerifyProposal_def Let_def split: if_splits)
  have F: "find (\<lambda>k. k \<noteq> nat (PropPotInput p) \<and> spends (Inputs tx ! k) (ExpPotTxid want) (ExpPotVout want))
      [0..<length (Inputs tx)] = None"
    using assms tx ix by (auto simp: VerifyProposal_def Let_def split: if_splits option.splits)
  have guards: "ExpPotTxid want \<noteq> ''''" "\<not> (ExpPayouts want = [] \<and> ExpMaxFee want = 0)"
    "SourceTXID (Inputs tx ! nat (PropPotInput p)) \<noteq> None"
    using assms tx ix by (auto simp: VerifyProposal_def Let_def split: if_splits)
  obtain got tot where T: "tally_outputs sdk 0 (Outputs tx) [] 0 = Inr (got, tot)"
    using assms tx ix F guards by (cases "tally_outputs sdk 0 (Outputs tx) [] 0") (auto simp: VerifyProposal_def Let_def)
  have tot: "tot = total_out (Outputs tx)" using tally_all(2) [OF T] .
  obtain rest where C: "check_payouts (ExpPayouts want) got = Inr rest"
    using assms tx ix F guards T by (cases "check_payouts (ExpPayouts want) got") (auto simp: VerifyProposal_def Let_def)
  have X: "(if ExpPayouts want \<noteq> [] then find (\<lambda>(key, sats). \<not> (ExpMaxFee want > 0 \<and> sats \<le> ExpMaxFee want)) rest
       else None) = None"
    using assms tx ix F guards T C
    by (cases "if ExpPayouts want \<noteq> [] then find (\<lambda>(key, sats). \<not> (ExpMaxFee want > 0 \<and> sats \<le> ExpMaxFee want)) rest
       else None") (auto simp: VerifyProposal_def Let_def simp del: if_split)
  have V: "\<not> tot > ExpPotSatoshis want" "\<not> (ExpMaxFee want > 0 \<and> ExpPotSatoshis want - tot > ExpMaxFee want)"
    using assms tx ix F guards T C X by (auto simp: VerifyProposal_def Let_def split: if_splits)
  show thesis
  proof (rule that [OF ix _ T [unfolded tot] C])
    show "\<forall>k < length (Inputs tx). k \<noteq> nat (PropPotInput p) \<longrightarrow> \<not> spends (Inputs tx ! k) (ExpPotTxid want) (ExpPotVout want)"
      using F by (auto simp: find_None_iff)
    show "ExpPayouts want \<noteq> [] \<longrightarrow> (\<forall>(key, sats) \<in> set rest. sats \<le> ExpMaxFee want \<and> 0 < ExpMaxFee want)"
      using X by (auto simp: find_None_iff split: if_splits)
    show "total_out (Outputs tx) \<le> ExpPotSatoshis want" using V tot by simp
    show "0 < ExpMaxFee want \<longrightarrow> ExpPotSatoshis want - total_out (Outputs tx) \<le> ExpMaxFee want"
      using V tot by (auto simp: not_less)
  qed
qed


section \<open>Checking balances\<close>

text \<open>A balance is honoured when the script is paid it in full or short by no more than the fee bound.\<close>

definition honoured :: "u64 \<Rightarrow> amounts \<Rightarrow> string \<times> u64 \<Rightarrow> bool" where
  "honoured maxFee got b \<longleftrightarrow> (case map_of got (ToLower (fst b)) of None \<Rightarrow> False
     | Some g \<Rightarrow> g = snd b \<or> (g < snd b \<and> snd b - g \<le> maxFee))"

definition short_of :: "amounts \<Rightarrow> string \<times> u64 \<Rightarrow> bool" where
  "short_of got b \<longleftrightarrow> map_of got (ToLower (fst b)) \<noteq> Some (snd b)"

lemma drop_key_other: "k' \<noteq> k \<Longrightarrow> map_of (drop_key k m) k' = map_of m k'"
  by (simp add: map_of_drop_key)

lemma check_balances_iff:
  "check_balances maxFee want got n = Inr (rest, n') \<longleftrightarrow>
     distinct (map (ToLower \<circ> fst) want) \<and> (\<forall>b \<in> set want. honoured maxFee got b)
   \<and> rest = filter (\<lambda>(k, v). k \<notin> ToLower ` fst ` set want) got \<and> n' = n + length (filter (short_of got) want)"
proof (induction want arbitrary: got n)
  case Nil
  then show ?case by auto
next
  case (Cons b want)
  obtain w s where b: "b = (w, s)" by (cases b)
  let ?k = "ToLower w"
  show ?case
  proof (cases "honoured maxFee got b")
    case False
    then show ?thesis by (auto simp: b honoured_def Let_def split: option.splits)
  next
    case True
    have step: "check_balances maxFee (b # want) got n
        = check_balances maxFee want (drop_key ?k got) (n + (if short_of got b then 1 else 0))"
      using True by (auto simp: b honoured_def short_of_def Let_def split: option.splits)
    show ?thesis
    proof (cases "?k \<in> ToLower ` fst ` set want")
      case True
      then obtain w' s' where "(w', s') \<in> set want" "ToLower w' = ?k" by auto
      then have "\<not> honoured maxFee (drop_key ?k got) (w', s')" by (simp add: honoured_def map_of_drop_key)
      then have "check_balances maxFee (b # want) got n \<noteq> Inr (rest, n')"
        using \<open>(w', s') \<in> set want\<close> step Cons.IH by auto
      then show ?thesis using True by (auto simp: b image_image)
    next
      case False
      then have "ToLower (fst c) \<noteq> ?k" if "c \<in> set want" for c using that by (metis image_eqI)
      then have same: "honoured maxFee (drop_key ?k got) c = honoured maxFee got c"
        "short_of (drop_key ?k got) c = short_of got c" if "c \<in> set want" for c
        using that by (simp_all add: honoured_def short_of_def drop_key_other)
      have "filter (\<lambda>(k, v). k \<notin> ToLower ` fst ` set want) (drop_key ?k got)
          = filter (\<lambda>(k, v). k \<notin> ToLower ` fst ` set (b # want)) got"
        by (auto simp: drop_key_def b intro: filter_cong)
      moreover have "filter (short_of (drop_key ?k got)) want = filter (short_of got) want"
        using same by (auto intro: filter_cong)
      ultimately show ?thesis using step Cons.IH [of "drop_key ?k got"] same False True
        by (auto simp: b image_image)
    qed
  qed
qed

text \<open>An accepted shared refund, with the guards it has passed.\<close>

lemma FindPotInput_iff:
  "(\<exists>idx. FindPotInput (Some t) txid vout = Inr idx) \<longleftrightarrow> (\<exists>i \<in> set (Inputs t). spends i txid vout)"
proof -
  have "find (\<lambda>i. spends (Inputs t ! i) txid vout) [0..<length (Inputs t)] = None
      \<longleftrightarrow> \<not> (\<exists>i \<in> set (Inputs t). spends i txid vout)"
    by (fastforce simp: find_None_iff in_set_conv_nth)
  then show ?thesis by (auto simp: FindPotInput_def split: option.splits)
qed

lemma VerifySharedRefund_iff:
  "VerifySharedRefund sdk (Some t) want = None \<longleftrightarrow>
     SharedPotTxid want \<noteq> '''' \<and> Balances want \<noteq> [] \<and> SharedMaxFee want \<noteq> 0 \<and> LockTime t \<noteq> 0 \<and> \<not> all_final sdk t
   \<and> (MaxLockHeight want > 0 \<longrightarrow> LockTime t \<le> MaxLockHeight want)
   \<and> (\<exists>i \<in> set (Inputs t). spends i (SharedPotTxid want) (SharedPotVout want))
   \<and> (\<exists>got tot n. tally_outputs sdk 0 (Outputs t) [] 0 = Inr (got, tot)
        \<and> check_balances (SharedMaxFee want) (Balances want) got 0 = Inr ([], n) \<and> n \<le> 1
        \<and> tot \<le> SharedPotSatoshis want \<and> SharedPotSatoshis want - tot \<le> SharedMaxFee want)"
proof (cases "FindPotInput (Some t) (SharedPotTxid want) (SharedPotVout want)")
  case (Inl e)
  then have "\<not> (\<exists>i \<in> set (Inputs t). spends i (SharedPotTxid want) (SharedPotVout want))"
    by (simp flip: FindPotInput_iff)
  with Inl show ?thesis by (simp add: VerifySharedRefund_def)
next
  case (Inr idx)
  then have sp: "\<exists>i \<in> set (Inputs t). spends i (SharedPotTxid want) (SharedPotVout want)"
    by (simp flip: FindPotInput_iff)
  show ?thesis
  proof (cases "tally_outputs sdk 0 (Outputs t) [] 0")
    case (Inl e)
    then show ?thesis using Inr by (simp add: VerifySharedRefund_def)
  next
    case T: (Inr r)
    obtain got tot where r: "r = (got, tot)" by (cases r)
    show ?thesis
    proof (cases "check_balances (SharedMaxFee want) (Balances want) got 0")
      case (Inl e)
      then show ?thesis using Inr T r by (simp add: VerifySharedRefund_def)
    next
      case C: (Inr c)
      obtain rest n where c: "c = (rest, n)" by (cases c)
      show ?thesis using sp by (cases rest) (auto simp: VerifySharedRefund_def Inr T r C c)
    qed
  qed
qed

section \<open>Amounts as numbers\<close>

text \<open>What a script receives and what is paid in all, as numbers. They are the 64-bit sums of the code as
  long as the outputs do not add up to \<open>2\<^sup>6\<^sup>4\<close> satoshis.\<close>

definition sat_paid :: "('s, 'k) sdk \<Rightarrow> 's txout list \<Rightarrow> string \<Rightarrow> nat" where
  "sat_paid sdk outs k = sum_list (map (\<lambda>o'. unat (Satoshis o')) (filter (\<lambda>o'. script_key sdk o' = Some k) outs))"

definition sat_total :: "'s txout list \<Rightarrow> nat" where
  "sat_total outs = sum_list (map (\<lambda>o'. unat (Satoshis o')) outs)"

lemma unat_total_out: "sat_total outs < 2 ^ 64 \<Longrightarrow> unat (total_out outs) = sat_total outs"
  using unat_sum_list [of "map Satoshis outs"] by (simp add: sat_total_def total_out_def comp_def)

lemma unat_paid_to: "sat_total outs < 2 ^ 64 \<Longrightarrow> unat (paid_to sdk outs k) = sat_paid sdk outs k"
proof -
  assume lt: "sat_total outs < 2 ^ 64"
  have "sat_paid sdk outs k \<le> sat_total outs"
    unfolding sat_paid_def sat_total_def by (rule sum_list_filter_le)
  with lt have "sum_list (map unat (map Satoshis (filter (\<lambda>o'. script_key sdk o' = Some k) outs))) < 2 ^ 64"
    by (simp add: sat_paid_def comp_def)
  from unat_sum_list [OF this] show ?thesis by (simp add: paid_to_def sat_paid_def comp_def)
qed

lemma fee_bound:
  fixes pot tot fee :: u64
  assumes "tot \<le> pot" "pot - tot \<le> fee"
  shows "unat pot \<le> unat tot + unat fee"
proof -
  have "unat (pot - tot) = unat pot - unat tot" using assms(1) by (rule unat_sub)
  moreover have "unat (pot - tot) \<le> unat fee" using assms(2) by (simp add: word_le_nat_alt)
  ultimately show ?thesis by simp
qed

section \<open>Refunds the code builds\<close>

definition refund_key :: "('s, 'k) sdk \<Rightarrow> 'k refund_output \<Rightarrow> string" where
  "refund_key sdk r = (case Option.bind (OutRecipient r) (P2PKHLock sdk) of
     None \<Rightarrow> '''' | Some lock \<Rightarrow> ToLower (ScriptString sdk lock))"

text \<open>What a seat that holds the same record of the balances requires of the refund.\<close>

definition refund_expectation :: "('s, 'k) sdk \<Rightarrow> ('s, 'k) refund_args \<Rightarrow> u64 \<Rightarrow> u32 \<Rightarrow> shared_expectation" where
  "refund_expectation sdk args maxFee maxLock = \<lparr>SharedPotTxid = PotTxid (RPot args), SharedPotVout = PotVout (RPot args),
     SharedPotSatoshis = PotValue (RPot args),
     Balances = map (\<lambda>r. (refund_key sdk r, OutSatoshis r)) (RRecipients args),
     SharedMaxFee = maxFee, MaxLockHeight = maxLock\<rparr>"

lemma scan_recipients_Inr:
  assumes "scan_recipients i rs tot lg li = Inr (tot', lg', li')"
  shows "tot' = tot + sum_list (map OutSatoshis rs)
     \<and> (lg' = lg \<and> li' = li \<or> (\<exists>j < length rs. li' = int (i + j) \<and> lg' = OutSatoshis (rs ! j)))"
  using assms
proof (induction i rs tot lg li rule: scan_recipients.induct)
  case (1 i tot lg li)
  then show ?case by simp
next
  case (2 i r rs tot lg li)
  then have ok: "OutRecipient r \<noteq> None" "OutSatoshis r \<noteq> 0" by (auto split: if_splits)
  have shift: "\<exists>j < length (r # rs). li' = int (i + j) \<and> lg' = OutSatoshis ((r # rs) ! j)"
    if ex: "\<exists>j < length rs. li' = int (i + 1 + j) \<and> lg' = OutSatoshis (rs ! j)"
  proof -
    obtain j where "j < length rs" "li' = int (i + 1 + j)" "lg' = OutSatoshis (rs ! j)" using ex by blast
    then show ?thesis by (intro exI [of _ "j + 1"]) simp
  qed
  show ?case
  proof (cases "OutSatoshis r > lg")
    case True
    from 2(1) [OF _ _ True] 2(3) ok True have
      "tot' = tot + OutSatoshis r + sum_list (map OutSatoshis rs)
       \<and> (lg' = OutSatoshis r \<and> li' = int i \<or> (\<exists>j < length rs. li' = int (i + 1 + j) \<and> lg' = OutSatoshis (rs ! j)))"
      by simp
    moreover have "lg' = OutSatoshis r \<and> li' = int i \<Longrightarrow> \<exists>j < length (r # rs). li' = int (i + j) \<and> lg' = OutSatoshis ((r # rs) ! j)"
      by (intro exI [of _ 0]) simp
    ultimately show ?thesis using shift by (auto simp: ac_simps)
  next
    case False
    from 2(2) [OF _ _ False] 2(3) ok False have
      "tot' = tot + OutSatoshis r + sum_list (map OutSatoshis rs)
       \<and> (lg' = lg \<and> li' = li \<or> (\<exists>j < length rs. li' = int (i + 1 + j) \<and> lg' = OutSatoshis (rs ! j)))"
      by simp
    then show ?thesis using shift by (auto simp: ac_simps)
  qed
qed

lemma refund_outputs_Inr:
  assumes "refund_outputs sdk fee li i rs = Inr outs"
  shows "length outs = length rs
     \<and> (\<forall>j < length rs. script_key sdk (outs ! j) = Some (refund_key sdk (rs ! j))
          \<and> Satoshis (outs ! j) = OutSatoshis (rs ! j) - (if int (i + j) = li then fee else 0))
     \<and> total_out outs = sum_list (map OutSatoshis rs) - (if int i \<le> li \<and> li < int (i + length rs) then fee else 0)"
  using assms
proof (induction sdk fee li i rs arbitrary: outs rule: refund_outputs.induct)
  case (1 sdk fee li i)
  then show ?case by (auto simp: total_out_def)
next
  case (2 sdk fee li i r rs)
  obtain lock outs' where lock: "Option.bind (OutRecipient r) (P2PKHLock sdk) = Some lock"
    and rec: "refund_outputs sdk fee li (i + 1) rs = Inr outs'"
    and outs: "outs = \<lparr>Satoshis = (if int i = li then OutSatoshis r - fee else OutSatoshis r), LockingScript = Some lock\<rparr> # outs'"
    using 2(2) by (auto split: option.splits sum.splits)
  note IH = 2(1) [OF lock rec]
  have "script_key sdk (outs ! j) = Some (refund_key sdk ((r # rs) ! j))
      \<and> Satoshis (outs ! j) = OutSatoshis ((r # rs) ! j) - (if int (i + j) = li then fee else 0)" if "j < length (r # rs)" for j
    using that IH lock by (cases j) (auto simp: outs script_key_def refund_key_def)
  moreover have "total_out outs = sum_list (map OutSatoshis (r # rs))
      - (if int i \<le> li \<and> li < int (i + length (r # rs)) then fee else 0)"
    using IH by (auto simp: outs total_out_def)
  ultimately show ?case using IH by (simp add: outs)
qed

lemma paid_to_single:
  "distinct (map (script_key sdk) outs) \<Longrightarrow> x \<in> set outs \<Longrightarrow> script_key sdk x = Some k \<Longrightarrow> paid_to sdk outs k = Satoshis x"
proof (induction outs)
  case (Cons y outs)
  show ?case
  proof (cases "y = x")
    case True
    then have "\<not> (\<exists>z \<in> set outs. script_key sdk z = Some k)" using Cons.prems by (auto simp: image_iff)
    then show ?thesis using True Cons.prems paid_to_zero [of outs sdk k] by (simp add: paid_to_def)
  next
    case False
    then have "script_key sdk y \<noteq> Some k" using Cons.prems by (auto simp: image_iff)
    then show ?thesis using False Cons by (auto simp: paid_to_def)
  qed
qed simp

lemma at_most_one:
  assumes "\<And>j. j < length xs \<Longrightarrow> P (xs ! j) \<Longrightarrow> j = j0"
  shows "length (filter P xs) \<le> 1"
proof -
  have "{i. i < length xs \<and> P (xs ! i)} \<subseteq> {j0}" using assms by auto
  then have "card {i. i < length xs \<and> P (xs ! i)} \<le> card {j0}" by (rule card_mono [rotated]) simp
  then show ?thesis by (simp add: length_filter_conv_card)
qed

lemma lower_lower_char: "lower_char (lower_char c) = lower_char c"
  by (auto simp: lower_char_def take_bit_eq_mod)

lemma lower_lower [simp]: "ToLower (ToLower s) = ToLower s"
  by (simp add: ToLower_def lower_lower_char)

lemma lower_refund_key [simp]: "ToLower (refund_key sdk r) = refund_key sdk r"
  by (cases "Option.bind (OutRecipient r) (P2PKHLock sdk)") (simp_all add: refund_key_def, simp add: ToLower_def)

lemma refund_tallied:
  assumes outs: "refund_outputs sdk fee (int j0) 0 rs = Inr outs" and keys: "distinct (map (refund_key sdk) rs)"
  obtains got where "tally_outputs sdk 0 outs [] 0 = Inr (got, total_out outs)"
    "\<And>j. j < length rs \<Longrightarrow> map_of got (refund_key sdk (rs ! j)) = Some (OutSatoshis (rs ! j) - (if j = j0 then fee else 0))"
    "fst ` set got \<subseteq> refund_key sdk ` set rs"
proof -
  note O = refund_outputs_Inr [OF outs]
  have ks: "map (script_key sdk) outs = map Some (map (refund_key sdk) rs)"
    using O by (intro nth_equalityI) auto
  have dk: "distinct (map (script_key sdk) outs)" unfolding ks using keys by (subst distinct_map) simp
  have "LockingScript x \<noteq> None" if "x \<in> set outs" for x
  proof -
    have "script_key sdk x \<in> set (map (script_key sdk) outs)" using that by simp
    then show ?thesis unfolding ks by (auto simp: script_key_def)
  qed
  then obtain got tot where T: "tally_outputs sdk 0 outs [] 0 = Inr (got, tot)"
    using tally_outputs_total [of outs sdk 0 "[]" 0] by (metis surj_pair)
  note tally = tally_all(4) [OF T]
  show thesis
  proof (rule that)
    show "tally_outputs sdk 0 outs [] 0 = Inr (got, total_out outs)" using T tally_all(2) [OF T] by simp
    fix j assume j: "j < length rs"
    then have mem: "outs ! j \<in> set outs" "script_key sdk (outs ! j) = Some (refund_key sdk (rs ! j))" using O by auto
    then have "map_of got (refund_key sdk (rs ! j)) = Some (paid_to sdk outs (refund_key sdk (rs ! j)))"
      using tally [of "refund_key sdk (rs ! j)"] by auto
    then show "map_of got (refund_key sdk (rs ! j)) = Some (OutSatoshis (rs ! j) - (if j = j0 then fee else 0))"
      using paid_to_single [OF dk mem] O j by simp
  next
    have "k \<in> refund_key sdk ` set rs" if "k \<in> fst ` set got" for k
    proof -
      have "map_of got k \<noteq> None" using that by (simp add: map_of_eq_None_iff)
      then have "Some k \<in> set (map (script_key sdk) outs)" using tally [of k] by (force split: if_splits)
      then show ?thesis unfolding ks by auto
    qed
    then show "fst ` set got \<subseteq> refund_key sdk ` set rs" by blast
  qed
qed

lemma refund_balances_checked:
  assumes got: "\<And>j. j < length rs \<Longrightarrow> map_of got (refund_key sdk (rs ! j)) = Some (OutSatoshis (rs ! j) - (if j = j0 then fee else 0))"
    and dom: "fst ` set got \<subseteq> refund_key sdk ` set rs" and keys: "distinct (map (refund_key sdk) rs)"
    and fee: "fee \<noteq> 0" "fee < OutSatoshis (rs ! j0)" "fee \<le> maxFee"
  shows "\<exists>n \<le> 1. check_balances maxFee (map (\<lambda>r. (refund_key sdk r, OutSatoshis r)) rs) got 0 = Inr ([], n)"
proof -
  let ?bal = "map (\<lambda>r. (refund_key sdk r, OutSatoshis r)) rs"
  have less: "OutSatoshis (rs ! j0) - fee < OutSatoshis (rs ! j0)"
  proof -
    have "0 < unat fee" using fee(1) by (simp add: unat_gt_0)
    then show ?thesis using fee(2) by (simp add: word_less_nat_alt unat_sub order_less_imp_le)
  qed
  have hon: "honoured maxFee got (?bal ! j)" and one: "short_of got (?bal ! j) \<Longrightarrow> j = j0" if j: "j < length ?bal" for j
    using got [of j] j less fee by (auto simp: honoured_def short_of_def split: if_splits)
  have "\<forall>b \<in> set ?bal. honoured maxFee got b" using hon unfolding all_set_conv_all_nth by blast
  moreover have "filter (\<lambda>(k, v). k \<notin> ToLower ` fst ` set ?bal) got = []"
    using dom by (force simp: filter_empty_conv image_image)
  ultimately have "check_balances maxFee ?bal got 0 = Inr ([], length (filter (short_of got) ?bal))"
    unfolding check_balances_iff using keys by (simp add: comp_def)
  moreover have "length (filter (short_of got) ?bal) \<le> 1" using one by (rule at_most_one)
  ultimately show ?thesis by blast
qed

section \<open>Properties\<close>

text \<open>A concrete SDK on which the checks can be run: scripts are strings, keys are byte strings.\<close>

definition push_string :: "bytes \<Rightarrow> string" where
  "push_string b = map (\<lambda>w. char_of (unat w)) b"

fun op_string :: "opcode \<Rightarrow> string" where
  "op_string Op0 = ''00''" | "op_string Op2 = ''52''" | "op_string Op3 = ''53''" | "op_string Op4 = ''54''"
| "op_string Op5 = ''55''" | "op_string Op6 = ''56''" | "op_string OpCHECKMULTISIG = ''ae''"

definition string_sdk :: "(string, bytes) sdk" where
  "string_sdk = \<lparr>NewScript = '''', AppendOpcodes = (\<lambda>s ops. Some (s @ concat (map op_string ops))),
     AppendPushData = (\<lambda>s b. Some (s @ push_string b)), ScriptString = (\<lambda>s. s), ScriptLen = length,
     Compressed = (\<lambda>k. k), P2PKHLock = (\<lambda>k. Some (push_string k)), ParseTxid = Some,
     DefaultSequenceNumber = 0xFFFFFFFF\<rparr>"

text \<open>
  assembly needs the whole table and is blind to arrival order. \<open>Assemble\<close> succeeds exactly when there
  is one non-empty signature for each of the two or more seats and the script can be written; the script is
  then the dummy followed by the signatures in seat order, and any rearrangement of the signatures gives
  the same script.
\<close>

theorem Assemble_in_key_order:
  assumes "Assemble sdk sigs seats = Inr out"
  shows "2 \<le> seats \<and> SigSeat ` set sigs = {0..<seats} \<and> int (length sigs) = seats \<and> (\<forall>s \<in> set sigs. DER s \<noteq> [])
     \<and> (\<exists>start. AppendOpcodes sdk (NewScript sdk) [Op0] = Some start
          \<and> push_all sdk start (seat_ders sigs (nat seats)) = Inr out)
     \<and> (\<forall>sigs'. mset sigs' = mset sigs \<longrightarrow> Assemble sdk sigs' seats = Inr out)"
proof -
  note A = Assemble_iff [THEN iffD1, OF assms]
  have "Assemble sdk sigs' seats = Inr out" if m: "mset sigs' = mset sigs" for sigs'
  proof -
    have "mset (map SigSeat sigs') = mset (map SigSeat sigs)" using m by simp
    then have "distinct (map SigSeat sigs')" using A mset_eq_imp_distinct_iff by blast
    moreover have "set sigs' = set sigs" "length sigs' = length sigs"
      using mset_eq_setD [OF m] mset_eq_length [OF m] by auto
    moreover have "find (\<lambda>s. SigSeat s = k) sigs' = find (\<lambda>s. SigSeat s = k) sigs" for k
      using find_sig_perm [OF _ m [symmetric]] A by simp
    then have "seat_ders sigs' n = seat_ders sigs n" for n by (simp add: seat_ders_def)
    ultimately show ?thesis using A by (simp add: Assemble_iff)
  qed
  moreover have "SigSeat ` set sigs = {0..<seats}" using A by (intro seats_covered) auto
  ultimately show ?thesis using A by blast
qed

definition sig_pair :: "signature list" where
  "sig_pair = [\<lparr>SigSeat = 1, SigKey = ''02bb'', DER = [66]\<rparr>, \<lparr>SigSeat = 0, SigKey = ''02aa'', DER = [65]\<rparr>]"

theorem Assemble_in_key_order_witness:
  "Assemble string_sdk sig_pair 2 = Inr ''00AB'' \<and> Assemble string_sdk (rev sig_pair) 2 = Inr ''00AB''"
proof -
  have A: "Assemble string_sdk sig_pair 2 = Inr ''00AB''" by code_simp
  from Assemble_in_key_order [OF A] have "\<forall>sigs'. mset sigs' = mset sig_pair \<longrightarrow> Assemble string_sdk sigs' 2 = Inr ''00AB''"
    by blast
  with A show ?thesis by simp
qed

lemma accepted_settlement:
  assumes "VerifyProposal sdk p want = None" "PropTx p = Some tx" "sat_total (Outputs tx) < 2 ^ 64"
  shows "{k. k < length (Inputs tx) \<and> spends (Inputs tx ! k) (ExpPotTxid want) (ExpPotVout want)} = {nat (PropPotInput p)}
     \<and> (\<forall>(w, sats) \<in> set (ExpPayouts want). sat_paid sdk (Outputs tx) (ToLower w) = unat sats)
     \<and> distinct (map (ToLower \<circ> fst) (ExpPayouts want))
     \<and> (ExpPayouts want \<noteq> [] \<longrightarrow> (\<forall>k. k \<notin> ToLower ` fst ` set (ExpPayouts want) \<longrightarrow>
          sat_paid sdk (Outputs tx) k \<le> unat (ExpMaxFee want)))
     \<and> sat_total (Outputs tx) \<le> unat (ExpPotSatoshis want)
     \<and> (0 < ExpMaxFee want \<longrightarrow> unat (ExpPotSatoshis want) \<le> sat_total (Outputs tx) + unat (ExpMaxFee want))"
proof -
  obtain got rest where ix: "0 \<le> PropPotInput p" "PropPotInput p < int (length (Inputs tx))"
      "spends (Inputs tx ! nat (PropPotInput p)) (ExpPotTxid want) (ExpPotVout want)"
      "\<forall>k < length (Inputs tx). k \<noteq> nat (PropPotInput p) \<longrightarrow> \<not> spends (Inputs tx ! k) (ExpPotTxid want) (ExpPotVout want)"
    and T: "tally_outputs sdk 0 (Outputs tx) [] 0 = Inr (got, total_out (Outputs tx))"
    and C: "check_payouts (ExpPayouts want) got = Inr rest"
    and R: "ExpPayouts want \<noteq> [] \<longrightarrow> (\<forall>(key, sats) \<in> set rest. sats \<le> ExpMaxFee want \<and> 0 < ExpMaxFee want)"
    and V: "total_out (Outputs tx) \<le> ExpPotSatoshis want"
      "0 < ExpMaxFee want \<longrightarrow> ExpPotSatoshis want - total_out (Outputs tx) \<le> ExpMaxFee want"
    by (rule VerifyProposal_accepts [OF assms(1,2)])
  note num = unat_total_out [OF assms(3)] unat_paid_to [OF assms(3), of sdk]
  have exact: "sat_paid sdk (Outputs tx) (ToLower w) = unat sats" if "(w, sats) \<in> set (ExpPayouts want)" for w sats
    using check_payouts_Inr(1) [OF C] that tally_all(4) [OF T, of "ToLower w"]
    by (auto simp: num [symmetric] split: if_splits)
  have other: "sat_paid sdk (Outputs tx) k \<le> unat (ExpMaxFee want)"
    if "ExpPayouts want \<noteq> []" "k \<notin> ToLower ` fst ` set (ExpPayouts want)" for k
  proof (cases "map_of rest k")
    case None
    then have "paid_to sdk (Outputs tx) k = 0"
      using check_payouts_Inr(3) [OF C, of k] that(2) tally_all(4) [OF T, of k] paid_to_zero by (metis option.distinct(1))
    then show ?thesis by (simp add: num [symmetric])
  next
    case (Some v)
    then have "v = paid_to sdk (Outputs tx) k" "(k, v) \<in> set rest"
      using check_payouts_Inr(3) [OF C, of k] that(2) tally_all(4) [OF T, of k] map_of_SomeD
      by (auto split: if_splits)
    with R that(1) show ?thesis by (auto simp: num [symmetric] word_le_nat_alt)
  qed
  have "sat_total (Outputs tx) \<le> unat (ExpPotSatoshis want)" using V(1) by (simp add: num [symmetric] word_le_nat_alt)
  moreover have "0 < ExpMaxFee want \<longrightarrow> unat (ExpPotSatoshis want) \<le> sat_total (Outputs tx) + unat (ExpMaxFee want)"
    using V fee_bound by (simp add: num(1) [symmetric])
  ultimately show ?thesis using ix exact other check_payouts_Inr(2) [OF C]
    by (auto simp: nat_less_iff)
qed


definition pot_in :: "u32 \<Rightarrow> string txin" where
  "pot_in sequence = \<lparr>SourceTXID = Some ''p'', SourceTxOutIndex = 0, SequenceNumber = sequence,
     SourceTxOutput = None, UnlockingScript = None\<rparr>"

definition pay :: "string \<Rightarrow> u64 \<Rightarrow> string txout" where
  "pay s n = \<lparr>Satoshis = n, LockingScript = Some s\<rparr>"

definition settle_tx :: "string transaction" where
  "settle_tx = \<lparr>Inputs = [pot_in 0xFFFFFFFF], Outputs = [pay ''aa'' 900, pay ''cc'' 40], LockTime = 0\<rparr>"

definition settle_want :: expectation where
  "settle_want = \<lparr>ExpPotTxid = ''p'', ExpPotVout = 0, ExpPotSatoshis = 1000, ExpPayouts = [(''AA'', 900)],
     ExpMaxFee = 100, ExpPotScriptHex = ''''\<rparr>"

definition settle_prop :: "string transaction \<Rightarrow> string proposal" where
  "settle_prop tx = \<lparr>PropHandID = ''h'', PropTx = Some tx, PropPotInput = 0\<rparr>"


definition wrap_tx :: "string transaction" where
  "wrap_tx = \<lparr>Inputs = [pot_in 0xFFFFFFFF], Outputs = [pay ''aa'' 0x8000000000000000, pay ''bb'' (0x8000000000000000 + 950)],
     LockTime = 0\<rparr>"

text \<open>
  an accepted settlement is bounded only if its outputs add up below \<open>2\<^sup>6\<^sup>4\<close>. The totals of the check are
  64-bit sums that wrap: a seat that is owed nothing, and so names no payout, accepts outputs of \<open>2\<^sup>6\<^sup>3\<close> and
  \<open>2\<^sup>6\<^sup>3 + 950\<close> satoshis from a pot of 1000, because the wrapped total is 950.
\<close>

theorem VerifyProposal_wraps:
  "VerifyProposal string_sdk (settle_prop wrap_tx) (settle_want\<lparr>ExpPayouts := []\<rparr>) = None
   \<and> sat_total (Outputs wrap_tx) = 2 ^ 64 + 950 \<and> unat (ExpPotSatoshis settle_want) = 1000"
proof -
  have "VerifyProposal string_sdk (settle_prop wrap_tx) (settle_want\<lparr>ExpPayouts := []\<rparr>) = None" by code_simp
  then show ?thesis by (simp add: wrap_tx_def pay_def sat_total_def settle_want_def)
qed

lemma accepted_refund:
  assumes "VerifySharedRefund sdk (Some t) want = None" "sat_total (Outputs t) < 2 ^ 64"
  shows "(\<forall>(w, sats) \<in> set (Balances want). sat_paid sdk (Outputs t) (ToLower w) \<le> unat sats
            \<and> unat sats \<le> sat_paid sdk (Outputs t) (ToLower w) + unat (SharedMaxFee want))
     \<and> length (filter (\<lambda>(w, sats). sat_paid sdk (Outputs t) (ToLower w) \<noteq> unat sats) (Balances want)) \<le> 1
     \<and> (\<forall>k. k \<notin> ToLower ` fst ` set (Balances want) \<longrightarrow> sat_paid sdk (Outputs t) k = 0)
     \<and> (\<exists>i \<in> set (Inputs t). spends i (SharedPotTxid want) (SharedPotVout want))
     \<and> 0 < LockTime t \<and> (\<exists>i \<in> set (Inputs t). SequenceNumber i \<noteq> DefaultSequenceNumber sdk)
     \<and> (0 < MaxLockHeight want \<longrightarrow> LockTime t \<le> MaxLockHeight want)
     \<and> sat_total (Outputs t) \<le> unat (SharedPotSatoshis want)
     \<and> unat (SharedPotSatoshis want) \<le> sat_total (Outputs t) + unat (SharedMaxFee want)"
proof -
  note A = VerifySharedRefund_iff [THEN iffD1, OF assms(1)]
  obtain got tot n where T: "tally_outputs sdk 0 (Outputs t) [] 0 = Inr (got, tot)"
    and C: "check_balances (SharedMaxFee want) (Balances want) got 0 = Inr ([], n)" and n: "n \<le> 1"
    and V: "tot \<le> SharedPotSatoshis want" "SharedPotSatoshis want - tot \<le> SharedMaxFee want"
    using A by blast
  note num = unat_total_out [OF assms(2)] unat_paid_to [OF assms(2), of sdk]
  note C' = check_balances_iff [THEN iffD1, OF C]
  have tot: "tot = total_out (Outputs t)" by (rule tally_all(2) [OF T])
  have got: "map_of got k = Some v \<Longrightarrow> unat v = sat_paid sdk (Outputs t) k" for k v
    using tally_all(4) [OF T, of k] by (auto simp: num split: if_splits)
  have paid: "map_of got (ToLower w) = Some g \<Longrightarrow> sat_paid sdk (Outputs t) (ToLower w) = unat g" for w g
    using got by simp
  have each: "sat_paid sdk (Outputs t) (ToLower w) \<le> unat s
      \<and> unat s \<le> sat_paid sdk (Outputs t) (ToLower w) + unat (SharedMaxFee want)"
    "short_of got (w, s) \<longleftrightarrow> sat_paid sdk (Outputs t) (ToLower w) \<noteq> unat s" if b: "(w, s) \<in> set (Balances want)" for w s
  proof -
    obtain g where g: "map_of got (ToLower w) = Some g" "g = s \<or> (g < s \<and> s - g \<le> SharedMaxFee want)"
      using C' b by (fastforce simp: honoured_def split: option.splits)
    then show "sat_paid sdk (Outputs t) (ToLower w) \<le> unat s
      \<and> unat s \<le> sat_paid sdk (Outputs t) (ToLower w) + unat (SharedMaxFee want)"
      using fee_bound [of g s "SharedMaxFee want"] by (auto simp: paid [OF g(1)] word_less_nat_alt word_le_nat_alt)
    show "short_of got (w, s) \<longleftrightarrow> sat_paid sdk (Outputs t) (ToLower w) \<noteq> unat s"
      using g by (auto simp: short_of_def paid [OF g(1)] word_unat_eq_iff)
  qed
  have "filter (\<lambda>(w, sats). sat_paid sdk (Outputs t) (ToLower w) \<noteq> unat sats) (Balances want)
      = filter (short_of got) (Balances want)"
    using each(2) by (intro filter_cong) auto
  moreover have "length (filter (short_of got) (Balances want)) \<le> 1" using C' n by auto
  moreover have "sat_paid sdk (Outputs t) k = 0" if k: "k \<notin> ToLower ` fst ` set (Balances want)" for k
  proof -
    have "map_of got k = None"
      using C' k by (metis (mono_tags, lifting) case_prodI filter_empty_conv map_of_SomeD not_None_eq)
    then show ?thesis using tally_all(4) [OF T, of k] paid_to_zero [of "Outputs t" sdk k] num(2) [of k]
      by (auto split: if_splits)
  qed
  moreover have "sat_total (Outputs t) \<le> unat (SharedPotSatoshis want)"
    using V(1) by (simp add: tot num [symmetric] word_le_nat_alt)
  moreover have "unat (SharedPotSatoshis want) \<le> sat_total (Outputs t) + unat (SharedMaxFee want)"
    using fee_bound [OF V] by (simp add: tot num)
  ultimately show ?thesis using A each(1) by (auto simp: all_final_def list_all_iff word_neq_0_conv)
qed


definition refund_tx :: "u32 \<Rightarrow> string transaction" where
  "refund_tx height = \<lparr>Inputs = [pot_in 0xFFFFFFFE], Outputs = [pay ''aa'' 650, pay ''bb'' 300], LockTime = height\<rparr>"

definition refund_want :: shared_expectation where
  "refund_want = \<lparr>SharedPotTxid = ''p'', SharedPotVout = 0, SharedPotSatoshis = 1000,
     Balances = [(''aa'', 700), (''bb'', 300)], SharedMaxFee = 100, MaxLockHeight = 800\<rparr>"


text \<open>
  the refund ladder is not strict. The expectation's comment says that a refund must mature strictly
  earlier than the one it replaces, but the check only refuses a later one: a refund that matures at the
  very height of the refund it replaces is accepted.
\<close>

theorem ladder_accepts_equal_height:
  "VerifySharedRefund string_sdk (Some (refund_tx 800)) refund_want = None \<and> MaxLockHeight refund_want = 800
   \<and> VerifySharedRefund string_sdk (Some (refund_tx 801)) refund_want = Some (MaturesTooLate 801 800)"
proof -
  have "VerifySharedRefund string_sdk (Some (refund_tx 800)) refund_want = None"
    "VerifySharedRefund string_sdk (Some (refund_tx 801)) refund_want = Some (MaturesTooLate 801 800)"
    by code_simp+
  then show ?thesis by (simp add: refund_want_def)
qed

text \<open>
  C27: the refund the code builds is one every seat accepts. A shared refund built from balances that add up
  to the pot without overflow, for recipients with distinct scripts, passes the check of every seat that
  holds the same balances, allows at least the fee, and sets no lower bound on the lock height.
\<close>

theorem built_refund_accepted:
  assumes built: "buildSharedRefund sdk args = Inr tx"
    and txid: "ParseTxid sdk (PotTxid (RPot args)) = Some (PotTxid (RPot args))" "PotTxid (RPot args) \<noteq> ''''"
    and keys: "distinct (map (refund_key sdk) (RRecipients args))" "RRecipients args \<noteq> []"
    and sum: "sum_list (map (\<lambda>r. unat (OutSatoshis r)) (RRecipients args)) < 2 ^ 64"
    and bounds: "RFee args \<le> maxFee" "maxLock = 0 \<or> RLockHeight args \<le> maxLock"
  shows "VerifySharedRefund sdk (Some tx) (refund_expectation sdk args maxFee maxLock) = None"
proof -
  let ?rs = "RRecipients args" and ?fee = "RFee args" and ?pot = "PotValue (RPot args)"
  obtain lg li outs where lh: "RLockHeight args \<noteq> 0" and scan: "scan_recipients 0 ?rs 0 0 (-1) = Inr (?pot, lg, li)"
    and fee: "?fee \<noteq> 0" "0 \<le> li" "lg > ?fee" and outs: "refund_outputs sdk ?fee li 0 ?rs = Inr outs"
    and tx: "tx = \<lparr>Inputs = [pot_spend sdk (RPot args) (PotTxid (RPot args))], Outputs = outs, LockTime = RLockHeight args\<rparr>"
    using built txid(1) by (auto simp: buildSharedRefund_def not_le not_less split: if_splits sum.splits option.splits)
  have pot: "?pot = sum_list (map OutSatoshis ?rs)" using scan_recipients_Inr [OF scan] by simp
  obtain j0 where j0: "j0 < length ?rs" "li = int j0" "lg = OutSatoshis (?rs ! j0)"
    using scan_recipients_Inr [OF scan] fee(2) by auto
  have "unat lg \<le> sum_list (map (\<lambda>r. unat (OutSatoshis r)) ?rs)" using j0 by (simp add: member_le_sum_list)
  also have "\<dots> = unat ?pot" using unat_sum_list [of "map OutSatoshis ?rs"] sum pot by (simp add: comp_def)
  finally have le: "?fee \<le> ?pot" using fee(3) by (simp add: word_le_nat_alt word_less_nat_alt)
  obtain got where T: "tally_outputs sdk 0 outs [] 0 = Inr (got, total_out outs)"
    and G: "\<And>j. j < length ?rs \<Longrightarrow> map_of got (refund_key sdk (?rs ! j)) = Some (OutSatoshis (?rs ! j) - (if j = j0 then ?fee else 0))"
      "fst ` set got \<subseteq> refund_key sdk ` set ?rs"
    using refund_tallied [OF outs [unfolded j0(2)] keys(1)] by metis
  obtain n where "check_balances maxFee (map (\<lambda>r. (refund_key sdk r, OutSatoshis r)) ?rs) got 0 = Inr ([], n)" "n \<le> 1"
    using refund_balances_checked [OF G keys(1) fee(1) _ bounds(1)] fee(3) j0(3) by blast
  moreover have "total_out outs = ?pot - ?fee" using refund_outputs_Inr [OF outs] j0 pot by simp
  then have "total_out outs \<le> ?pot" "?pot - total_out outs \<le> maxFee" using le bounds(1) by (auto simp: word_sub_le)
  moreover have "maxFee \<noteq> 0" using fee(1) bounds(1) by auto
  ultimately show ?thesis using T lh txid(2) keys(2) bounds(2) unfolding VerifySharedRefund_iff
    by (auto simp: refund_expectation_def tx all_final_def pot_spend_def spends_def)
qed

definition refund_pair :: "(string, bytes) refund_args" where
  "refund_pair = \<lparr>RPot = \<lparr>PotTxid = ''p'', PotVout = 0, PotScriptOf = Some ''s'', PotValue = 1000, PotBEEF = []\<rparr>,
     RRecipient = None, RSatoshis = 0,
     RRecipients = [\<lparr>OutRecipient = Some [97], OutSatoshis = 700\<rparr>, \<lparr>OutRecipient = Some [98], OutSatoshis = 300\<rparr>],
     RLockHeight = 800, RFee = 50\<rparr>"

definition refund_pair_tx :: "string transaction" where
  "refund_pair_tx = \<lparr>Inputs = [pot_spend string_sdk (RPot refund_pair) ''p''], Outputs = [pay ''a'' 650, pay ''b'' 300], LockTime = 800\<rparr>"

theorem built_refund_accepted_witness:
  "BuildRefund string_sdk refund_pair = Inr refund_pair_tx
   \<and> VerifySharedRefund string_sdk (Some refund_pair_tx) (refund_expectation string_sdk refund_pair 100 800) = None"
proof -
  have b: "buildSharedRefund string_sdk refund_pair = Inr refund_pair_tx" by code_simp
  have "VerifySharedRefund string_sdk (Some refund_pair_tx) (refund_expectation string_sdk refund_pair 100 800) = None"
  proof (rule built_refund_accepted [OF b])
    show "distinct (map (refund_key string_sdk) (RRecipients refund_pair))" by code_simp
  qed (simp_all add: refund_pair_def string_sdk_def)
  then show ?thesis using b by (simp add: BuildRefund_def refund_pair_def)
qed

end
