(* ===== verification/Settle.thy ===== *)
theory Settle
  imports Cosign_Props
begin

text \<open>
  Signing and settling a pot (\<^verbatim>\<open>pot.go\<close>: SignInput, VerifySignature, VerifyScript; \<^verbatim>\<open>settle.go\<close>: DerivePayout,
  FundPot, BuildSettlement, Complete, Abandon, PayoutVout). The wallet behind the \<open>PotFunder\<close> interface is
  a record of functions on a wallet state, so that the calls the code makes, and their order, show in the
  state it ends in. Signatures, sighashes, the script interpreter and BRC-29 derivation are functions of the SDK and
  appear as the fields of \<open>signer\<close>. The errors of \<open>settle_error\<close> carry what the messages report.
\<close>

section \<open>Interfaces\<close>

record ('s, 'k, 'p) signer =
  AllForkID :: byte
  SigHash :: "'s transaction \<Rightarrow> u32 \<Rightarrow> byte \<Rightarrow> bytes option"
  Sign :: "'p \<Rightarrow> bytes \<Rightarrow> bytes option"
  PubKey :: "'p \<Rightarrow> 'k"
  DERHex :: "'k \<Rightarrow> string"
  ParseDER :: "bytes \<Rightarrow> bytes option"
  VerifySig :: "bytes \<Rightarrow> bytes \<Rightarrow> 'k \<Rightarrow> bool"
  Execute :: "'s transaction \<Rightarrow> int \<Rightarrow> 's txout \<Rightarrow> bool"
  KeyIDValid :: "string \<Rightarrow> string \<Rightarrow> bool"
  LockForCounterparty :: "'p \<Rightarrow> string \<Rightarrow> string \<Rightarrow> 'k \<Rightarrow> 's option"
  ParseBEEF :: "bytes \<Rightarrow> 's transaction option"
  ScriptFromHex :: "string \<Rightarrow> 's option"

record 's action_output =
  ActScript :: 's
  ActSatoshis :: u64
  ActBasket :: string

record action_input =
  ActTxid :: string
  ActVout :: u32
  ActUnlockLength :: u32

record 's action_args =
  ActDescription :: string
  ActInputBEEF :: bytes
  ActInputs :: "action_input list"
  ActOutputs :: "'s action_output list"
  SignAndProcess :: bool
  RandomizeOutputs :: bool

record action_result =
  ResTxid :: string
  ResTx :: bytes
  ResSignable :: "(bytes \<times> bytes) option"

record ('w, 's) pot_funder =
  CreateAction :: "'s action_args \<Rightarrow> string \<Rightarrow> 'w \<Rightarrow> 'w \<times> action_result option"
  SignAction :: "bytes \<Rightarrow> (u32 \<times> 's) list \<Rightarrow> string \<Rightarrow> 'w \<Rightarrow> 'w \<times> string option"
  AbortAction :: "bytes \<Rightarrow> string \<Rightarrow> 'w \<Rightarrow> 'w \<times> bool"

datatype settle_error = FromPot cosign_error | ScriptTooLong nat | WalletMissing | WalletFailed | ScriptFailed | Panic
  | InputOutside int nat | NoPrivateKey | NoSourceOutput int | SigHashFailed | SigningFailed
  | NoPublicKey | SignatureTooShort int nat | WrongSigHash int byte | WrongKey int string string
  | UnparseableSignature int | SignatureInvalid int | NoUnlockingScript int
  | NoSenderKey | PayoutRecipientMissing | PayoutOfNothing | NoDerivation | BadDerivation | PayoutLockFailed
  | PotNeedsValue | ShortDescription | ParseFailed | NoPotOutput | NoPayouts | PayoutWithoutScript nat
  | PayoutsExceedPot u64 u64 | NoSignable | NoPayoutScript | NoPayoutOutput | JoinErr settle_error settle_error

section \<open>Signatures\<close>

definition SigHashFlag :: "('s, 'k, 'p) signer \<Rightarrow> byte" where "SigHashFlag sg = AllForkID sg"

definition SignInput ::
  "('s, 'k, 'p) signer \<Rightarrow> 's transaction option \<Rightarrow> int \<Rightarrow> int \<Rightarrow> 'p option \<Rightarrow> (settle_error, signature) res" where
  "SignInput sg tx inputIndex seat priv =
     (case tx of
        None \<Rightarrow> Inl (FromPot NoTransaction)
      | Some t \<Rightarrow>
          if inputIndex < 0 \<or> inputIndex \<ge> int (length (Inputs t)) then Inl (InputOutside inputIndex (length (Inputs t)))
          else case priv of
                 None \<Rightarrow> Inl NoPrivateKey
               | Some k \<Rightarrow>
                   if SourceTxOutput (Inputs t ! nat inputIndex) = None then Inl (NoSourceOutput inputIndex)
                   else case SigHash sg t (word_of_int inputIndex) (SigHashFlag sg) of
                          None \<Rightarrow> Inl SigHashFailed
                        | Some h \<Rightarrow>
                            (case Sign sg k h of
                               None \<Rightarrow> Inl SigningFailed
                             | Some s \<Rightarrow> Inr \<lparr>SigSeat = seat, SigKey = DERHex sg (PubKey sg k), DER = s @ [SigHashFlag sg]\<rparr>))"

definition VerifySignature ::
  "('s, 'k, 'p) signer \<Rightarrow> 's transaction \<Rightarrow> int \<Rightarrow> signature \<Rightarrow> 'k option \<Rightarrow> settle_error option" where
  "VerifySignature sg tx inputIndex sig pub =
     (case pub of
        None \<Rightarrow> Some NoPublicKey
      | Some p \<Rightarrow>
          if length (DER sig) < 2 then Some (SignatureTooShort (SigSeat sig) (length (DER sig)))
          else if last (DER sig) \<noteq> SigHashFlag sg then Some (WrongSigHash (SigSeat sig) (last (DER sig)))
          else if SigKey sig \<noteq> '''' \<and> SigKey sig \<noteq> DERHex sg p then Some (WrongKey (SigSeat sig) (SigKey sig) (DERHex sg p))
          else case SigHash sg tx (word_of_int inputIndex) (SigHashFlag sg) of
                 None \<Rightarrow> Some SigHashFailed
               | Some h \<Rightarrow>
                   (case ParseDER sg (butlast (DER sig)) of
                      None \<Rightarrow> Some (UnparseableSignature (SigSeat sig))
                    | Some parsed \<Rightarrow> if VerifySig sg parsed h p then None else Some (SignatureInvalid (SigSeat sig))))"

definition VerifyScript ::
  "('s, 'k, 'p) signer \<Rightarrow> 's transaction option \<Rightarrow> int \<Rightarrow> 's option \<Rightarrow> u64 \<Rightarrow> settle_error option" where
  "VerifyScript sg tx inputIndex lock satoshis =
     (case tx of
        None \<Rightarrow> Some (FromPot NoTransaction)
      | Some t \<Rightarrow>
          if inputIndex < 0 \<or> inputIndex \<ge> int (length (Inputs t)) then Some (InputOutside inputIndex (length (Inputs t)))
          else if UnlockingScript (Inputs t ! nat inputIndex) = None then Some (NoUnlockingScript inputIndex)
          else if Execute sg t inputIndex \<lparr>Satoshis = satoshis, LockingScript = lock\<rparr> then None
          else Some ScriptFailed)"

definition PotScriptFromHex :: "('s, 'k, 'p) signer \<Rightarrow> string \<Rightarrow> (settle_error, 's) res" where
  "PotScriptFromHex sg s =
     (if s = '''' then Inl (FromPot NoPotScript)
      else case ScriptFromHex sg s of None \<Rightarrow> Inl ParseFailed | Some out \<Rightarrow> Inr out)"

section \<open>Payouts\<close>

text \<open>The standard base64 encoding of Go's \<^verbatim>\<open>encoding/base64\<close>.\<close>

definition b64_char :: "nat \<Rightarrow> char" where
  "b64_char n = ''ABCDEFGHIJKLMNOPQRSTUVWXYZabcdefghijklmnopqrstuvwxyz0123456789+/'' ! (n mod 64)"

fun base64 :: "bytes \<Rightarrow> string" where
  "base64 [] = ''''"
| "base64 [a] = (let n = unat a * 65536 in [b64_char (n div 262144), b64_char (n div 4096), CHR ''='', CHR ''=''])"
| "base64 [a, b] = (let n = unat a * 65536 + unat b * 256
     in [b64_char (n div 262144), b64_char (n div 4096), b64_char (n div 64), CHR ''=''])"
| "base64 (a # b # c # bs) = (let n = unat a * 65536 + unat b * 256 + unat c
     in [b64_char (n div 262144), b64_char (n div 4096), b64_char (n div 64), b64_char n] @ base64 bs)"

record ('s, 'k) payout =
  PayRecipient :: "'k option"
  PaySatoshis :: u64
  Prefix :: bytes
  Suffix :: bytes
  PayScript :: "'s option"

definition DerivePayout ::
  "('s, 'k, 'p) signer \<Rightarrow> 'p option \<Rightarrow> ('s, 'k) payout option \<Rightarrow> (settle_error, ('s, 'k) payout) res" where
  "DerivePayout sg sender payout =
     (case sender of
        None \<Rightarrow> Inl NoSenderKey
      | Some k \<Rightarrow>
          (case payout of
             None \<Rightarrow> Inl PayoutRecipientMissing
           | Some p \<Rightarrow>
               (case PayRecipient p of
                  None \<Rightarrow> Inl PayoutRecipientMissing
                | Some r \<Rightarrow>
                    if PaySatoshis p = 0 then Inl PayoutOfNothing
                    else if Prefix p = [] \<or> Suffix p = [] then Inl NoDerivation
                    else if \<not> KeyIDValid sg (base64 (Prefix p)) (base64 (Suffix p)) then Inl BadDerivation
                    else case LockForCounterparty sg k (base64 (Prefix p)) (base64 (Suffix p)) r of
                           None \<Rightarrow> Inl PayoutLockFailed
                         | Some lock \<Rightarrow> Inr (p\<lparr>PayScript := Some lock\<rparr>))))"

text \<open>The arguments a recipient's wallet needs to internalize the coin: the raw derivation bytes.\<close>

record 'k remittance =
  RemPrefix :: bytes
  RemSuffix :: bytes
  RemSender :: 'k

definition Remittance :: "('s, 'k, 'p) signer \<Rightarrow> ('s, 'k) payout \<Rightarrow> 'p \<Rightarrow> 'k remittance" where
  "Remittance sg p sender = \<lparr>RemPrefix = Prefix p, RemSuffix = Suffix p, RemSender = PubKey sg sender\<rparr>"

definition pays_script :: "('s, 'k) sdk \<Rightarrow> 's \<Rightarrow> 's txout \<Rightarrow> bool" where
  "pays_script sdk s o' \<longleftrightarrow> (case LockingScript o' of None \<Rightarrow> False | Some l \<Rightarrow> ScriptString sdk l = ScriptString sdk s)"

definition PayoutVout ::
  "('s, 'k) sdk \<Rightarrow> 's transaction option \<Rightarrow> ('s, 'k) payout \<Rightarrow> (settle_error, u32) res" where
  "PayoutVout sdk tx p =
     (case tx of
        None \<Rightarrow> Inl (FromPot NoTransaction)
      | Some t \<Rightarrow>
          (case PayScript p of
             None \<Rightarrow> Inl NoPayoutScript
           | Some s \<Rightarrow>
               (case find (\<lambda>i. pays_script sdk s (Outputs t ! i)) [0..<length (Outputs t)] of
                  Some i \<Rightarrow> Inr (word_of_nat i)
                | None \<Rightarrow> Inl NoPayoutOutput)))"

section \<open>Funding a pot\<close>

record 'k fund_args =
  FundOriginator :: string
  FundSeats :: "'k option list"
  FundSatoshis :: u64
  FundBasket :: string
  FundDescription :: string

definition fund_action :: "'s \<Rightarrow> 'k fund_args \<Rightarrow> 's action_args" where
  "fund_action potScript args = \<lparr>ActDescription = FundDescription args, ActInputBEEF = [], ActInputs = [],
     ActOutputs = [\<lparr>ActScript = potScript, ActSatoshis = FundSatoshis args, ActBasket = FundBasket args\<rparr>],
     SignAndProcess = True, RandomizeOutputs = False\<rparr>"

definition FundPot ::
  "('s, 'k) sdk \<Rightarrow> ('s, 'k, 'p) signer \<Rightarrow> ('w, 's) pot_funder option \<Rightarrow> 'k fund_args \<Rightarrow> 'w
     \<Rightarrow> 'w \<times> (settle_error, 's funded_pot) res" where
  "FundPot sdk sg wallet args w =
     (case wallet of
        None \<Rightarrow> (w, Inl WalletMissing)
      | Some wal \<Rightarrow>
          if FundSatoshis args = 0 then (w, Inl PotNeedsValue)
          else if length (FundDescription args) < 5 then (w, Inl ShortDescription)
          else case PotScript sdk (FundSeats args) of
                 Inl e \<Rightarrow> (w, Inl (FromPot e))
               | Inr potScript \<Rightarrow>
                   (case CreateAction wal (fund_action potScript args) (FundOriginator args) w of
                      (w1, None) \<Rightarrow> (w1, Inl WalletFailed)
                    | (w1, Some r) \<Rightarrow>
                        (case ParseBEEF sg (ResTx r) of
                           None \<Rightarrow> (w1, Inl ParseFailed)
                         | Some tx \<Rightarrow>
                             (case find (\<lambda>i. pays_script sdk potScript (Outputs tx ! i)
                                             \<and> Satoshis (Outputs tx ! i) = FundSatoshis args) [0..<length (Outputs tx)] of
                                None \<Rightarrow> (w1, Inl NoPotOutput)
                              | Some vout \<Rightarrow>
                                  (w1, Inr \<lparr>PotTxid = ResTxid r, PotVout = word_of_nat vout, PotScriptOf = Some potScript,
                                             PotValue = FundSatoshis args, PotBEEF = ResTx r\<rparr>)))))"

section \<open>Settling a pot\<close>

record ('s, 'k) settle_args =
  SetOriginator :: string
  SetPot :: "'s funded_pot"
  SetPayouts :: "('s, 'k) payout list"
  SetSeats :: int
  SetDescription :: string

record 's settlement =
  STx :: "'s transaction option"
  SPotInput :: int
  SReference :: bytes

fun settle_outputs ::
  "nat \<Rightarrow> ('s, 'k) payout list \<Rightarrow> u64 \<Rightarrow> 's action_output list \<Rightarrow> (settle_error, u64 \<times> 's action_output list) res" where
  "settle_outputs i [] tot outputs = Inr (tot, outputs)"
| "settle_outputs i (p # ps) tot outputs =
     (case PayScript p of
        None \<Rightarrow> Inl (PayoutWithoutScript i)
      | Some s \<Rightarrow> settle_outputs (i + 1) ps (tot + PaySatoshis p)
                    (outputs @ [\<lparr>ActScript = s, ActSatoshis = PaySatoshis p, ActBasket = ''''\<rparr>]))"

definition settle_action ::
  "('s, 'k) settle_args \<Rightarrow> string \<Rightarrow> 's action_output list \<Rightarrow> 's action_args" where
  "settle_action args txid outputs = \<lparr>ActDescription = SetDescription args, ActInputBEEF = PotBEEF (SetPot args),
     ActInputs = [\<lparr>ActTxid = txid, ActVout = PotVout (SetPot args), ActUnlockLength = UnlockingScriptLength (SetSeats args)\<rparr>],
     ActOutputs = outputs, SignAndProcess = False, RandomizeOutputs = False\<rparr>"

definition set_source :: "nat \<Rightarrow> 's txout \<Rightarrow> 's transaction \<Rightarrow> 's transaction" where
  "set_source i out tx = tx\<lparr>Inputs := (Inputs tx)[i := (Inputs tx ! i)\<lparr>SourceTxOutput := Some out\<rparr>]\<rparr>"

definition BuildSettlement ::
  "('s, 'k) sdk \<Rightarrow> ('s, 'k, 'p) signer \<Rightarrow> ('w, 's) pot_funder option \<Rightarrow> ('s, 'k) settle_args \<Rightarrow> 'w
     \<Rightarrow> 'w \<times> (settle_error, 's settlement) res" where
  "BuildSettlement sdk sg wallet args w =
     (let pot = SetPot args
      in case wallet of
           None \<Rightarrow> (w, Inl WalletMissing)
         | Some wal \<Rightarrow>
             if SetPayouts args = [] then (w, Inl NoPayouts)
             else if length (SetDescription args) < 5 then (w, Inl ShortDescription)
             else if PotScriptOf pot = None then (w, Inl (FromPot NoPotScript))
             else case settle_outputs 0 (SetPayouts args) 0 [] of
                    Inl e \<Rightarrow> (w, Inl e)
                  | Inr (tot, outputs) \<Rightarrow>
                      if tot > PotValue pot then (w, Inl (PayoutsExceedPot tot (PotValue pot)))
                      else case ParseTxid sdk (PotTxid pot) of
                             None \<Rightarrow> (w, Inl (FromPot (BadTxid (PotTxid pot))))
                           | Some txid \<Rightarrow>
                               (case CreateAction wal (settle_action args txid outputs) (SetOriginator args) w of
                                  (w1, None) \<Rightarrow> (w1, Inl WalletFailed)
                                | (w1, Some r) \<Rightarrow>
                                    (case ResSignable r of
                                       None \<Rightarrow> (w1, Inl NoSignable)
                                     | Some (beef, reference) \<Rightarrow>
                                         (case ParseBEEF sg beef of
                                            None \<Rightarrow> (w1, Inl ParseFailed)
                                          | Some tx \<Rightarrow>
                                              (case FindPotInput (Some tx) (PotTxid pot) (PotVout pot) of
                                                 Inl e \<Rightarrow> (w1, Inl (FromPot e))
                                               | Inr i \<Rightarrow>
                                                   (w1, Inr \<lparr>STx = Some (set_source i \<lparr>Satoshis = PotValue pot,
                                                                                    LockingScript = PotScriptOf pot\<rparr> tx),
                                                              SPotInput = int i, SReference = reference\<rparr>))))))"

definition Abandon ::
  "('w, 's) pot_funder option \<Rightarrow> string \<Rightarrow> 's settlement \<Rightarrow> 'w \<Rightarrow> 'w \<times> settle_error option" where
  "Abandon wallet originator s w =
     (case wallet of
        None \<Rightarrow> (w, Some WalletMissing)
      | Some wal \<Rightarrow>
          if SReference s = [] then (w, None)
          else case AbortAction wal (SReference s) originator w of
                 (w1, True) \<Rightarrow> (w1, None)
               | (w1, False) \<Rightarrow> (w1, Some WalletFailed))"

definition abandon_with ::
  "('w, 's) pot_funder option \<Rightarrow> string \<Rightarrow> 's settlement \<Rightarrow> settle_error \<Rightarrow> 'w \<Rightarrow> 'w \<times> (settle_error, string) res" where
  "abandon_with wallet originator s cause w =
     (case Abandon wallet originator s w of
        (w1, Some aerr) \<Rightarrow> (w1, Inl (JoinErr cause aerr))
      | (w1, None) \<Rightarrow> (w1, Inl cause))"

text \<open>The unlocking script is written into the settlement's transaction; an absent transaction or an index
  outside it is a run-time panic, which unwinds past \<open>abandon\<close>.\<close>

definition put_unlock :: "'s \<Rightarrow> int \<Rightarrow> 's transaction option \<Rightarrow> 's transaction option" where
  "put_unlock unlock i tx =
     (case tx of
        None \<Rightarrow> None
      | Some t \<Rightarrow> if i < 0 \<or> i \<ge> int (length (Inputs t)) then None
                  else Some (t\<lparr>Inputs := (Inputs t)[nat i := (Inputs t ! nat i)\<lparr>UnlockingScript := Some unlock\<rparr>]\<rparr>))"

definition Complete ::
  "('s, 'k) sdk \<Rightarrow> ('s, 'k, 'p) signer \<Rightarrow> ('w, 's) pot_funder option \<Rightarrow> string \<Rightarrow> 's settlement \<Rightarrow> 's funded_pot
     \<Rightarrow> signature list \<Rightarrow> int \<Rightarrow> 'w \<Rightarrow> 'w \<times> (settle_error, string) res" where
  "Complete sdk sg wallet originator s pot sigs seats w =
     (case Assemble sdk sigs seats of
        Inl e \<Rightarrow> abandon_with wallet originator s (FromPot e) w
      | Inr unlock \<Rightarrow>
          if int (ScriptLen sdk unlock) > uint (UnlockingScriptLength seats)
          then abandon_with wallet originator s (ScriptTooLong (ScriptLen sdk unlock)) w
          else case put_unlock unlock (SPotInput s) (STx s) of
                 None \<Rightarrow> (w, Inl Panic)
               | Some t \<Rightarrow>
                   (case VerifyScript sg (Some t) (SPotInput s) (PotScriptOf pot) (PotValue pot) of
                      Some e \<Rightarrow> abandon_with wallet originator s e w
                    | None \<Rightarrow>
                        (case wallet of
                           None \<Rightarrow> (w, Inl Panic)
                         | Some wal \<Rightarrow>
                             (case SignAction wal (SReference s) [(word_of_int (SPotInput s), unlock)] originator w of
                                (w1, Some r) \<Rightarrow> (w1, Inr r)
                              | (w1, None) \<Rightarrow> abandon_with wallet originator s WalletFailed w1))))"

section \<open>Properties\<close>

lemma FindPotInput_Inr:
  "FindPotInput (Some t) txid vout = Inr i \<Longrightarrow> i < length (Inputs t) \<and> spends (Inputs t ! i) txid vout
     \<and> (\<forall>j < i. \<not> spends (Inputs t ! j) txid vout)"
  by (auto simp: FindPotInput_def find_Some_iff split: option.splits)

lemma BuildSettlement_Inr:
  assumes "BuildSettlement sdk sg wallet args w = (w', Inr s)"
  obtains t where "STx s = Some t" "0 \<le> SPotInput s" "SPotInput s < int (length (Inputs t))"
    "spends (Inputs t ! nat (SPotInput s)) (PotTxid (SetPot args)) (PotVout (SetPot args))"
    "SourceTxOutput (Inputs t ! nat (SPotInput s))
       = Some \<lparr>Satoshis = PotValue (SetPot args), LockingScript = PotScriptOf (SetPot args)\<rparr>"
    "\<forall>j < nat (SPotInput s). \<not> spends (Inputs t ! j) (PotTxid (SetPot args)) (PotVout (SetPot args))"
proof -
  let ?pot = "SetPot args"
  obtain tx i where i: "FindPotInput (Some tx) (PotTxid ?pot) (PotVout ?pot) = Inr i"
    and s: "STx s = Some (set_source i \<lparr>Satoshis = PotValue ?pot, LockingScript = PotScriptOf ?pot\<rparr> tx)" "SPotInput s = int i"
    using assms by (auto simp: BuildSettlement_def Let_def split: option.splits if_splits sum.splits prod.splits)
  note F = FindPotInput_Inr [OF i]
  show thesis
    by (rule that [OF s(1)]) (use F s(2) in \<open>auto simp: set_source_def spends_def\<close>)
qed

lemma put_unlock_ok:
  "STx s = Some t \<Longrightarrow> 0 \<le> SPotInput s \<Longrightarrow> SPotInput s < int (length (Inputs t)) \<Longrightarrow> \<exists>t'. put_unlock u (SPotInput s) (STx s) = Some t'"
  by (simp add: put_unlock_def)

lemma abandon_with_releases:
  assumes "abandon_with (Some wal) originator s cause w = (w', r)"
  shows "cause \<noteq> Panic \<Longrightarrow> \<exists>e. r = Inl e \<and> e \<noteq> Panic"
    "SReference s \<noteq> [] \<Longrightarrow> \<exists>w2 ok. AbortAction wal (SReference s) originator w2 = (w', ok)"
  using assms by (auto simp: abandon_with_def Abandon_def split: prod.splits option.splits bool.splits if_splits)

text \<open>
  a seat's own signature verifies. Under the law of the signature scheme (what a key signs parses back
  and verifies under its public key, and is not empty), a signature \<open>SignInput\<close> produces passes
  \<open>VerifySignature\<close> for the same input and key, and carries the seat it was made for.
\<close>

theorem signed_input_verifies:
  assumes scheme: "\<And>h s. Sign sg k h = Some s \<Longrightarrow> s \<noteq> [] \<and> (\<exists>parsed. ParseDER sg s = Some parsed \<and> VerifySig sg parsed h (PubKey sg k))"
    and signed: "SignInput sg (Some tx) inputIndex seat (Some k) = Inr sig"
  shows "VerifySignature sg tx inputIndex sig (Some (PubKey sg k)) = None \<and> SigSeat sig = seat \<and> DER sig \<noteq> []"
proof -
  obtain h s where h: "SigHash sg tx (word_of_int inputIndex) (SigHashFlag sg) = Some h" and s: "Sign sg k h = Some s"
    and sig: "sig = \<lparr>SigSeat = seat, SigKey = DERHex sg (PubKey sg k), DER = s @ [SigHashFlag sg]\<rparr>"
    using signed by (auto simp: SignInput_def split: if_splits option.splits)
  obtain parsed where "s \<noteq> []" "ParseDER sg s = Some parsed" "VerifySig sg parsed h (PubKey sg k)" using scheme [OF s] by blast
  moreover have "\<not> length (s @ [SigHashFlag sg]) < 2" using \<open>s \<noteq> []\<close> by (cases s) auto
  ultimately show ?thesis by (simp add: VerifySignature_def sig h)
qed

text \<open>A signature scheme to run the code on: a signature repeats the hash after the signer's key byte.\<close>

definition echo_signer :: "(string, byte, byte) signer" where
  "echo_signer = \<lparr>AllForkID = 0x41, SigHash = (\<lambda>tx i fl. Some [of_nat (length (Outputs tx)), fl]),
     Sign = (\<lambda>k h. Some (k # h)), PubKey = (\<lambda>k. k), DERHex = (\<lambda>k. [char_of (unat k)]), ParseDER = Some,
     VerifySig = (\<lambda>s h k. s = k # h), Execute = (\<lambda>tx i out. True), KeyIDValid = (\<lambda>a b. True),
     LockForCounterparty = (\<lambda>k a b r. Some (a @ b)), ParseBEEF = (\<lambda>b. None), ScriptFromHex = Some\<rparr>"

theorem signed_input_verifies_witness:
  "SignInput echo_signer (Some refund_pair_tx) 0 1 (Some 7) = Inr \<lparr>SigSeat = 1, SigKey = [char_of (7::nat)], DER = [7, 2, 0x41, 0x41]\<rparr>
   \<and> VerifySignature echo_signer refund_pair_tx 0 \<lparr>SigSeat = 1, SigKey = [char_of (7::nat)], DER = [7, 2, 0x41, 0x41]\<rparr> (Some 7) = None"
proof -
  have S: "SignInput echo_signer (Some refund_pair_tx) 0 1 (Some 7)
      = Inr \<lparr>SigSeat = 1, SigKey = [char_of (7::nat)], DER = [7, 2, 0x41, 0x41]\<rparr>"
    by code_simp
  have "VerifySignature echo_signer refund_pair_tx 0 \<lparr>SigSeat = 1, SigKey = [char_of (7::nat)], DER = [7, 2, 0x41, 0x41]\<rparr>
      (Some (PubKey echo_signer 7)) = None"
    using signed_input_verifies [OF _ S] by (simp add: echo_signer_def)
  with S show ?thesis by (simp add: echo_signer_def)
qed

text \<open>
  C36: a settlement is completed or released. Completing a settlement that \<open>BuildSettlement\<close> made either ends
  with the wallet's signing call, on a complete signature set in a script no longer than was declared and
  accepted by the interpreter, or fails with an error and, when the wallet gave the settlement a reference,
  its last call is the wallet's abort of that reference. It never panics.
\<close>

theorem Complete_signs_or_releases:
  assumes built: "BuildSettlement sdk sg (Some wal) args w0 = (w1, Inr s)"
    and comp: "Complete sdk sg (Some wal) originator s pot sigs seats w = (w', r)"
  shows "(\<exists>unlock res t. r = Inr res \<and> Assemble sdk sigs seats = Inr unlock
            \<and> int (ScriptLen sdk unlock) \<le> uint (UnlockingScriptLength seats)
            \<and> put_unlock unlock (SPotInput s) (STx s) = Some t
            \<and> Execute sg t (SPotInput s) \<lparr>Satoshis = PotValue pot, LockingScript = PotScriptOf pot\<rparr>
            \<and> SignAction wal (SReference s) [(word_of_int (SPotInput s), unlock)] originator w = (w', Some res))
       \<or> (\<exists>e. r = Inl e \<and> e \<noteq> Panic
            \<and> (SReference s \<noteq> [] \<longrightarrow> (\<exists>w2 ok. AbortAction wal (SReference s) originator w2 = (w', ok))))"
proof -
  obtain t0 where t0: "STx s = Some t0" "0 \<le> SPotInput s" "SPotInput s < int (length (Inputs t0))"
    using BuildSettlement_Inr [OF built] by metis
  have released: ?thesis if "abandon_with (Some wal) originator s cause w2 = (w', r)" "cause \<noteq> Panic" for cause w2
    using abandon_with_releases [OF that(1)] that(2) by blast
  show ?thesis
  proof (cases "Assemble sdk sigs seats")
    case (Inl e)
    then show ?thesis using comp released by (simp add: Complete_def)
  next
    case (Inr unlock)
    obtain t where t: "put_unlock unlock (SPotInput s) (STx s) = Some t" using put_unlock_ok [OF t0] by blast
    note [simp] = Complete_def Inr t
    show ?thesis
    proof (cases "int (ScriptLen sdk unlock) > uint (UnlockingScriptLength seats)")
      case True
      then show ?thesis using comp released by simp
    next
      case len: False
      show ?thesis
      proof (cases "VerifyScript sg (Some t) (SPotInput s) (PotScriptOf pot) (PotValue pot)")
        case (Some e)
        then have "e \<noteq> Panic" by (auto simp: VerifyScript_def split: if_splits)
        with Some show ?thesis using comp released len by simp
      next
        case None
        then have ex: "Execute sg t (SPotInput s) \<lparr>Satoshis = PotValue pot, LockingScript = PotScriptOf pot\<rparr>"
          by (auto simp: VerifyScript_def split: if_splits)
        obtain w2 res where S: "SignAction wal (SReference s) [(word_of_int (SPotInput s), unlock)] originator w = (w2, res)"
          by (cases "SignAction wal (SReference s) [(word_of_int (SPotInput s), unlock)] originator w")
        show ?thesis using comp released len None ex S by (cases res) auto
      qed
    qed
  qed
qed

text \<open>A wallet that records the calls it receives.\<close>

definition log_wallet :: "(string list, string) pot_funder" where
  "log_wallet = \<lparr>CreateAction = (\<lambda>args o' w. (w @ [''create''], Some \<lparr>ResTxid = ''p'', ResTx = [], ResSignable = Some ([1], [9])\<rparr>)),
     SignAction = (\<lambda>ref sp o' w. (w @ [''sign''], Some ''txid'')), AbortAction = (\<lambda>ref o' w. (w @ [''abort''], True))\<rparr>"

definition settle_signer :: "(string, byte, byte) signer" where
  "settle_signer = echo_signer\<lparr>ParseBEEF := (\<lambda>b. Some settle_tx)\<rparr>"

definition byte_sdk :: "(string, byte) sdk" where
  "byte_sdk = \<lparr>NewScript = '''', AppendOpcodes = (\<lambda>s ops. Some (s @ concat (map op_string ops))),
     AppendPushData = (\<lambda>s b. Some (s @ push_string b)), ScriptString = (\<lambda>s. s), ScriptLen = length,
     Compressed = (\<lambda>k. [k]), P2PKHLock = (\<lambda>k. Some (push_string [k])), ParseTxid = Some, DefaultSequenceNumber = 0xFFFFFFFF\<rparr>"

definition settle_ex :: "(string, byte) settle_args" where
  "settle_ex = \<lparr>SetOriginator = ''poker'', SetPot = RPot refund_pair,
     SetPayouts = [\<lparr>PayRecipient = Some 1, PaySatoshis = 900, Prefix = [1], Suffix = [2], PayScript = Some ''aa''\<rparr>],
     SetSeats = 2, SetDescription = ''settle''\<rparr>"

definition settled_ex :: "string settlement" where
  "settled_ex = \<lparr>STx = Some (set_source 0 \<lparr>Satoshis = 1000, LockingScript = Some ''s''\<rparr> settle_tx), SPotInput = 0, SReference = [9]\<rparr>"

theorem Complete_signs_or_releases_witness:
  "BuildSettlement byte_sdk settle_signer (Some log_wallet) settle_ex [] = ([''create''], Inr settled_ex)
   \<and> Complete byte_sdk settle_signer (Some log_wallet) ''poker'' settled_ex (RPot refund_pair) sig_pair 2 [''create'']
       = ([''create'', ''sign''], Inr ''txid'')
   \<and> Complete byte_sdk settle_signer (Some log_wallet) ''poker'' settled_ex (RPot refund_pair) [] 2 [''create'']
       = ([''create'', ''abort''], Inl (FromPot (IncompleteSignatures 0 2)))
   \<and> (\<exists>w2 ok. AbortAction log_wallet [9] ''poker'' w2 = ([''create'', ''abort''], ok))"
proof -
  have B: "BuildSettlement byte_sdk settle_signer (Some log_wallet) settle_ex [] = ([''create''], Inr settled_ex)"
    and S: "Complete byte_sdk settle_signer (Some log_wallet) ''poker'' settled_ex (RPot refund_pair) sig_pair 2 [''create'']
       = ([''create'', ''sign''], Inr ''txid'')"
    and C: "Complete byte_sdk settle_signer (Some log_wallet) ''poker'' settled_ex (RPot refund_pair) [] 2 [''create'']
       = ([''create'', ''abort''], Inl (FromPot (IncompleteSignatures 0 2)))"
    by code_simp+
  from Complete_signs_or_releases [OF B C] have "\<exists>w2 ok. AbortAction log_wallet [9] ''poker'' w2 = ([''create'', ''abort''], ok)"
    by (simp add: settled_ex_def)
  with B S C show ?thesis by blast
qed

end
