(* ===== verification/Pot_Ledger.thy ===== *)
theory Pot_Ledger
  imports Poker_Prelude
begin

text \<open>
  The pot ledger of \<^verbatim>\<open>internal/wallet/potledger\<close>. The two SQL tables are lists of rows in insertion order with
  the constraints the schema declares: \<open>hand_id\<close> is a primary key, \<open>(txid, vout)\<close> is unique, and attempt ids are
  auto-incremented and never reused. The clock is the argument \<open>now\<close>, and \<open>up\<close> says whether the database executes
  the statement at all, so that the error path of every call is a branch. States are strings, as in the code.
\<close>

section \<open>Rows\<close>

definition PotFunding :: string where "PotFunding = ''funding''"
definition PotFunded :: string where "PotFunded = ''funded''"
definition PotSettling :: string where "PotSettling = ''settling''"
definition PotSettled :: string where "PotSettled = ''settled''"
definition PotRefunded :: string where "PotRefunded = ''refunded''"
definition PotAbandoned :: string where "PotAbandoned = ''abandoned''"

definition PotState_Valid :: "string \<Rightarrow> bool" where
  "PotState_Valid s \<longleftrightarrow> List.member [PotFunding, PotFunded, PotSettling, PotSettled, PotRefunded, PotAbandoned] s"

definition AttemptIntended :: string where "AttemptIntended = ''intended''"
definition AttemptBroadcast :: string where "AttemptBroadcast = ''broadcast''"
definition AttemptConfirmed :: string where "AttemptConfirmed = ''confirmed''"
definition AttemptRejected :: string where "AttemptRejected = ''rejected''"
definition AttemptUnknown :: string where "AttemptUnknown = ''unknown''"

record pot_row =
  LHandID :: string
  LTxid :: string
  LVout :: u32
  LSatoshis :: u64
  LScript :: string
  LSeats :: string
  LState :: string
  LCreated :: int
  LUpdated :: int

record ledger_pot =
  HandID :: string
  Txid :: string
  Vout :: u32
  PSatoshis :: u64
  PLockingScript :: string
  PSeats :: "string list"
  PState :: string
  CreatedAt :: int
  UpdatedAt :: int

record attempt =
  AID :: nat
  AHandID :: string
  Purpose :: string
  ATxid :: string
  AState :: string
  Reason :: string
  ACreated :: int
  AUpdated :: int

record ledger =
  pots :: "pot_row list"
  attempts :: "attempt list"
  last_id :: nat

datatype ledger_error = HandIDRequired | TxidRequired | NoValue | LockingScriptRequired | SeatsRequired
  | UnknownPotState string | Database | PotNotFound string | IntentIncomplete | AttemptNotFound nat

section \<open>Seat lists\<close>

fun join_seats :: "nat \<Rightarrow> string list \<Rightarrow> string \<Rightarrow> string" where
  "join_seats i [] out = out"
| "join_seats i (s # ss) out = join_seats (i + 1) ss ((if i > 0 then out @ [CHR 0x0A] else out) @ s)"

definition encodeSeats :: "string list \<Rightarrow> string" where
  "encodeSeats seats = join_seats 0 seats []"

text \<open>\<open>cur\<close> is the part from \<open>start\<close> to the position of the loop.\<close>

fun cut_seats :: "string \<Rightarrow> string \<Rightarrow> string list" where
  "cut_seats cur [] = [cur]"
| "cut_seats cur (c # cs) = (if c = CHR 0x0A then cur # cut_seats [] cs else cut_seats (cur @ [c]) cs)"

definition decodeSeats :: "string \<Rightarrow> string list" where
  "decodeSeats s = (if s = [] then [] else cut_seats [] s)"

section \<open>Operations\<close>

definition Migrate :: ledger where
  "Migrate = \<lparr>pots = [], attempts = [], last_id = 0\<rparr>"

definition row_of :: "ledger_pot \<Rightarrow> int \<Rightarrow> pot_row" where
  "row_of p now = \<lparr>LHandID = HandID p, LTxid = Txid p, LVout = Vout p, LSatoshis = PSatoshis p, LScript = PLockingScript p,
     LSeats = encodeSeats (PSeats p), LState = PState p, LCreated = now, LUpdated = now\<rparr>"

definition pot_of :: "pot_row \<Rightarrow> ledger_pot" where
  "pot_of r = \<lparr>HandID = LHandID r, Txid = LTxid r, Vout = LVout r, PSatoshis = LSatoshis r, PLockingScript = LScript r,
     PSeats = decodeSeats (LSeats r), PState = LState r, CreatedAt = LCreated r, UpdatedAt = LUpdated r\<rparr>"

definition unique_row :: "pot_row list \<Rightarrow> pot_row \<Rightarrow> bool" where
  "unique_row rs r \<longleftrightarrow> list_all (\<lambda>q. LHandID q \<noteq> LHandID r \<and> (LTxid q, LVout q) \<noteq> (LTxid r, LVout r)) rs"

definition RecordPot :: "bool \<Rightarrow> int \<Rightarrow> ledger_pot \<Rightarrow> ledger \<Rightarrow> (ledger_error, ledger) outcome" where
  "RecordPot up now p l =
     (if HandID p = [] then (Some HandIDRequired, l)
      else if Txid p = [] then (Some TxidRequired, l)
      else if PSatoshis p = 0 then (Some NoValue, l)
      else if PLockingScript p = [] then (Some LockingScriptRequired, l)
      else if PSeats p = [] then (Some SeatsRequired, l)
      else if \<not> PotState_Valid (PState p) then (Some (UnknownPotState (PState p)), l)
      else if \<not> up \<or> \<not> unique_row (pots l) (row_of p now) then (Some Database, l)
      else (None, l\<lparr>pots := pots l @ [row_of p now]\<rparr>))"

definition Ledger_Pot :: "bool \<Rightarrow> string \<Rightarrow> ledger \<Rightarrow> (ledger_error, ledger_pot) res" where
  "Ledger_Pot up handID l =
     (if \<not> up then Inl Database
      else case find (\<lambda>r. LHandID r = handID) (pots l) of
             None \<Rightarrow> Inl (PotNotFound handID)
           | Some r \<Rightarrow> Inr (pot_of r))"

definition mark_pot :: "int \<Rightarrow> string \<Rightarrow> string \<Rightarrow> pot_row \<Rightarrow> pot_row" where
  "mark_pot now handID state r = (if LHandID r = handID then r\<lparr>LState := state, LUpdated := now\<rparr> else r)"

definition SetPotState :: "bool \<Rightarrow> int \<Rightarrow> string \<Rightarrow> string \<Rightarrow> ledger \<Rightarrow> (ledger_error, ledger) outcome" where
  "SetPotState up now handID state l =
     (if \<not> PotState_Valid state then (Some (UnknownPotState state), l)
      else if \<not> up then (Some Database, l)
      else let l' = l\<lparr>pots := map (mark_pot now handID state) (pots l)\<rparr>
        in if list_ex (\<lambda>r. LHandID r = handID) (pots l) then (None, l') else (Some (PotNotFound handID), l'))"

text \<open>SQL leaves the order of rows with equal \<open>created_at\<close> open; here they keep the order of insertion.\<close>

definition PotsInState :: "bool \<Rightarrow> string \<Rightarrow> ledger \<Rightarrow> (ledger_error, ledger_pot list) res" where
  "PotsInState up state l =
     (if \<not> up then Inl Database
      else Inr (map pot_of (sort_key LCreated (filter (\<lambda>r. LState r = state) (pots l)))))"

definition RecordIntent ::
  "bool \<Rightarrow> int \<Rightarrow> string \<Rightarrow> string \<Rightarrow> string \<Rightarrow> ledger \<Rightarrow> (ledger_error, nat) res \<times> ledger" where
  "RecordIntent up now handID purpose txid l =
     (if handID = [] \<or> purpose = [] \<or> txid = [] then (Inl IntentIncomplete, l)
      else if \<not> up then (Inl Database, l)
      else let i = last_id l + 1
        in (Inr i, l\<lparr>attempts := attempts l @ [\<lparr>AID = i, AHandID = handID, Purpose = purpose, ATxid = txid,
                                    AState = AttemptIntended, Reason = [], ACreated = now, AUpdated = now\<rparr>],
                     last_id := i\<rparr>))"

definition mark_attempt :: "int \<Rightarrow> nat \<Rightarrow> string \<Rightarrow> string \<Rightarrow> attempt \<Rightarrow> attempt" where
  "mark_attempt now i state reason a = (if AID a = i then a\<lparr>AState := state, Reason := reason, AUpdated := now\<rparr> else a)"

definition SetAttemptState ::
  "bool \<Rightarrow> int \<Rightarrow> nat \<Rightarrow> string \<Rightarrow> string \<Rightarrow> ledger \<Rightarrow> (ledger_error, ledger) outcome" where
  "SetAttemptState up now i state reason l =
     (if \<not> up then (Some Database, l)
      else let l' = l\<lparr>attempts := map (mark_attempt now i state reason) (attempts l)\<rparr>
        in if list_ex (\<lambda>a. AID a = i) (attempts l) then (None, l') else (Some (AttemptNotFound i), l'))"

definition Attempts :: "bool \<Rightarrow> string \<Rightarrow> ledger \<Rightarrow> (ledger_error, attempt list) res" where
  "Attempts up handID l =
     (if \<not> up then Inl Database else Inr (sort_key AID (filter (\<lambda>a. AHandID a = handID) (attempts l))))"

definition unresolved :: "attempt \<Rightarrow> bool" where
  "unresolved a \<longleftrightarrow> List.member [AttemptIntended, AttemptBroadcast, AttemptUnknown] (AState a)"

definition Unresolved :: "bool \<Rightarrow> ledger \<Rightarrow> (ledger_error, attempt list) res" where
  "Unresolved up l = (if \<not> up then Inl Database else Inr (sort_key AID (filter unresolved (attempts l))))"

section \<open>Seat lists round trip\<close>

lemma join_seats_later: "0 < i \<Longrightarrow> join_seats i ss out = out @ concat (map (\<lambda>s. CHR 0x0A # s) ss)"
  by (induction ss arbitrary: i out) auto

lemma encodeSeats_Cons: "encodeSeats (s # ss) = s @ concat (map (\<lambda>s. CHR 0x0A # s) ss)"
  by (simp add: encodeSeats_def join_seats_later)

lemma cut_seats_plain: "CHR 0x0A \<notin> set s \<Longrightarrow> cut_seats cur (s @ cs) = cut_seats (cur @ s) cs"
  by (induction s arbitrary: cur) auto

lemma cut_seats_joined:
  "\<forall>s \<in> set ss. CHR 0x0A \<notin> set s \<Longrightarrow> cut_seats cur (concat (map (\<lambda>s. CHR 0x0A # s) ss)) = cur # ss"
proof (induction ss arbitrary: cur)
  case (Cons s ss)
  then have "cut_seats [] (s @ concat (map (\<lambda>s. CHR 0x0A # s) ss)) = s # ss" by (simp add: cut_seats_plain)
  then show ?case by simp
qed simp

lemma decode_encode:
  assumes "seats \<noteq> []" "seats \<noteq> [[]]" "\<forall>s \<in> set seats. CHR 0x0A \<notin> set s"
  shows "decodeSeats (encodeSeats seats) = seats"
proof -
  obtain s ss where seats: "seats = s # ss" using assms(1) by (cases seats) auto
  have "encodeSeats seats \<noteq> []" using assms(2) by (cases ss) (auto simp: seats encodeSeats_Cons)
  moreover have "cut_seats [] (encodeSeats seats) = seats"
    using assms(3) by (simp add: seats encodeSeats_Cons cut_seats_plain cut_seats_joined)
  ultimately show ?thesis by (simp add: decodeSeats_def)
qed

section \<open>The ledger as a machine\<close>

datatype ledger_event = ERecordPot bool int ledger_pot | ESetPotState bool int string string
  | ERecordIntent bool int string string string | ESetAttemptState bool int nat string string

fun ledger_step :: "ledger \<Rightarrow> ledger_event \<Rightarrow> ledger" where
  "ledger_step l (ERecordPot up now p) = snd (RecordPot up now p l)"
| "ledger_step l (ESetPotState up now h st) = snd (SetPotState up now h st l)"
| "ledger_step l (ERecordIntent up now h pu tx) = snd (RecordIntent up now h pu tx l)"
| "ledger_step l (ESetAttemptState up now i st re) = snd (SetAttemptState up now i st re l)"

definition ledger_ok :: "ledger \<Rightarrow> bool" where
  "ledger_ok l \<longleftrightarrow> distinct (map LHandID (pots l)) \<and> distinct (map (\<lambda>r. (LTxid r, LVout r)) (pots l))
     \<and> list_all (\<lambda>r. PotState_Valid (LState r)) (pots l)
     \<and> sorted_wrt (<) (map AID (attempts l)) \<and> list_all (\<lambda>a. AID a \<le> last_id l) (attempts l)"

lemma RecordPot_ok: "ledger_ok l \<Longrightarrow> ledger_ok (snd (RecordPot up now p l))"
  by (auto simp: RecordPot_def ledger_ok_def unique_row_def row_of_def list_all_iff)

lemma mark_pot_simps [simp]:
  "LHandID (mark_pot now h st r) = LHandID r" "LTxid (mark_pot now h st r) = LTxid r" "LVout (mark_pot now h st r) = LVout r"
  "PotState_Valid st \<Longrightarrow> PotState_Valid (LState r) \<Longrightarrow> PotState_Valid (LState (mark_pot now h st r))"
  by (simp_all add: mark_pot_def)

lemma mark_attempt_AID [simp]: "AID (mark_attempt now i st re a) = AID a"
  by (simp add: mark_attempt_def)

lemma SetPotState_ok: "ledger_ok l \<Longrightarrow> ledger_ok (snd (SetPotState up now h st l))"
  by (auto simp: SetPotState_def ledger_ok_def Let_def list_all_iff comp_def)

lemma RecordIntent_ok: "ledger_ok l \<Longrightarrow> ledger_ok (snd (RecordIntent up now h pu tx l))"
  by (auto simp: RecordIntent_def ledger_ok_def Let_def list_all_iff sorted_wrt_append)

lemma SetAttemptState_ok: "ledger_ok l \<Longrightarrow> ledger_ok (snd (SetAttemptState up now i st re l))"
  by (auto simp: SetAttemptState_def ledger_ok_def Let_def list_all_iff comp_def)

interpretation ledgers: monotone_machine ledger_step ledger_ok last_id
proof
  fix l :: ledger and e assume "ledger_ok l"
  then show "ledger_ok (ledger_step l e)"
    by (cases e) (simp_all add: RecordPot_ok SetPotState_ok RecordIntent_ok SetAttemptState_ok)
  show "last_id l \<le> last_id (ledger_step l e)"
    by (cases e) (simp_all add: RecordPot_def SetPotState_def RecordIntent_def SetAttemptState_def Let_def)
qed

lemma Migrate_ok: "ledger_ok Migrate"
  by (simp add: Migrate_def ledger_ok_def)

section \<open>Properties\<close>

lemma find_append_new: "(\<forall>x \<in> set xs. \<not> P x) \<Longrightarrow> P y \<Longrightarrow> find P (xs @ [y]) = Some y"
  by (induction xs) auto

text \<open>
  a recorded pot is found again. If the ledger accepts a pot whose seat keys contain no newline, looking up
  its hand returns the pot as it was given, stamped with the time; and the ledger then refuses every other
  pot for the same hand or for the same outpoint.
\<close>

theorem recorded_pot_found:
  assumes rec: "RecordPot up now p l = (None, l')"
    and seats: "\<forall>s \<in> set (PSeats p). CHR 0x0A \<notin> set s" "PSeats p \<noteq> [[]]"
  shows "Ledger_Pot True (HandID p) l' = Inr (p\<lparr>CreatedAt := now, UpdatedAt := now\<rparr>)
     \<and> (\<forall>q up2 now2. HandID q = HandID p \<or> (Txid q = Txid p \<and> Vout q = Vout p) \<longrightarrow>
          fst (RecordPot up2 now2 q l') \<noteq> None \<and> snd (RecordPot up2 now2 q l') = l')"
proof -
  have l': "l' = l\<lparr>pots := pots l @ [row_of p now]\<rparr>" and u: "unique_row (pots l) (row_of p now)" and ne: "PSeats p \<noteq> []"
    using rec by (auto simp: RecordPot_def split: if_splits)
  have "find (\<lambda>r. LHandID r = HandID p) (pots l') = Some (row_of p now)"
    unfolding l' using u by (auto intro!: find_append_new simp: unique_row_def list_all_iff row_of_def)
  moreover have "pot_of (row_of p now) = p\<lparr>CreatedAt := now, UpdatedAt := now\<rparr>"
    using decode_encode [OF ne seats(2,1)] by (simp add: pot_of_def row_of_def)
  moreover have "\<not> unique_row (pots l') (row_of q n)" if "HandID q = HandID p \<or> (Txid q = Txid p \<and> Vout q = Vout p)" for q n
    using that by (auto simp: l' unique_row_def row_of_def)
  ultimately show ?thesis by (auto simp: Ledger_Pot_def RecordPot_def)
qed

definition pot_ex :: ledger_pot where
  "pot_ex = \<lparr>HandID = ''h1'', Txid = ''aa'', Vout = 0, PSatoshis = 1000, PLockingScript = ''52ae'', PSeats = [''02ab'', ''03cd''],
     PState = ''funded'', CreatedAt = 0, UpdatedAt = 0\<rparr>"

theorem recorded_pot_found_witness:
  "fst (RecordPot True 7 pot_ex Migrate) = None
   \<and> Ledger_Pot True ''h1'' (snd (RecordPot True 7 pot_ex Migrate)) = Inr (pot_ex\<lparr>CreatedAt := 7, UpdatedAt := 7\<rparr>)"
proof -
  have R: "RecordPot True 7 pot_ex Migrate = (None, snd (RecordPot True 7 pot_ex Migrate))" by code_simp
  have s: "\<forall>s \<in> set (PSeats pot_ex). CHR 0x0A \<notin> set s" "PSeats pot_ex \<noteq> [[]]" "HandID pot_ex = ''h1''" by (simp_all add: pot_ex_def)
  from recorded_pot_found [OF R s(1,2)] have "Ledger_Pot True ''h1'' (snd (RecordPot True 7 pot_ex Migrate)) = Inr (pot_ex\<lparr>CreatedAt := 7, UpdatedAt := 7\<rparr>)"
    unfolding s(3) by blast
  moreover have "fst (RecordPot True 7 pot_ex Migrate) = None" by (subst R) simp
  ultimately show ?thesis by blast
qed

definition final_for :: "nat \<Rightarrow> ledger_event \<Rightarrow> bool" where
  "final_for i e \<longleftrightarrow> (case e of
     ESetAttemptState up now j st re \<Rightarrow> j = i \<and> \<not> List.member [AttemptIntended, AttemptBroadcast, AttemptUnknown] st
   | _ \<Rightarrow> False)"

definition pending :: "nat \<Rightarrow> string \<Rightarrow> string \<Rightarrow> ledger \<Rightarrow> bool" where
  "pending i h tx l \<longleftrightarrow> (\<exists>a \<in> set (attempts l). AID a = i \<and> AHandID a = h \<and> ATxid a = tx \<and> unresolved a)"

lemma pending_step: "pending i h tx l \<Longrightarrow> \<not> final_for i e \<Longrightarrow> pending i h tx (ledger_step l e)"
proof (cases e)
  case (ESetAttemptState up now j st re)
  assume p: "pending i h tx l" and f: "\<not> final_for i e"
  then obtain a where a: "a \<in> set (attempts l)" "AID a = i" "AHandID a = h" "ATxid a = tx" "unresolved a"
    by (auto simp: pending_def)
  have "unresolved (mark_attempt now j st re a)" using a f ESetAttemptState
    by (auto simp: mark_attempt_def unresolved_def final_for_def)
  moreover have "AHandID (mark_attempt now j st re a) = h" "ATxid (mark_attempt now j st re a) = tx"
    using a by (simp_all add: mark_attempt_def)
  moreover have "attempts (ledger_step l e) = (if up then map (mark_attempt now j st re) (attempts l) else attempts l)"
    by (simp add: ESetAttemptState SetAttemptState_def Let_def)
  ultimately show ?thesis using a p by (cases up) (auto simp: pending_def intro!: bexI [of _ a])
qed (auto simp: pending_def RecordPot_def SetPotState_def RecordIntent_def Let_def)

text \<open>
  C38: a write-ahead intent is never lost. Once an intent is recorded, every later list of unresolved attempts
  names it, with the transaction that may be on the network, whatever else the ledger is asked to do, until
  its own state is set to something final; and its id belongs to no other attempt.
\<close>

theorem intent_survives:
  assumes reach: "l = run ledger_step Migrate es"
    and intent: "RecordIntent True now h purpose tx l = (Inr i, l1)"
    and later: "list_all (\<lambda>e. \<not> final_for i e) fs"
  shows "\<exists>as a. Unresolved True (run ledger_step l1 fs) = Inr as \<and> a \<in> set as \<and> AID a = i \<and> AHandID a = h \<and> ATxid a = tx
     \<and> distinct (map AID as)"
proof -
  have ok: "ledger_ok l" unfolding reach by (rule ledgers.run_inv [OF Migrate_ok])
  have ok1: "ledger_ok l1" using RecordIntent_ok [OF ok, of True now h purpose tx] intent by simp
  have "pending i h tx l1"
    using intent by (auto simp: RecordIntent_def pending_def unresolved_def Let_def split: if_splits)
  from ledgers.run_stable_on [where P = "pending i h tx", OF ok1 this later] have p: "pending i h tx (run ledger_step l1 fs)"
    using pending_step by blast
  let ?l = "run ledger_step l1 fs" and ?as = "sort_key AID (filter unresolved (attempts (run ledger_step l1 fs)))"
  have "distinct (map AID (attempts ?l))"
    using ledgers.run_inv [OF ok1, of fs] strict_sorted_iff [of "map AID (attempts ?l)"] by (auto simp: ledger_ok_def)
  then have d: "distinct (map AID ?as)" by (simp add: distinct_map inj_on_def distinct_filter)
  obtain a where a: "a \<in> set ?as" "AID a = i" "AHandID a = h" "ATxid a = tx" using p by (auto simp: pending_def)
  with d show ?thesis by (auto simp: Unresolved_def)
qed

definition ledger_before :: "ledger_event list" where
  "ledger_before = [ERecordPot True 1 pot_ex, ERecordIntent True 2 ''h1'' ''settle'' ''t1'', ESetAttemptState True 3 1 ''rejected'' ''low fee'']"

definition ledger_after :: "ledger_event list" where
  "ledger_after = [ESetAttemptState True 5 2 ''unknown'' ''timeout'', ESetPotState True 6 ''h1'' ''settling'', ESetAttemptState True 7 1 ''confirmed'' []]"

theorem intent_survives_witness:
  "\<exists>l1 as. RecordIntent True 4 ''h1'' ''refund'' ''t2'' (run ledger_step Migrate ledger_before) = (Inr 2, l1)
     \<and> Unresolved True (run ledger_step l1 ledger_after) = Inr as \<and> list_ex (\<lambda>a. AID a = 2 \<and> ATxid a = ''t2'') as"
proof -
  let ?l = "run ledger_step Migrate ledger_before"
  have I: "RecordIntent True 4 ''h1'' ''refund'' ''t2'' ?l = (Inr 2, snd (RecordIntent True 4 ''h1'' ''refund'' ''t2'' ?l))"
    by code_simp
  have L: "list_all (\<lambda>e. \<not> final_for 2 e) ledger_after" by code_simp
  from intent_survives [OF refl I L] I show ?thesis by (fastforce simp: list_ex_iff)
qed

end
