(* ===== verification/Broadcast.thy ===== *)
theory Broadcast
  imports Cards
begin

text \<open>
  The one path to the transaction network, \<^verbatim>\<open>internal/wallet/broadcast\<close>: \<open>Classify\<close>, the retry loop of \<open>Send\<close>,
  and the audit record. The network is the argument \<open>resp\<close>, which gives the answer to the \<open>k\<close>-th call;
  \<open>cancelled k\<close> says that the context is done while the loop waits after it. A Go error is a record of what the code asks of
  it: whether it wraps a \<open>BackpressureError\<close>, and its text. Durations are nanoseconds as integers.
\<close>

section \<open>Outcomes\<close>

datatype broadcast_outcome = OutcomeAccepted | OutcomeRejected | OutcomeBackpressure | OutcomeIndeterminate

fun Outcome_String :: "broadcast_outcome \<Rightarrow> string" where
  "Outcome_String OutcomeAccepted = ''accepted''"
| "Outcome_String OutcomeRejected = ''rejected''"
| "Outcome_String OutcomeBackpressure = ''backpressure''"
| "Outcome_String OutcomeIndeterminate = ''indeterminate''"

definition Retryable :: "broadcast_outcome \<Rightarrow> bool" where
  "Retryable o' \<longleftrightarrow> o' = OutcomeBackpressure"

text \<open>What the network client returns; \<open>BackpressureAfter\<close> is the \<open>RetryAfter\<close> of a wrapped \<open>BackpressureError\<close>.\<close>

record net_error =
  BackpressureAfter :: "int option"
  ErrText :: string

record net_result =
  NTxID :: string
  NStatus :: string
  NRejected :: bool
  NExtraInfo :: string

type_synonym response = "net_result option \<times> net_error option"

record bcast_result =
  Outcome :: broadcast_outcome
  RTxID :: string
  RStatus :: string
  RReason :: string
  RetryAfter :: int
  RErr :: "net_error option"

definition Result_Rejected :: "bcast_result \<Rightarrow> bool" where
  "Result_Rejected r \<longleftrightarrow> Outcome r = OutcomeRejected"

definition Result_Accepted :: "bcast_result \<Rightarrow> bool" where
  "Result_Accepted r \<longleftrightarrow> Outcome r = OutcomeAccepted"

definition result_of :: "broadcast_outcome \<Rightarrow> bcast_result" where
  "result_of o' = \<lparr>Outcome = o', RTxID = [], RStatus = [], RReason = [], RetryAfter = 0, RErr = None\<rparr>"

definition rejected_result :: "net_result \<Rightarrow> bcast_result" where
  "rejected_result r = (result_of OutcomeRejected)\<lparr>RTxID := NTxID r, RStatus := NStatus r, RReason := NExtraInfo r\<rparr>"

text \<open>\<open>statusRejected\<close> is the client's constant \<open>StatusRejected\<close>; a second is \<open>10\<^sup>9\<close> nanoseconds.\<close>

definition Classify :: "string \<Rightarrow> response \<Rightarrow> bcast_result" where
  "Classify statusRejected resp =
     (let (res, err) = resp
      in case Option.bind err BackpressureAfter of
           Some after \<Rightarrow>
             (result_of OutcomeBackpressure)\<lparr>RetryAfter := (if after \<le> 0 then 1000000000 else after), RErr := err\<rparr>
         | None \<Rightarrow>
             (case res of
                Some r \<Rightarrow>
                  if NRejected r then rejected_result r
                  else if err \<noteq> None then (result_of OutcomeIndeterminate)\<lparr>RErr := err\<rparr>
                  else if NStatus r = statusRejected then rejected_result r
                  else (result_of OutcomeAccepted)\<lparr>RTxID := NTxID r, RStatus := NStatus r\<rparr>
              | None \<Rightarrow>
                  if err \<noteq> None then (result_of OutcomeIndeterminate)\<lparr>RErr := err\<rparr>
                  else (result_of OutcomeIndeterminate)\<lparr>RErr := Some \<lparr>BackpressureAfter = None,
                         ErrText = ''broadcast returned neither a result nor an error''\<rparr>\<rparr>))"

section \<open>Sending\<close>

record policy =
  MaxBackpressureRetries :: int
  MaxBackoff :: int

definition DefaultPolicy :: policy where
  "DefaultPolicy = \<lparr>MaxBackpressureRetries = 5, MaxBackoff = 10 * 1000000000\<rparr>"

datatype send_error = ErrRejected string string | BackpressurePersisted int "net_error option" | ContextDone
  | SendIndeterminate "net_error option"

definition err_text :: "net_error option \<Rightarrow> string" where
  "err_text e = (case e of None \<Rightarrow> ''%!w(<nil>)'' | Some x \<Rightarrow> ErrText x)"

fun Error_text :: "send_error \<Rightarrow> string" where
  "Error_text (ErrRejected txid reason) =
     (if reason = [] then ''broadcast rejected (txid '' @ txid @ '')''
      else ''broadcast rejected (txid '' @ txid @ ''): '' @ reason)"
| "Error_text (BackpressurePersisted n e) =
     ''broadcast: backpressure persisted after '' @ decimal (nat n) @ '' attempts: '' @ err_text e"
| "Error_text ContextDone = ''context canceled''"
| "Error_text (SendIndeterminate e) = ''broadcast: outcome indeterminate, reconcile by status: '' @ err_text e"

definition wait_for :: "policy \<Rightarrow> bcast_result \<Rightarrow> int" where
  "wait_for pol r = (if MaxBackoff pol > 0 \<and> RetryAfter r > MaxBackoff pol then MaxBackoff pol else RetryAfter r)"

text \<open>The loop returns the waits it made, the last classified result and the error.\<close>

function send_loop ::
  "string \<Rightarrow> (nat \<Rightarrow> response) \<Rightarrow> (nat \<Rightarrow> bool) \<Rightarrow> policy \<Rightarrow> nat \<Rightarrow> int list
     \<Rightarrow> int list \<times> bcast_result \<times> send_error option" where
  "send_loop sr resp cancelled pol attempt waits =
     (let r = Classify sr (resp attempt)
      in case Outcome r of
           OutcomeAccepted \<Rightarrow> (waits, r, None)
         | OutcomeRejected \<Rightarrow> (waits, r, Some (ErrRejected (RTxID r) (RReason r)))
         | OutcomeBackpressure \<Rightarrow>
             if int attempt \<ge> MaxBackpressureRetries pol
             then (waits, r, Some (BackpressurePersisted (int attempt + 1) (RErr r)))
             else if cancelled attempt then (waits, r, Some ContextDone)
             else send_loop sr resp cancelled pol (attempt + 1) (waits @ [wait_for pol r])
         | OutcomeIndeterminate \<Rightarrow> (waits, r, Some (SendIndeterminate (RErr r))))"
  by pat_completeness auto
termination
  by (relation "measure (\<lambda>(sr, resp, c, pol, attempt, waits). nat (MaxBackpressureRetries pol - int attempt))") auto

declare send_loop.simps [simp del]

definition Bcast_Send ::
  "string \<Rightarrow> (nat \<Rightarrow> response) \<Rightarrow> (nat \<Rightarrow> bool) \<Rightarrow> policy \<Rightarrow> int list \<times> bcast_result \<times> send_error option" where
  "Bcast_Send sr resp cancelled pol = send_loop sr resp cancelled pol 0 []"

section \<open>The audit record\<close>

record audit_event =
  At :: int
  EvHandID :: string
  EvPurpose :: string
  EvTxID :: string
  EvSatoshis :: u64
  EvOutcome :: broadcast_outcome
  EvReason :: string

datatype log_level = LogError | LogWarn | LogInfo

text \<open>The level, the message and the reason attribute, which is present only when there is a reason.\<close>

definition LogAuditor_Record :: "audit_event \<Rightarrow> log_level \<times> string \<times> string option" where
  "LogAuditor_Record e =
     (let reason = (if EvReason e = [] then None else Some (EvReason e))
      in case EvOutcome e of
           OutcomeRejected \<Rightarrow> (LogError, ''money movement rejected'', reason)
         | OutcomeIndeterminate \<Rightarrow> (LogError, ''money movement outcome unknown'', reason)
         | OutcomeBackpressure \<Rightarrow> (LogWarn, ''money movement backpressured'', reason)
         | OutcomeAccepted \<Rightarrow> (LogInfo, ''money movement accepted'', reason))"

definition Recorder_Record :: "int \<Rightarrow> audit_event \<Rightarrow> audit_event list \<Rightarrow> audit_event list" where
  "Recorder_Record now e events = events @ [if At e = 0 then e\<lparr>At := now\<rparr> else e]"

definition ForHand :: "string \<Rightarrow> audit_event list \<Rightarrow> audit_event list" where
  "ForHand handID events = filter (\<lambda>e. EvHandID e = handID) events"

definition audit_record :: "int \<Rightarrow> audit_event \<Rightarrow> bcast_result \<Rightarrow> send_error option \<Rightarrow> audit_event" where
  "audit_record now e res err =
     e\<lparr>At := now, EvOutcome := Outcome res,
       EvTxID := (if EvTxID e = [] then RTxID res else EvTxID e),
       EvReason := (if RReason res \<noteq> [] then RReason res
                    else case err of
                           Some x \<Rightarrow> if Outcome res \<noteq> OutcomeAccepted then Error_text x else EvReason e
                         | None \<Rightarrow> EvReason e)\<rparr>"

text \<open>\<open>SendAudited\<close> with the in-memory recorder as the auditor; \<open>None\<close> is a nil auditor.\<close>

definition SendAudited ::
  "string \<Rightarrow> (nat \<Rightarrow> response) \<Rightarrow> (nat \<Rightarrow> bool) \<Rightarrow> policy \<Rightarrow> int \<Rightarrow> audit_event \<Rightarrow> audit_event list option
     \<Rightarrow> (bcast_result \<times> send_error option) \<times> audit_event list option" where
  "SendAudited sr resp cancelled pol now e auditor =
     (case Bcast_Send sr resp cancelled pol of
        (waits, res, err) \<Rightarrow> ((res, err), map_option (Recorder_Record now (audit_record now e res err)) auditor))"

section \<open>Properties\<close>

lemma Classify_accepted:
  "Outcome (Classify sr (res, err)) = OutcomeAccepted \<longleftrightarrow>
     err = None \<and> (\<exists>r. res = Some r \<and> \<not> NRejected r \<and> NStatus r \<noteq> sr)"
  by (auto simp: Classify_def result_of_def rejected_result_def split: option.split)

lemma Classify_rejected:
  "Outcome (Classify sr (res, err)) = OutcomeRejected \<longleftrightarrow>
     (\<exists>r. res = Some r \<and> (NRejected r \<and> Option.bind err BackpressureAfter = None \<or> err = None \<and> NStatus r = sr))"
  by (auto simp: Classify_def result_of_def rejected_result_def split: option.split)

lemma send_loop_spec:
  assumes "send_loop sr resp cancelled pol attempt waits = (waits', r, err)"
  shows "\<exists>ws. waits' = waits @ ws \<and> r = Classify sr (resp (attempt + length ws))
     \<and> (\<forall>k < length ws. Outcome (Classify sr (resp (attempt + k))) = OutcomeBackpressure
          \<and> ws ! k = wait_for pol (Classify sr (resp (attempt + k))))
     \<and> (ws = [] \<or> int (attempt + length ws) \<le> MaxBackpressureRetries pol)
     \<and> (err = None \<longleftrightarrow> Outcome r = OutcomeAccepted)"
  using assms
proof (induction sr resp cancelled pol attempt waits rule: send_loop.induct)
  case (1 sr resp cancelled pol attempt waits)
  let ?r = "Classify sr (resp attempt)"
  show ?case
  proof (cases "Outcome ?r = OutcomeBackpressure \<and> int attempt < MaxBackpressureRetries pol \<and> \<not> cancelled attempt")
    case True
    then have eq: "send_loop sr resp cancelled pol attempt waits
        = send_loop sr resp cancelled pol (attempt + 1) (waits @ [wait_for pol ?r])"
      by (subst send_loop.simps) (simp add: Let_def)
    obtain ws where ws: "waits' = waits @ [wait_for pol ?r] @ ws" "r = Classify sr (resp (attempt + 1 + length ws))"
      "\<forall>k < length ws. Outcome (Classify sr (resp (attempt + 1 + k))) = OutcomeBackpressure
          \<and> ws ! k = wait_for pol (Classify sr (resp (attempt + 1 + k)))"
      "ws = [] \<or> int (attempt + 1 + length ws) \<le> MaxBackpressureRetries pol" "err = None \<longleftrightarrow> Outcome r = OutcomeAccepted"
      using 1(1) [OF refl] True 1(2) eq by auto
    have "Outcome (Classify sr (resp (attempt + k))) = OutcomeBackpressure
        \<and> (wait_for pol ?r # ws) ! k = wait_for pol (Classify sr (resp (attempt + k)))" if "k < length (wait_for pol ?r # ws)" for k
      using that True ws(3) by (cases k) auto
    then show ?thesis using ws True by (intro exI [of _ "wait_for pol ?r # ws"]) auto
  next
    case False
    then have "waits' = waits" "r = ?r" "err = None \<longleftrightarrow> Outcome r = OutcomeAccepted"
      using 1(2) by (auto simp: send_loop.simps [of sr resp cancelled pol attempt waits] Let_def split: broadcast_outcome.splits if_splits)
    then show ?thesis by (intro exI [of _ "[]"]) simp
  qed
qed

text \<open>
  C29: sending never mistakes a refusal for success and resends only under backpressure. \<open>Send\<close> returns; it
  reports no error exactly when the last answer was accepted, which takes an answer with no error, no rejection
  flag and no rejected status; every answer before the last was backpressure, and it waited between them,
  at most as long as the policy's limit; and it retries at most as often as the policy allows.
\<close>

theorem Send_contract:
  assumes "Bcast_Send sr resp cancelled pol = (waits, r, err)"
  shows "r = Classify sr (resp (length waits))
     \<and> (err = None \<longleftrightarrow> (\<exists>x. resp (length waits) = (Some x, None) \<and> \<not> NRejected x \<and> NStatus x \<noteq> sr))
     \<and> (\<forall>k < length waits. Outcome (Classify sr (resp k)) = OutcomeBackpressure)
     \<and> int (length waits) \<le> max 0 (MaxBackpressureRetries pol)
     \<and> (0 < MaxBackoff pol \<longrightarrow> (\<forall>w \<in> set waits. w \<le> MaxBackoff pol))"
proof -
  obtain ws where ws: "waits = ws" "r = Classify sr (resp (length ws))"
      "\<forall>k < length ws. Outcome (Classify sr (resp k)) = OutcomeBackpressure \<and> ws ! k = wait_for pol (Classify sr (resp k))"
      "ws = [] \<or> int (length ws) \<le> MaxBackpressureRetries pol" "err = None \<longleftrightarrow> Outcome r = OutcomeAccepted"
    using send_loop_spec [OF assms [unfolded Bcast_Send_def]] by auto
  have "Outcome r = OutcomeAccepted \<longleftrightarrow> (\<exists>x. resp (length ws) = (Some x, None) \<and> \<not> NRejected x \<and> NStatus x \<noteq> sr)"
    using Classify_accepted [of sr "fst (resp (length ws))" "snd (resp (length ws))"] ws(2) by (auto simp: prod_eq_iff)
  moreover have "w \<le> MaxBackoff pol" if "0 < MaxBackoff pol" "w \<in> set ws" for w
    using that ws(3) by (auto simp: in_set_conv_nth wait_for_def)
  ultimately show ?thesis using ws by auto
qed

definition busy :: response where
  "busy = (None, Some \<lparr>BackpressureAfter = Some 20000000000, ErrText = ''503''\<rparr>)"

definition refused :: response where
  "refused = (Some \<lparr>NTxID = ''t'', NStatus = ''REJECTED'', NRejected = True, NExtraInfo = ''low fee''\<rparr>, None)"

theorem Send_contract_witness:
  "Bcast_Send ''REJECTED'' (\<lambda>k. if k < 2 then busy else refused) (\<lambda>k. False) DefaultPolicy
     = ([10000000000, 10000000000], Classify ''REJECTED'' refused, Some (ErrRejected ''t'' ''low fee''))
   \<and> Outcome (Classify ''REJECTED'' busy) = OutcomeBackpressure"
proof -
  let ?resp = "\<lambda>k. if k < (2::nat) then busy else refused"
  have S: "Bcast_Send ''REJECTED'' ?resp (\<lambda>k. False) DefaultPolicy
     = ([10000000000, 10000000000], Classify ''REJECTED'' refused, Some (ErrRejected ''t'' ''low fee''))"
    by (simp add: Bcast_Send_def send_loop.simps Let_def busy_def refused_def DefaultPolicy_def Classify_def
        result_of_def rejected_result_def wait_for_def)
  from Send_contract [OF S] have "\<forall>k < 2. Outcome (Classify ''REJECTED'' (?resp k)) = OutcomeBackpressure"
    by (simp add: numeral_2_eq_2)
  then have "Outcome (Classify ''REJECTED'' (?resp 0)) = OutcomeBackpressure" by (metis zero_less_numeral)
  with S show ?thesis by simp
qed

text \<open>
  no money movement goes unrecorded. \<open>SendAudited\<close> appends exactly one event, found again under its hand,
  with the outcome \<open>Send\<close> returned; an event whose outcome is not acceptance carries a reason.
\<close>

theorem SendAudited_records:
  assumes "SendAudited sr resp cancelled pol now e (Some events) = ((r, err), Some events')"
  shows "\<exists>ev. events' = events @ [ev] \<and> EvHandID ev = EvHandID e \<and> EvOutcome ev = Outcome r
     \<and> ForHand (EvHandID e) events' = ForHand (EvHandID e) events @ [ev]
     \<and> (EvOutcome ev \<noteq> OutcomeAccepted \<longrightarrow> EvReason ev \<noteq> [])"
proof -
  obtain waits where S: "Bcast_Send sr resp cancelled pol = (waits, r, err)"
    and ev: "events' = Recorder_Record now (audit_record now e r err) events"
    using assms by (auto simp: SendAudited_def split: prod.splits)
  obtain ev where l: "events' = events @ [ev]" "EvHandID ev = EvHandID e" "EvOutcome ev = Outcome r"
    "EvReason ev = EvReason (audit_record now e r err)"
    using ev by (simp add: Recorder_Record_def audit_record_def)
  have "Outcome r \<noteq> OutcomeAccepted \<Longrightarrow> err \<noteq> None"
    using send_loop_spec [OF S [unfolded Bcast_Send_def]] by blast
  moreover have "Error_text x \<noteq> []" for x by (cases x) auto
  ultimately have "Outcome r \<noteq> OutcomeAccepted \<Longrightarrow> EvReason ev \<noteq> []"
    by (auto simp: l(4) audit_record_def)
  then show ?thesis using l(1-3) by (simp add: ForHand_def)
qed

definition audit_ex :: audit_event where
  "audit_ex = \<lparr>At = 0, EvHandID = ''h1'', EvPurpose = ''settlement'', EvTxID = [], EvSatoshis = 1000,
     EvOutcome = OutcomeAccepted, EvReason = []\<rparr>"

theorem SendAudited_records_witness:
  "\<exists>r err ev. SendAudited ''REJECTED'' (\<lambda>k. refused) (\<lambda>k. False) DefaultPolicy 5 audit_ex (Some []) = ((r, err), Some [ev])
     \<and> ForHand ''h1'' [ev] = [ev] \<and> EvOutcome ev = Outcome r \<and> EvReason ev = ''low fee''"
proof -
  have S: "Bcast_Send ''REJECTED'' (\<lambda>k. refused) (\<lambda>k. False) DefaultPolicy
     = ([], Classify ''REJECTED'' refused, Some (ErrRejected ''t'' ''low fee''))"
    by (simp add: Bcast_Send_def send_loop.simps Let_def refused_def Classify_def result_of_def rejected_result_def)
  have R: "RReason (Classify ''REJECTED'' refused) = ''low fee''"
    by (simp add: refused_def Classify_def rejected_result_def)
  obtain r err ev where A: "SendAudited ''REJECTED'' (\<lambda>k. refused) (\<lambda>k. False) DefaultPolicy 5 audit_ex (Some []) = ((r, err), Some [ev])"
    "EvReason ev = ''low fee''"
    by (simp add: SendAudited_def S Recorder_Record_def audit_record_def audit_ex_def R)
  have "EvHandID audit_ex = ''h1''" by (simp add: audit_ex_def)
  with SendAudited_records [OF A(1)] A show ?thesis by (auto simp: ForHand_def)
qed

end
