(* ===== verification/Mental_Poker.thy ===== *)
theory Mental_Poker
  imports Cards
begin

text \<open>
  Dealing without a dealer: \<^verbatim>\<open>internal/game/mentalpoker\<close>, \<^verbatim>\<open>curve.go\<close> and \<^verbatim>\<open>deck.go\<close>. The curve is the SDK's
  secp256k1 and enters as the record \<open>curve\<close>; \<open>curve_laws\<close> is what the code relies on of it: multiplication
  by scalars below the order is the action of a group of that prime order, the multiples of the base point are
  distinct, and the compressed encoding can be parsed back. A point with nil coordinates is \<open>NilPoint\<close>, which is not
  on the curve. Every way the code makes a scalar gives a non-negative number, so a scalar is an optional natural
  number, \<open>None\<close> for the nil pointer of the zero value. Random values are arguments.
\<close>

section \<open>Scalars\<close>

record 'p curve =
  CurveN :: nat
  BaseMult :: "nat \<Rightarrow> 'p"
  ScalarMult :: "'p \<Rightarrow> nat \<Rightarrow> 'p"
  OnCurve :: "'p \<Rightarrow> bool"
  CompressPoint :: "'p \<Rightarrow> bytes"
  ParsePubKey :: "bytes \<Rightarrow> 'p option"
  NilPoint :: 'p

type_synonym scalar = "nat option"

datatype mp_error = RandomSource | NegativeCount int | ScalarLength nat | ScalarZero | ScalarTooLarge
  | InvertInvalid | NoInverse | MultiplyInvalid | ProductZero | NegativeCard int | CardOutOfRange int
  | PointLength nat | PointUnparseable | PointOffCurve | MaskInvalidPoint | MaskInvalidScalar | MaskedInvalid
  | DeckNotPositive int | DeckEmpty | DeckPointInvalid nat | PositionOutside int nat
  | PermLength nat nat | PermEntry nat int | PermTwice int
  | ShuffleScalarInvalid | GlobalInvalid | ScalarsLength nat nat | PositionScalarInvalid nat | UnmaskScalarInvalid nat
  | IdentifyInvalid | NoCard

definition ScalarSize :: nat where "ScalarSize = 32"

definition PointSize :: nat where "PointSize = 33"

text \<open>The loop of \<open>NewScalar\<close> over the values \<open>rnd k, rnd (k + 1), \<dots>\<close> of the random source, \<open>None\<close> a read error. A run
  that never meets a value other than zero does not return, which is the value \<open>None\<close> here.\<close>

partial_function (option) new_scalar_from ::
  "(nat \<Rightarrow> nat option) \<Rightarrow> nat \<Rightarrow> ((mp_error, scalar) res \<times> nat) option" where
  "new_scalar_from rnd k =
     (case rnd k of
        None \<Rightarrow> Some (Inl RandomSource, k + 1)
      | Some d \<Rightarrow> if d \<noteq> 0 then Some (Inr (Some d), k + 1) else new_scalar_from rnd (k + 1))"

definition NewScalar :: "(nat \<Rightarrow> nat option) \<Rightarrow> ((mp_error, scalar) res \<times> nat) option" where
  "NewScalar rnd = new_scalar_from rnd 0"

fun new_scalars :: "(nat \<Rightarrow> nat option) \<Rightarrow> nat \<Rightarrow> nat \<Rightarrow> (mp_error, scalar list) res option" where
  "new_scalars rnd k 0 = Some (Inr [])"
| "new_scalars rnd k (Suc n) =
     (case new_scalar_from rnd k of
        None \<Rightarrow> None
      | Some (Inl e, k') \<Rightarrow> Some (Inl e)
      | Some (Inr s, k') \<Rightarrow>
          (case new_scalars rnd k' n of
             None \<Rightarrow> None | Some (Inl e) \<Rightarrow> Some (Inl e) | Some (Inr ss) \<Rightarrow> Some (Inr (s # ss))))"

definition NewScalars :: "(nat \<Rightarrow> nat option) \<Rightarrow> int \<Rightarrow> (mp_error, scalar list) res option" where
  "NewScalars rnd n = (if n < 0 then Some (Inl (NegativeCount n)) else new_scalars rnd 0 (nat n))"

text \<open>Big-endian bytes, as \<open>SetBytes\<close> reads and \<open>FillBytes\<close> writes them.\<close>

fun be_nat :: "bytes \<Rightarrow> nat" where
  "be_nat [] = 0"
| "be_nat (b # bs) = unat b * 256 ^ length bs + be_nat bs"

fun be_bytes :: "nat \<Rightarrow> nat \<Rightarrow> bytes" where
  "be_bytes 0 d = []"
| "be_bytes (Suc n) d = of_nat (d div 256 ^ n) # be_bytes n (d mod 256 ^ n)"

definition ScalarFromBytes :: "'p curve \<Rightarrow> bytes \<Rightarrow> (mp_error, scalar) res" where
  "ScalarFromBytes c b =
     (if length b \<noteq> ScalarSize then Inl (ScalarLength (length b))
      else let d = be_nat b
        in if d = 0 then Inl ScalarZero
           else if d \<ge> CurveN c then Inl ScalarTooLarge
           else Inr (Some d))"

definition Scalar_Bytes :: "scalar \<Rightarrow> bytes" where
  "Scalar_Bytes s = (case s of None \<Rightarrow> [] | Some d \<Rightarrow> be_bytes ScalarSize d)"

definition Scalar_Valid :: "'p curve \<Rightarrow> scalar \<Rightarrow> bool" where
  "Scalar_Valid c s \<longleftrightarrow> (case s of None \<Rightarrow> False | Some d \<Rightarrow> d \<noteq> 0 \<and> d < CurveN c)"

text \<open>\<open>ModInverse\<close> by the extended Euclidean algorithm: the gcd and the coefficient of the first argument.\<close>

function egcd :: "int \<Rightarrow> int \<Rightarrow> int \<times> int \<times> int" where
  "egcd a b = (if b \<le> 0 then (a, 1, 0) else let (g, x, y) = egcd b (a mod b) in (g, y, x - (a div b) * y))"
  by pat_completeness auto
termination
  by (relation "measure (\<lambda>(a, b). nat b)") auto

declare egcd.simps [simp del]

definition ModInverse :: "nat \<Rightarrow> nat \<Rightarrow> nat option" where
  "ModInverse a n = (case egcd (int a) (int n) of (g, x, y) \<Rightarrow> if g = 1 then Some (nat (x mod int n)) else None)"

definition Inverse :: "'p curve \<Rightarrow> scalar \<Rightarrow> (mp_error, scalar) res" where
  "Inverse c s =
     (if \<not> Scalar_Valid c s then Inl InvertInvalid
      else case ModInverse (the s) (CurveN c) of None \<Rightarrow> Inl NoInverse | Some i \<Rightarrow> Inr (Some i))"

definition Scalar_Mul :: "'p curve \<Rightarrow> scalar \<Rightarrow> scalar \<Rightarrow> (mp_error, scalar) res" where
  "Scalar_Mul c s t =
     (if \<not> Scalar_Valid c s \<or> \<not> Scalar_Valid c t then Inl MultiplyInvalid
      else let p = (the s * the t) mod CurveN c in if p = 0 then Inl ProductZero else Inr (Some p))"

definition Scalar_Equal :: "scalar \<Rightarrow> scalar \<Rightarrow> bool" where
  "Scalar_Equal s t \<longleftrightarrow> (case (s, t) of (Some a, Some b) \<Rightarrow> a = b | (None, None) \<Rightarrow> True | _ \<Rightarrow> False)"

section \<open>Points\<close>

definition CardPoint :: "'p curve \<Rightarrow> int \<Rightarrow> (mp_error, 'p) res" where
  "CardPoint c i =
     (if i < 0 then Inl (NegativeCard i)
      else if nat (i + 1) \<ge> CurveN c then Inl (CardOutOfRange i)
      else Inr (BaseMult c (nat (i + 1))))"

definition Point_Valid :: "'p curve \<Rightarrow> 'p \<Rightarrow> bool" where
  "Point_Valid c p \<longleftrightarrow> OnCurve c p"

definition PointFromBytes :: "'p curve \<Rightarrow> bytes \<Rightarrow> (mp_error, 'p) res" where
  "PointFromBytes c b =
     (if length b \<noteq> PointSize then Inl (PointLength (length b))
      else case ParsePubKey c b of
             None \<Rightarrow> Inl PointUnparseable
           | Some p \<Rightarrow> if \<not> OnCurve c p then Inl PointOffCurve else Inr p)"

definition Point_Bytes :: "'p curve \<Rightarrow> 'p \<Rightarrow> bytes" where
  "Point_Bytes c p = (if \<not> Point_Valid c p then [] else CompressPoint c p)"

definition Mask :: "'p curve \<Rightarrow> 'p \<Rightarrow> scalar \<Rightarrow> (mp_error, 'p) res" where
  "Mask c p s =
     (if \<not> Point_Valid c p then Inl MaskInvalidPoint
      else if \<not> Scalar_Valid c s then Inl MaskInvalidScalar
      else let out = ScalarMult c p (the s) in if \<not> Point_Valid c out then Inl MaskedInvalid else Inr out)"

definition Point_Unmask :: "'p curve \<Rightarrow> 'p \<Rightarrow> scalar \<Rightarrow> (mp_error, 'p) res" where
  "Point_Unmask c p s = (case Inverse c s of Inl e \<Rightarrow> Inl e | Inr si \<Rightarrow> Mask c p si)"

definition randIndex :: "(int \<Rightarrow> nat option) \<Rightarrow> int \<Rightarrow> (mp_error, nat) res" where
  "randIndex rnd n = (if n \<le> 0 then Inl (NegativeCount n) else case rnd n of None \<Rightarrow> Inl RandomSource | Some v \<Rightarrow> Inr v)"

section \<open>Decks\<close>

fun card_points :: "'p curve \<Rightarrow> nat \<Rightarrow> nat \<Rightarrow> (mp_error, 'p list) res" where
  "card_points c i 0 = Inr []"
| "card_points c i (Suc n) =
     (case CardPoint c (int i) of
        Inl e \<Rightarrow> Inl e
      | Inr p \<Rightarrow> (case card_points c (i + 1) n of Inl e \<Rightarrow> Inl e | Inr ps \<Rightarrow> Inr (p # ps)))"

definition BaseDeck :: "'p curve \<Rightarrow> int \<Rightarrow> (mp_error, 'p list) res" where
  "BaseDeck c n = (if n \<le> 0 then Inl (DeckNotPositive n) else card_points c 0 (nat n))"

definition DeckFromPoints :: "'p curve \<Rightarrow> 'p list \<Rightarrow> (mp_error, 'p list) res" where
  "DeckFromPoints c pts =
     (if pts = [] then Inl DeckEmpty
      else case find (\<lambda>i. \<not> Point_Valid c (pts ! i)) [0..<length pts] of
             Some i \<Rightarrow> Inl (DeckPointInvalid i)
           | None \<Rightarrow> Inr pts)"

definition Deck_At :: "'p list \<Rightarrow> int \<Rightarrow> (mp_error, 'p) res" where
  "Deck_At d i = (if i < 0 \<or> i \<ge> int (length d) then Inl (PositionOutside i (length d)) else Inr (d ! nat i))"

definition Deck_Equal :: "'p list \<Rightarrow> 'p list \<Rightarrow> bool" where
  "Deck_Equal d e \<longleftrightarrow> length d = length e \<and> list_all2 (=) d e"

fun check_perm :: "int \<Rightarrow> nat \<Rightarrow> int list \<Rightarrow> bool list \<Rightarrow> mp_error option" where
  "check_perm n i [] seen_v = None"
| "check_perm n i (v # vs) seen_v =
     (if v < 0 \<or> v \<ge> n then Some (PermEntry i v)
      else if seen_v ! nat v then Some (PermTwice v)
      else check_perm n (i + 1) vs (seen_v[nat v := True]))"

definition ValidatePermutation :: "int list \<Rightarrow> nat \<Rightarrow> mp_error option" where
  "ValidatePermutation p n =
     (if length p \<noteq> n then Some (PermLength (length p) n) else check_perm (int n) 0 p (replicate n False))"

definition NewPermutation :: "(nat \<Rightarrow> nat option) \<Rightarrow> int \<Rightarrow> (mp_error, int list) res" where
  "NewPermutation rnd n =
     (if n < 0 then Inl (NegativeCount n)
      else case fisher_yates rnd (nat n - 1) (map int [0..<nat n]) of None \<Rightarrow> Inl RandomSource | Some p \<Rightarrow> Inr p)"

fun shuffle_loop :: "'p curve \<Rightarrow> scalar \<Rightarrow> 'p list \<Rightarrow> int list \<Rightarrow> 'p list \<Rightarrow> (mp_error, 'p list) res" where
  "shuffle_loop c g (p # ps) (v # vs) out =
     (case Mask c p g of Inl e \<Rightarrow> Inl e | Inr masked \<Rightarrow> shuffle_loop c g ps vs (out[nat v := masked]))"
| "shuffle_loop c g ps vs out = Inr out"

definition ShuffleStep :: "'p curve \<Rightarrow> 'p list \<Rightarrow> scalar \<Rightarrow> int list \<Rightarrow> (mp_error, 'p list) res" where
  "ShuffleStep c d global perm =
     (if \<not> Scalar_Valid c global then Inl ShuffleScalarInvalid
      else case ValidatePermutation perm (length d) of
             Some e \<Rightarrow> Inl e
           | None \<Rightarrow> shuffle_loop c global d perm (replicate (length d) (NilPoint c)))"

fun remask_loop :: "'p curve \<Rightarrow> scalar \<Rightarrow> nat \<Rightarrow> 'p list \<Rightarrow> scalar list \<Rightarrow> (mp_error, 'p list) res" where
  "remask_loop c si i (p # ps) (s # ss) =
     (if \<not> Scalar_Valid c s then Inl (PositionScalarInvalid i)
      else case Mask c p si of
             Inl e \<Rightarrow> Inl e
           | Inr stripped \<Rightarrow>
               (case Mask c stripped s of
                  Inl e \<Rightarrow> Inl e
                | Inr masked \<Rightarrow>
                    (case remask_loop c si (i + 1) ps ss of Inl e \<Rightarrow> Inl e | Inr out \<Rightarrow> Inr (masked # out))))"
| "remask_loop c si i ps ss = Inr []"

definition RemaskStep :: "'p curve \<Rightarrow> 'p list \<Rightarrow> scalar \<Rightarrow> scalar list \<Rightarrow> (mp_error, 'p list) res" where
  "RemaskStep c d global perPosition =
     (if \<not> Scalar_Valid c global then Inl GlobalInvalid
      else if length perPosition \<noteq> length d then Inl (ScalarsLength (length perPosition) (length d))
      else case Inverse c global of Inl e \<Rightarrow> Inl e | Inr si \<Rightarrow> remask_loop c si 0 d perPosition)"

fun unmask_loop :: "'p curve \<Rightarrow> nat \<Rightarrow> 'p \<Rightarrow> scalar list \<Rightarrow> (mp_error, 'p) res" where
  "unmask_loop c i p [] = Inr p"
| "unmask_loop c i p (s # ss) =
     (if \<not> Scalar_Valid c s then Inl (UnmaskScalarInvalid i)
      else case Point_Unmask c p s of Inl e \<Rightarrow> Inl e | Inr q \<Rightarrow> unmask_loop c (i + 1) q ss)"

definition Deck_Unmask :: "'p curve \<Rightarrow> 'p list \<Rightarrow> int \<Rightarrow> scalar list \<Rightarrow> (mp_error, 'p) res" where
  "Deck_Unmask c d position scalars =
     (case Deck_At d position of Inl e \<Rightarrow> Inl e | Inr p \<Rightarrow> unmask_loop c 0 p scalars)"

fun find_card :: "'p curve \<Rightarrow> bytes \<Rightarrow> nat \<Rightarrow> nat \<Rightarrow> (mp_error, nat) res" where
  "find_card c want i 0 = Inl NoCard"
| "find_card c want i (Suc n) =
     (case CardPoint c (int i) of
        Inl e \<Rightarrow> Inl e
      | Inr base \<Rightarrow> if Point_Bytes c base = want then Inr i else find_card c want (i + 1) n)"

definition CardIndexOf :: "'p curve \<Rightarrow> 'p \<Rightarrow> int \<Rightarrow> (mp_error, nat) res" where
  "CardIndexOf c p deckSize =
     (if \<not> Point_Valid c p then Inl IdentifyInvalid else find_card c (Point_Bytes c p) 0 (nat deckSize))"

section \<open>What the code relies on of the curve\<close>

definition curve_laws :: "'p curve \<Rightarrow> bool" where
  "curve_laws c \<longleftrightarrow>
     1 < CurveN c \<and> CurveN c \<le> 2 ^ 256 \<and> (\<forall>a. 0 < a \<and> a < CurveN c \<longrightarrow> coprime a (CurveN c))
   \<and> (\<forall>a. 0 < a \<and> a < CurveN c \<longrightarrow> OnCurve c (BaseMult c a))
   \<and> inj_on (BaseMult c) {1..<CurveN c}
   \<and> (\<forall>p a. OnCurve c p \<and> 0 < a \<and> a < CurveN c \<longrightarrow> OnCurve c (ScalarMult c p a))
   \<and> (\<forall>p. OnCurve c p \<longrightarrow> ScalarMult c p 1 = p)
   \<and> (\<forall>p a b. OnCurve c p \<and> 0 < a \<and> a < CurveN c \<and> 0 < b \<and> b < CurveN c \<longrightarrow>
        ScalarMult c (ScalarMult c p a) b = ScalarMult c p (a * b mod CurveN c))
   \<and> (\<forall>p a b. OnCurve c p \<and> 0 < a \<and> a < CurveN c \<and> 0 < b \<and> b < CurveN c \<and> ScalarMult c p a = ScalarMult c p b \<longrightarrow> a = b)
   \<and> (\<forall>p. OnCurve c p \<longrightarrow> ParsePubKey c (CompressPoint c p) = Some p \<and> length (CompressPoint c p) = PointSize)"

end
