(* ===== verification/Deal.thy ===== *)
theory Deal
  imports Mental_Poker
begin

text \<open>
  The deal works: what \<^verbatim>\<open>internal/game/mentalpoker\<close> computes when every seat follows the protocol. The points of a
  deck are written as multiples of card points, so that each step of the protocol is a multiplication of the
  multiplier; the deal theorem then says that the multipliers cancel exactly when every seat's secret for the
  position has been stripped, in whatever order.
\<close>

section \<open>Inverses\<close>

lemma egcd_bezout:
  "0 \<le> a \<Longrightarrow> 0 \<le> b \<Longrightarrow> egcd a b = (g, x, y) \<Longrightarrow> g = a * x + b * y \<and> g = gcd a b"
proof (induction a b arbitrary: g x y rule: egcd.induct)
  case (1 a b)
  show ?case
  proof (cases "b \<le> 0")
    case True
    then show ?thesis using 1(2-4) by (auto simp: egcd.simps)
  next
    case False
    obtain g' x' y' where e: "egcd b (a mod b) = (g', x', y')" by (cases "egcd b (a mod b)")
    then have IH: "g' = b * x' + a mod b * y'" "g' = gcd b (a mod b)" using 1(1) 1(2) False by auto
    have r: "g = g'" "x = y'" "y = x' - a div b * y'" using 1(4) False e by (auto simp: egcd.simps [of a b])
    have "a = b * (a div b) + a mod b" by simp
    then have "a * y' = b * (a div b) * y' + a mod b * y'" by (metis distrib_right)
    moreover have "b * y = b * x' - b * (a div b) * y'" by (simp add: r right_diff_distrib)
    ultimately have "g = a * x + b * y" using IH(1) r by simp
    moreover have "g = gcd a b" using IH(2) r False by (simp add: gcd_red_int [of a b])
    ultimately show ?thesis by simp
  qed
qed

lemma ModInverse_coprime:
  assumes "coprime a n" "1 < n"
  obtains i where "ModInverse a n = Some i" "0 < i" "i < n" "a * i mod n = 1"
proof -
  obtain g x y where e: "egcd (int a) (int n) = (g, x, y)" by (cases "egcd (int a) (int n)")
  with egcd_bezout [OF _ _ e] have g: "g = int a * x + int n * y" "g = 1" using assms(1) by (auto simp: coprime_iff_gcd_eq_1)
  let ?i = "nat (x mod int n)"
  have "int a * (x mod int n) mod int n = int a * x mod int n" by (simp add: mod_mult_right_eq)
  also have "\<dots> = (int a * x + int n * y) mod int n" by simp
  also have "\<dots> = 1" using g assms(2) by simp
  finally have m: "int (a * ?i mod n) = 1" using assms(2) by (simp add: zmod_int)
  have "?i < n" using assms(2) by (simp add: nat_less_iff)
  moreover have "a * ?i mod n = 1" using m by simp
  moreover have "0 < ?i" using calculation(2) by (cases ?i) auto
  moreover have "ModInverse a n = Some ?i" using e g by (simp add: ModInverse_def)
  ultimately show thesis using that by blast
qed

lemma ModInverse_None: "\<not> coprime a n \<Longrightarrow> ModInverse a n = None"
proof -
  assume c: "\<not> coprime a n"
  obtain g x y where e: "egcd (int a) (int n) = (g, x, y)" by (cases "egcd (int a) (int n)")
  with egcd_bezout [OF _ _ e] have "g = gcd (int a) (int n)" by simp
  then have "g \<noteq> 1" using c by (simp add: coprime_iff_gcd_eq_1)
  then show ?thesis using e by (simp add: ModInverse_def)
qed

section \<open>Multiples\<close>

text \<open>\<open>pw c p a\<close> is the multiple of a point by any number prime to the order.\<close>

definition pw :: "'p curve \<Rightarrow> 'p \<Rightarrow> nat \<Rightarrow> 'p" where
  "pw c p a = ScalarMult c p (a mod CurveN c)"

definition inv_of :: "'p curve \<Rightarrow> scalar \<Rightarrow> nat" where
  "inv_of c s = the (ModInverse (the s) (CurveN c))"

lemma lawsD:
  assumes "curve_laws c"
  shows "1 < CurveN c" "CurveN c \<le> 2 ^ 256" "\<And>a. 0 < a \<Longrightarrow> a < CurveN c \<Longrightarrow> coprime a (CurveN c)"
    "\<And>a. 0 < a \<Longrightarrow> a < CurveN c \<Longrightarrow> OnCurve c (BaseMult c a)" "inj_on (BaseMult c) {1..<CurveN c}"
    "\<And>p a. OnCurve c p \<Longrightarrow> 0 < a \<Longrightarrow> a < CurveN c \<Longrightarrow> OnCurve c (ScalarMult c p a)"
    "\<And>p. OnCurve c p \<Longrightarrow> ScalarMult c p 1 = p"
    "\<And>p a b. OnCurve c p \<Longrightarrow> 0 < a \<Longrightarrow> a < CurveN c \<Longrightarrow> 0 < b \<Longrightarrow> b < CurveN c \<Longrightarrow>
        ScalarMult c (ScalarMult c p a) b = ScalarMult c p (a * b mod CurveN c)"
    "\<And>p a b. OnCurve c p \<Longrightarrow> 0 < a \<Longrightarrow> a < CurveN c \<Longrightarrow> 0 < b \<Longrightarrow> b < CurveN c \<Longrightarrow>
        ScalarMult c p a = ScalarMult c p b \<Longrightarrow> a = b"
    "\<And>p. OnCurve c p \<Longrightarrow> ParsePubKey c (CompressPoint c p) = Some p \<and> length (CompressPoint c p) = PointSize"
  using assms unfolding curve_laws_def by (elim conjE; simp)+

lemma coprime_residue:
  fixes a n :: nat
  assumes "coprime a n" "1 < n"
  shows "0 < a mod n" "a mod n < n"
  using assms by (auto simp: mod_greater_zero_iff_not_dvd)

lemma pw_on: "curve_laws c \<Longrightarrow> OnCurve c p \<Longrightarrow> coprime a (CurveN c) \<Longrightarrow> OnCurve c (pw c p a)"
  unfolding pw_def by (rule lawsD(6)) (use coprime_residue [of a "CurveN c"] lawsD(1) [of c] in auto)

lemma pw_pw:
  assumes "curve_laws c" "OnCurve c p" "coprime a (CurveN c)" "coprime b (CurveN c)"
  shows "pw c (pw c p a) b = pw c p (a * b)"
  using lawsD(8) [OF assms(1,2) coprime_residue [OF assms(3)] coprime_residue [OF assms(4)]] lawsD(1) [OF assms(1)]
  by (simp add: pw_def mod_mult_eq)

lemma pw_cong: "a mod CurveN c = b mod CurveN c \<Longrightarrow> pw c p a = pw c p b"
  by (simp add: pw_def)

lemma pw_one: "curve_laws c \<Longrightarrow> OnCurve c p \<Longrightarrow> a mod CurveN c = 1 \<Longrightarrow> pw c p a = p"
  by (simp add: pw_def lawsD(7) [simplified])

lemma Scalar_Valid_iff: "Scalar_Valid c s \<longleftrightarrow> (\<exists>d. s = Some d \<and> 0 < d \<and> d < CurveN c)"
  by (auto simp: Scalar_Valid_def split: option.splits)

lemma valid_coprime: "curve_laws c \<Longrightarrow> Scalar_Valid c s \<Longrightarrow> coprime (the s) (CurveN c)"
  by (auto simp: Scalar_Valid_iff lawsD(3))

lemma inv_of:
  assumes "curve_laws c" "Scalar_Valid c s"
  shows "Inverse c s = Inr (Some (inv_of c s))" "Scalar_Valid c (Some (inv_of c s))" "the s * inv_of c s mod CurveN c = 1"
proof -
  obtain i where i: "ModInverse (the s) (CurveN c) = Some i" "0 < i" "i < CurveN c" "the s * i mod CurveN c = 1"
    using ModInverse_coprime [OF valid_coprime [OF assms] lawsD(1) [OF assms(1)]] by blast
  then show "Inverse c s = Inr (Some (inv_of c s))" "Scalar_Valid c (Some (inv_of c s))" "the s * inv_of c s mod CurveN c = 1"
    using assms(2) by (simp_all add: Inverse_def inv_of_def Scalar_Valid_iff)
qed

lemma inv_of_coprime: "curve_laws c \<Longrightarrow> Scalar_Valid c s \<Longrightarrow> coprime (inv_of c s) (CurveN c)"
  using inv_of(2) valid_coprime by fastforce

lemma Mask_pw:
  assumes "curve_laws c" "OnCurve c p" "Scalar_Valid c s"
  shows "Mask c p s = Inr (pw c p (the s))"
  using assms by (auto simp: Mask_def Point_Valid_def Scalar_Valid_iff pw_def lawsD)

lemma Point_Unmask_pw:
  assumes "curve_laws c" "OnCurve c p" "Scalar_Valid c s"
  shows "Point_Unmask c p s = Inr (pw c p (inv_of c s))"
  using Mask_pw [OF assms(1,2) inv_of(2) [OF assms(1,3)]] by (simp add: Point_Unmask_def inv_of(1) [OF assms(1,3)])

lemma unmask_loop_pw:
  assumes "curve_laws c" "OnCurve c p" "\<forall>s \<in> set ss. Scalar_Valid c s"
  shows "unmask_loop c i p ss = Inr (pw c p (prod_list (map (inv_of c) ss)))"
  using assms(2,3)
proof (induction ss arbitrary: i p)
  case Nil
  then show ?case using pw_one [OF assms(1)] lawsD(1) [OF assms(1)] by simp
next
  case (Cons s ss)
  have cop: "coprime (prod_list (map (inv_of c) ss)) (CurveN c)"
    using Cons.prems(2) inv_of_coprime [OF assms(1)] by (induction ss) (auto simp: coprime_mult_left_iff)
  show ?case
    using Cons Point_Unmask_pw [OF assms(1)] pw_on [OF assms(1)] inv_of_coprime [OF assms(1)] pw_pw [OF assms(1) _ _ cop]
    by simp
qed

lemma cancel_all:
  assumes "curve_laws c" "\<forall>s \<in> set ss. Scalar_Valid c s"
  shows "prod_list (map the ss) * prod_list (map (inv_of c) ss) mod CurveN c = 1"
  using assms(2)
proof (induction ss)
  case Nil
  then show ?case using lawsD(1) [OF assms(1)] by simp
next
  case (Cons s ss)
  let ?N = "CurveN c" and ?p = "prod_list (map the ss) * prod_list (map (inv_of c) ss)"
  have "the s * inv_of c s * ?p mod ?N = (the s * inv_of c s mod ?N) * (?p mod ?N) mod ?N" by (simp add: mod_mult_eq)
  also have "\<dots> = 1" using Cons inv_of(3) [OF assms(1)] lawsD(1) [OF assms(1)] by simp
  finally show ?case by (simp add: ac_simps)
qed

lemma prod_list_perm:
  fixes f :: "'a \<Rightarrow> nat"
  shows "mset xs = mset ys \<Longrightarrow> prod_list (map f xs) = prod_list (map f ys)"
  by (metis mset_map prod_mset_prod_list)

section \<open>Permutations\<close>

lemma check_perm_None_iff:
  assumes "length sv = nat n"
  shows "check_perm n i vs sv = None \<longleftrightarrow> distinct vs \<and> (\<forall>v \<in> set vs. 0 \<le> v \<and> v < n \<and> \<not> sv ! nat v)"
  using assms
proof (induction vs arbitrary: i sv)
  case (Cons v vs)
  show ?case
  proof (cases "0 \<le> v \<and> v < n \<and> \<not> sv ! nat v")
    case True
    have "(\<not> sv[nat v := True] ! nat w) \<longleftrightarrow> w \<noteq> v \<and> \<not> sv ! nat w" if "0 \<le> w" for w
      using that True Cons.prems by (cases "w = v") (auto simp: nth_list_update)
    then show ?thesis using True Cons.IH [of "sv[nat v := True]" "i + 1"] Cons.prems by auto
  next
    case False
    then show ?thesis by auto
  qed
qed simp

lemma ValidatePermutation_iff:
  "ValidatePermutation p n = None \<longleftrightarrow> length p = n \<and> distinct p \<and> (\<forall>v \<in> set p. 0 \<le> v \<and> v < int n)"
  using check_perm_None_iff [of "replicate n False" "int n" 0 p]
  by (auto simp: ValidatePermutation_def)

lemma ValidatePermutation_mset: "ValidatePermutation p n = None \<longleftrightarrow> mset (map nat p) = mset [0..<n] \<and> (\<forall>v \<in> set p. 0 \<le> v)"
proof
  assume "ValidatePermutation p n = None"
  then have p: "length p = n" "distinct p" "\<forall>v \<in> set p. 0 \<le> v \<and> v < int n" by (auto simp: ValidatePermutation_iff)
  have d: "distinct (map nat p)" using p by (auto simp: distinct_map inj_on_def eq_nat_nat_iff)
  have "set (map nat p) \<subseteq> set [0..<n]" using p(3) by auto
  moreover have "card (set (map nat p)) = card (set [0..<n])" using d p(1) distinct_card by fastforce
  ultimately have "set (map nat p) = set [0..<n]" by (intro card_subset_eq) auto
  then have "mset (map nat p) = mset [0..<n]" using d set_eq_iff_mset_eq_distinct [of "map nat p" "[0..<n]"] by simp
  then show "mset (map nat p) = mset [0..<n] \<and> (\<forall>v \<in> set p. 0 \<le> v)" using p(3) by simp
next
  assume a: "mset (map nat p) = mset [0..<n] \<and> (\<forall>v \<in> set p. 0 \<le> v)"
  then have "distinct (map nat p)" "set (map nat p) = {0..<n}" "length p = n"
    using mset_eq_imp_distinct_iff [of "map nat p" "[0..<n]"] mset_eq_setD [of "map nat p" "[0..<n]"]
      mset_eq_length [of "map nat p" "[0..<n]"] by auto
  moreover from this a have "\<forall>v \<in> set p. 0 \<le> v \<and> v < int n" by (auto simp: set_eq_iff) (metis atLeastLessThan_iff image_eqI nat_less_iff)
  ultimately show "ValidatePermutation p n = None" by (simp add: ValidatePermutation_iff distinct_map)
qed

text \<open>The writes \<open>out[perm[i]] = x\<close> of the shuffle.\<close>

fun scatter :: "'a list \<Rightarrow> int list \<Rightarrow> 'a list \<Rightarrow> 'a list" where
  "scatter (x # xs) (v # vs) out = scatter xs vs (out[nat v := x])"
| "scatter xs vs out = out"

lemma scatter_map: "scatter (map f xs) vs (map f out) = map f (scatter xs vs out)"
  by (induction xs vs out rule: scatter.induct) (auto simp: map_update [symmetric])

lemma length_scatter [simp]: "length (scatter xs vs out) = length out"
  by (induction xs vs out rule: scatter.induct) auto

lemma scatter_other: "nat w \<notin> nat ` set vs \<Longrightarrow> scatter xs vs out ! nat w = out ! nat w"
  by (induction xs vs out rule: scatter.induct) auto

lemma scatter_nth:
  "length xs = length vs \<Longrightarrow> distinct (map nat vs) \<Longrightarrow> \<forall>v \<in> set vs. nat v < length out \<Longrightarrow>
     map (\<lambda>v. scatter xs vs out ! nat v) vs = xs"
proof (induction xs vs out rule: scatter.induct)
  case (1 x xs v vs out)
  then have "scatter xs vs (out[nat v := x]) ! nat v = x" using scatter_other [of v vs xs "out[nat v := x]"] by auto
  then show ?case using 1 by simp
qed auto

lemma scatter_mset:
  assumes "mset (map nat vs) = mset [0..<n]" "length xs = n" "length out = n"
  shows "mset (scatter xs vs out) = mset xs"
proof -
  let ?r = "scatter xs vs out"
  have d: "distinct (map nat vs)" "length vs = n" "\<forall>v \<in> set vs. nat v < length out"
    using assms mset_eq_imp_distinct_iff [OF assms(1)] mset_eq_length [OF assms(1)] mset_eq_setD [OF assms(1)] by auto
  have "xs = map ((!) ?r) (map nat vs)" using scatter_nth [OF _ d(1,3), of xs] assms(2) d(2) by (simp add: comp_def)
  then have "mset xs = image_mset ((!) ?r) (mset (map nat vs))" by (metis mset_map)
  also have "\<dots> = mset (map ((!) ?r) [0..<n])" using assms(1) by simp
  also have "map ((!) ?r) [0..<n] = ?r" using map_nth [of ?r] assms(3) by simp
  finally show ?thesis by simp
qed

text \<open>A full permutation overwrites every position, so what was there before does not matter.\<close>

lemma scatter_full:
  assumes "mset (map nat vs) = mset [0..<n]" "length xs = n" "length out = n" "length out' = n"
  shows "scatter xs vs out = scatter xs vs out'"
proof (rule nth_equalityI)
  fix k assume "k < length (scatter xs vs out)"
  have d: "distinct (map nat vs)" "length vs = n" "\<forall>v \<in> set vs. nat v < n" "set (map nat vs) = {0..<n}"
    using mset_eq_imp_distinct_iff [OF assms(1)] mset_eq_length [OF assms(1)] mset_eq_setD [OF assms(1)] by auto
  have "k \<in> set (map nat vs)" unfolding d(4) using \<open>k < length (scatter xs vs out)\<close> assms(3) by simp
  then obtain v where v: "v \<in> set vs" "nat v = k" by auto
  have "map (\<lambda>v. scatter xs vs out ! nat v) vs = map (\<lambda>v. scatter xs vs out' ! nat v) vs"
    using scatter_nth [of xs vs out] scatter_nth [of xs vs out'] d assms by simp
  then show "scatter xs vs out ! k = scatter xs vs out' ! k" using v by auto
qed (simp add: assms)

lemma shuffle_loop_scatter:
  assumes L: "curve_laws c" and g: "Scalar_Valid c g" and "\<forall>p \<in> set ps. OnCurve c p" "length ps = length vs"
  shows "shuffle_loop c g ps vs out = Inr (scatter (map (\<lambda>p. pw c p (the g)) ps) vs out)"
  using assms(3,4)
proof (induction ps arbitrary: vs out)
  case (Cons p ps)
  then obtain v vs' where vs: "vs = v # vs'" by (cases vs) auto
  show ?case using Cons Mask_pw [OF L _ g, of p] by (simp add: vs)
qed simp

lemma ShuffleStep_scatter:
  assumes L: "curve_laws c" and g: "Scalar_Valid c g" and on: "\<forall>p \<in> set d. OnCurve c p"
    and perm: "ValidatePermutation perm (length d) = None"
  shows "ShuffleStep c d g perm = Inr (scatter (map (\<lambda>p. pw c p (the g)) d) perm (replicate (length d) (NilPoint c)))"
proof -
  have "length d = length perm" using perm by (simp add: ValidatePermutation_iff)
  then show ?thesis using shuffle_loop_scatter [OF L g on] perm g by (simp add: ShuffleStep_def)
qed

lemma remask_loop_pw:
  assumes L: "curve_laws c" and si: "Scalar_Valid c si"
    and "\<forall>p \<in> set ps. OnCurve c p" "\<forall>s \<in> set ss. Scalar_Valid c s" "length ps = length ss"
  shows "remask_loop c si i ps ss = Inr (map (\<lambda>(p, s). pw c p (the si * the s)) (zip ps ss))"
  using assms(3-5)
proof (induction ps arbitrary: ss i)
  case (Cons p ps)
  then obtain s ss' where ss: "ss = s # ss'" by (cases ss) auto
  have co: "coprime (the si) (CurveN c)" "coprime (the s) (CurveN c)"
    using valid_coprime [OF L] si Cons.prems by (auto simp: ss)
  have "Mask c p si = Inr (pw c p (the si))" "Mask c (pw c p (the si)) s = Inr (pw c p (the si * the s))"
    using Cons.prems Mask_pw [OF L _ si, of p] Mask_pw [OF L pw_on [OF L _ co(1)], of p s] pw_pw [OF L _ co, of p]
    by (auto simp: ss)
  then show ?case using Cons by (simp add: ss)
qed simp

lemma RemaskStep_pw:
  assumes L: "curve_laws c" and g: "Scalar_Valid c g"
    and "\<forall>p \<in> set d. OnCurve c p" "\<forall>s \<in> set ss. Scalar_Valid c s" "length ss = length d"
  shows "RemaskStep c d g ss = Inr (map (\<lambda>(p, s). pw c p (inv_of c g * the s)) (zip d ss))"
  using remask_loop_pw [OF L inv_of(2) [OF L g] assms(3,4)] assms(5) g inv_of(1) [OF L g]
  by (simp add: RemaskStep_def)

lemma card_points_eq:
  "i + n < CurveN c \<Longrightarrow> card_points c i n = Inr (map (\<lambda>k. BaseMult c (k + 1)) [i..<i + n])"
proof (induction n arbitrary: i)
  case (Suc n)
  have "[i..<i + Suc n] = i # [Suc i..<Suc i + n]" by (simp add: upt_rec)
  then show ?case using Suc by (simp add: CardPoint_def nat_add_distrib del: upt_Suc)
qed simp

lemma BaseDeck_eq:
  "0 < n \<Longrightarrow> n < CurveN c \<Longrightarrow> BaseDeck c (int n) = Inr (map (\<lambda>k. BaseMult c (k + 1)) [0..<n])"
  using card_points_eq [of 0 n c] by (simp add: BaseDeck_def)

section \<open>Identifying a card\<close>

lemma Compress_inj: "curve_laws c \<Longrightarrow> OnCurve c p \<Longrightarrow> OnCurve c q \<Longrightarrow> CompressPoint c p = CompressPoint c q \<longleftrightarrow> p = q"
  by (metis lawsD(10) option.inject)

lemma find_card_iff:
  assumes "curve_laws c" "OnCurve c p" "i + n < CurveN c"
  shows "find_card c (CompressPoint c p) i n = Inr k \<longleftrightarrow> i \<le> k \<and> k < i + n \<and> p = BaseMult c (k + 1)"
  using assms(3)
proof (induction n arbitrary: i)
  case (Suc n)
  have "i + 1 < CurveN c" using Suc.prems by simp
  then have on: "OnCurve c (BaseMult c (i + 1))" using lawsD(4) [OF assms(1)] by simp
  have cp: "CardPoint c (int i) = Inr (BaseMult c (i + 1))" using Suc.prems by (simp add: CardPoint_def nat_add_distrib)
  show ?case
  proof (cases "p = BaseMult c (i + 1)")
    case True
    have "k = i" if "i \<le> k" "k < i + Suc n" "p = BaseMult c (k + 1)"
      using that Suc.prems True inj_onD [OF lawsD(5) [OF assms(1)], of "i + 1" "k + 1"] by auto
    then show ?thesis using True on cp by (auto simp: Point_Bytes_def Point_Valid_def)
  next
    case False
    then have "Point_Bytes c (BaseMult c (i + 1)) \<noteq> CompressPoint c p"
      using on Compress_inj [OF assms(1) on assms(2)] by (auto simp: Point_Bytes_def Point_Valid_def)
    then show ?thesis using Suc False cp by (auto simp: le_Suc_eq Suc_le_eq nat_less_le)
  qed
qed simp

lemma CardIndexOf_iff:
  "curve_laws c \<Longrightarrow> OnCurve c p \<Longrightarrow> n < CurveN c \<Longrightarrow> CardIndexOf c p (int n) = Inr k \<longleftrightarrow> k < n \<and> p = BaseMult c (k + 1)"
  using find_card_iff [of c p 0 n k] by (simp add: CardIndexOf_def Point_Bytes_def Point_Valid_def)

section \<open>The protocol\<close>

text \<open>One seat's secrets, and the two passes in which every seat in turn contributes to the deck.\<close>

record mp_player =
  Global :: scalar
  Perm :: "int list"
  PerPosition :: "scalar list"

fun shuffle_all :: "'p curve \<Rightarrow> 'p list \<Rightarrow> mp_player list \<Rightarrow> (mp_error, 'p list) res" where
  "shuffle_all c d [] = Inr d"
| "shuffle_all c d (pl # pls) =
     (case ShuffleStep c d (Global pl) (Perm pl) of Inl e \<Rightarrow> Inl e | Inr d' \<Rightarrow> shuffle_all c d' pls)"

fun remask_all :: "'p curve \<Rightarrow> 'p list \<Rightarrow> mp_player list \<Rightarrow> (mp_error, 'p list) res" where
  "remask_all c d [] = Inr d"
| "remask_all c d (pl # pls) =
     (case RemaskStep c d (Global pl) (PerPosition pl) of Inl e \<Rightarrow> Inl e | Inr d' \<Rightarrow> remask_all c d' pls)"

definition player_ok :: "'p curve \<Rightarrow> nat \<Rightarrow> mp_player \<Rightarrow> bool" where
  "player_ok c n pl \<longleftrightarrow> Scalar_Valid c (Global pl) \<and> ValidatePermutation (Perm pl) n = None
     \<and> length (PerPosition pl) = n \<and> list_all (Scalar_Valid c) (PerPosition pl)"

definition masked_deck :: "'p curve \<Rightarrow> nat \<Rightarrow> nat list \<Rightarrow> 'p list" where
  "masked_deck c m order_of = map (\<lambda>k. pw c (BaseMult c (k + 1)) m) order_of"

lemma shuffle_all_masked:
  assumes L: "curve_laws c" and n: "n < CurveN c" and "list_all (player_ok c n) pls" "coprime m (CurveN c)" "mset ord = mset [0..<n]"
  shows "\<exists>ord'. shuffle_all c (masked_deck c m ord) pls = Inr (masked_deck c (m * prod_list (map (\<lambda>pl. the (Global pl)) pls)) ord')
           \<and> mset ord' = mset [0..<n]"
  using assms(3-5)
proof (induction pls arbitrary: m ord)
  case (Cons pl pls)
  let ?d = "masked_deck c m ord" and ?g = "Global pl"
  have len: "length ord = n" and elems: "k \<in> set ord \<Longrightarrow> k < n" for k
    using mset_eq_length [OF Cons.prems(3)] mset_eq_setD [OF Cons.prems(3)] by auto
  have ok: "Scalar_Valid c ?g" "ValidatePermutation (Perm pl) n = None" using Cons.prems(1) by (auto simp: player_ok_def)
  have base: "OnCurve c (BaseMult c (k + 1))" if "k \<in> set ord" for k using elems [OF that] n lawsD(4) [OF L] by simp
  have on: "\<forall>p \<in> set ?d. OnCurve c p" using base pw_on [OF L _ Cons.prems(2)] by (auto simp: masked_deck_def)
  let ?z = "replicate n 0"
  define ord1 where "ord1 = scatter ord (Perm pl) ?z"
  have co: "coprime (the ?g) (CurveN c)" using valid_coprime [OF L ok(1)] .
  have perm: "mset (map nat (Perm pl)) = mset [0..<n]" using ok(2) ValidatePermutation_mset by blast
  have ord1: "mset ord1 = mset [0..<n]" unfolding ord1_def using scatter_mset [OF perm len] Cons.prems(3) by simp
  have step: "ShuffleStep c ?d ?g (Perm pl) = Inr (masked_deck c (m * the ?g) ord1)"
  proof -
    let ?f = "\<lambda>k. pw c (BaseMult c (k + 1)) (m * the ?g)"
    have pws: "map (\<lambda>p. pw c p (the ?g)) ?d = map ?f ord"
      using base pw_pw [OF L _ Cons.prems(2) co] by (simp add: masked_deck_def)
    have "length ?d = n" by (simp add: masked_deck_def len)
    then have "ShuffleStep c ?d ?g (Perm pl) = Inr (scatter (map ?f ord) (Perm pl) (replicate n (NilPoint c)))"
      using ShuffleStep_scatter [OF L ok(1) on, of "Perm pl"] ok(2) unfolding pws by simp
    moreover have "scatter (map ?f ord) (Perm pl) (replicate n (NilPoint c)) = masked_deck c (m * the ?g) ord1"
      using scatter_full [OF perm, of "map ?f ord" "replicate n (NilPoint c)" "map ?f ?z"]
      by (simp add: len scatter_map ord1_def masked_deck_def del: map_replicate)
    ultimately show ?thesis by simp
  qed
  have "coprime (m * the ?g) (CurveN c)" using Cons.prems(2) co by simp
  from Cons.IH [OF _ this ord1] Cons.prems(1) step show ?case by (simp add: mult.assoc)
qed (auto simp: masked_deck_def)

text \<open>The remask pass multiplies the multiplier of each position by every seat's inverse global and its own scalar.\<close>

definition position_scalars :: "mp_player list \<Rightarrow> nat \<Rightarrow> scalar list" where
  "position_scalars pls pos = map (\<lambda>pl. PerPosition pl ! pos) pls"

lemma remask_all_pw:
  assumes L: "curve_laws c"
    and "list_all (player_ok c n) pls" "length d = n"
    and "\<forall>j < n. OnCurve c (P j) \<and> coprime (m j) (CurveN c) \<and> d ! j = pw c (P j) (m j)"
  shows "\<exists>e. remask_all c d pls = Inr e \<and> length e = n
     \<and> (\<forall>j < n. e ! j = pw c (P j) (m j * (prod_list (map (\<lambda>pl. inv_of c (Global pl)) pls) * prod_list (map the (position_scalars pls j)))))"
  using assms(2-4)
proof (induction pls arbitrary: d m)
  case Nil
  then show ?case by (simp add: position_scalars_def)
next
  case (Cons pl pls)
  let ?ss = "PerPosition pl" and ?ig = "inv_of c (Global pl)"
  have ok: "Scalar_Valid c (Global pl)" "\<forall>s \<in> set ?ss. Scalar_Valid c s" "length ?ss = n"
    using Cons.prems(1) by (auto simp: player_ok_def list_all_iff)
  have on: "\<forall>p \<in> set d. OnCurve c p" using Cons.prems pw_on [OF L] by (auto simp: in_set_conv_nth)
  let ?d = "map (\<lambda>(p, s). pw c p (?ig * the s)) (zip d ?ss)" and ?m = "\<lambda>j. m j * (?ig * the (?ss ! j))"
  have step: "RemaskStep c d (Global pl) ?ss = Inr ?d" using RemaskStep_pw [OF L ok(1) on ok(2)] Cons.prems(2) ok(3) by simp
  have co: "coprime (?ig * the (?ss ! j)) (CurveN c)" if "j < n" for j
    using inv_of_coprime [OF L ok(1)] valid_coprime [OF L] ok(2,3) that by simp
  have "\<forall>j < n. OnCurve c (P j) \<and> coprime (?m j) (CurveN c) \<and> ?d ! j = pw c (P j) (?m j)"
    using Cons.prems co pw_pw [OF L] ok(3) by simp
  from Cons.IH [OF _ _ this] Cons.prems(1,2) ok(3) obtain e where "remask_all c ?d pls = Inr e" "length e = n"
    "\<forall>j < n. e ! j = pw c (P j) (?m j * (prod_list (map (\<lambda>pl. inv_of c (Global pl)) pls) * prod_list (map the (position_scalars pls j))))"
    by auto
  then show ?case using step by (auto simp: position_scalars_def ac_simps)
qed

text \<open>The dealt deck: position \<open>pos\<close> holds the point of one card, multiplied by exactly the seats' scalars for it.\<close>

lemma dealt_deck:
  assumes L: "curve_laws c" and n: "0 < n" "n < CurveN c" and ok: "list_all (player_ok c n) pls"
  obtains base d e ord where "BaseDeck c (int n) = Inr base" "shuffle_all c base pls = Inr d" "remask_all c d pls = Inr e"
    "length e = n" "mset ord = mset [0..<n]"
    "\<And>pos. pos < n \<Longrightarrow> e ! pos = pw c (BaseMult c (ord ! pos + 1)) (prod_list (map the (position_scalars pls pos)))"
proof -
  let ?base = "map (\<lambda>k. BaseMult c (k + 1)) [0..<n]" and ?G = "prod_list (map (\<lambda>pl. the (Global pl)) pls)"
  have on: "OnCurve c (BaseMult c (k + 1))" if "k < n" for k using that n lawsD(4) [OF L] by simp
  have "?base = masked_deck c 1 [0..<n]"
    using on pw_one [OF L] lawsD(1) [OF L] by (simp add: masked_deck_def)
  with shuffle_all_masked [OF L n(2) ok, of 1 "[0..<n]"] obtain ord where
    S: "shuffle_all c ?base pls = Inr (masked_deck c ?G ord)" and ord: "mset ord = mset [0..<n]" by auto
  have len: "length ord = n" and elems: "j < n \<Longrightarrow> ord ! j < n" for j
    using mset_eq_length [OF ord] mset_eq_setD [OF ord] by auto
  have gs: "\<forall>s \<in> set (map Global pls). Scalar_Valid c s" using ok by (auto simp: list_all_iff player_ok_def)
  have G: "coprime ?G (CurveN c)" using gs valid_coprime [OF L] by (induction pls) auto
  let ?I = "prod_list (map (\<lambda>pl. inv_of c (Global pl)) pls)"
  from remask_all_pw [OF L ok, of "masked_deck c ?G ord" "\<lambda>j. BaseMult c (ord ! j + 1)" "\<lambda>j. ?G"] obtain e where
    R: "remask_all c (masked_deck c ?G ord) pls = Inr e" "length e = n"
    "\<forall>j < n. e ! j = pw c (BaseMult c (ord ! j + 1)) (?G * (?I * prod_list (map the (position_scalars pls j))))"
    using len elems on G by (auto simp: masked_deck_def)
  have GI: "?G * ?I mod CurveN c = 1" using cancel_all [OF L gs] by (simp add: comp_def)
  have drop: "?G * (?I * x) mod CurveN c = x mod CurveN c" for x
  proof -
    have "?G * (?I * x) mod CurveN c = (?G * ?I mod CurveN c) * x mod CurveN c" by (simp add: mod_mult_left_eq mult.assoc)
    then show ?thesis using GI by simp
  qed
  have "e ! pos = pw c (BaseMult c (ord ! pos + 1)) (prod_list (map the (position_scalars pls pos)))" if "pos < n" for pos
    using R(3) that pw_cong [OF drop] by simp
  with BaseDeck_eq [OF n] S R(1,2) ord that show thesis by blast
qed

lemma position_scalars_ok:
  "list_all (player_ok c n) pls \<Longrightarrow> pos < n \<Longrightarrow> \<forall>s \<in> set (position_scalars pls pos). Scalar_Valid c s"
  by (fastforce simp: position_scalars_def list_all_iff player_ok_def)

lemma dealt_reads:
  assumes "curve_laws c" "0 < n" "n < CurveN c" "list_all (player_ok c n) pls"
  shows "\<exists>base d e ord. BaseDeck c (int n) = Inr base \<and> shuffle_all c base pls = Inr d \<and> remask_all c d pls = Inr e
     \<and> length e = n \<and> mset ord = mset [0..<n]
     \<and> (\<forall>pos < n. \<forall>ss. mset ss = mset (position_scalars pls pos) \<longrightarrow>
          (\<exists>pt. Deck_Unmask c e (int pos) ss = Inr pt \<and> CardIndexOf c pt (int n) = Inr (ord ! pos)))"
proof -
  obtain base d e ord where D: "BaseDeck c (int n) = Inr base" "shuffle_all c base pls = Inr d" "remask_all c d pls = Inr e"
    "length e = n" "mset ord = mset [0..<n]"
    and E: "\<And>pos. pos < n \<Longrightarrow> e ! pos = pw c (BaseMult c (ord ! pos + 1)) (prod_list (map the (position_scalars pls pos)))"
    using dealt_deck [OF assms] by blast
  note L = assms(1)
  have "\<exists>pt. Deck_Unmask c e (int pos) ss = Inr pt \<and> CardIndexOf c pt (int n) = Inr (ord ! pos)"
    if pos: "pos < n" and ss: "mset ss = mset (position_scalars pls pos)" for pos ss
  proof -
    have k: "ord ! pos < n" using mset_eq_setD [OF D(5)] mset_eq_length [OF D(5)] pos by auto
    let ?B = "BaseMult c (ord ! pos + 1)"
    have on: "OnCurve c ?B" using lawsD(4) [OF L] k assms(3) by simp
    have v: "\<forall>s \<in> set ss. Scalar_Valid c s" using position_scalars_ok [OF assms(4) pos] mset_eq_setD [OF ss] by simp
    have P: "prod_list (map the (position_scalars pls pos)) = prod_list (map the ss)" using prod_list_perm [OF ss] by metis
    have co: "coprime (prod_list (map the ss)) (CurveN c)" "coprime (prod_list (map (inv_of c) ss)) (CurveN c)"
      using v valid_coprime [OF L] inv_of_coprime [OF L] by (induction ss) auto
    have "Deck_Unmask c e (int pos) ss = Inr (pw c ?B (prod_list (map the ss) * prod_list (map (inv_of c) ss)))"
      using unmask_loop_pw [OF L pw_on [OF L on co(1)] v] pw_pw [OF L on co] E [OF pos] pos D(4)
      by (simp add: Deck_Unmask_def Deck_At_def P)
    moreover have "pw c ?B (prod_list (map the ss) * prod_list (map (inv_of c) ss)) = ?B"
      using cancel_all [OF L v] by (intro pw_one [OF L on])
    ultimately show ?thesis using CardIndexOf_iff [OF L on assms(3)] k by simp
  qed
  with D show ?thesis by blast
qed

text \<open>
  C10: the deal deals. Let every seat of a table shuffle the public deck and then remask it with valid
  secrets. Then the passes succeed; the resulting positions carry each card of the deck exactly once; and
  whoever strips all the seats' scalars for a position, in any order, reads the card that lies there.
\<close>

theorem deal_recovers_cards:
  assumes "curve_laws c" "0 < n" "n < CurveN c" "list_all (player_ok c n) pls"
  shows "\<exists>base d e ord. BaseDeck c (int n) = Inr base \<and> shuffle_all c base pls = Inr d \<and> remask_all c d pls = Inr e
     \<and> length e = n \<and> mset ord = mset [0..<n]
     \<and> (\<forall>pos < n. \<forall>ss. mset ss = mset (position_scalars pls pos) \<longrightarrow>
          (\<exists>pt. Deck_Unmask c e (int pos) ss = Inr pt \<and> CardIndexOf c pt (int n) = Inr (ord ! pos)))"
  using assms by (rule dealt_reads)

text \<open>A group to run the deal on: multiplication modulo 11.\<close>

definition small_curve :: "nat curve" where
  "small_curve = \<lparr>CurveN = 11, BaseMult = (\<lambda>a. a mod 11), ScalarMult = (\<lambda>p a. p * a mod 11), OnCurve = (\<lambda>p. 0 < p \<and> p < 11),
     CompressPoint = (\<lambda>p. replicate 32 0 @ [of_nat p]), ParsePubKey = (\<lambda>b. Some (unat (last b))), NilPoint = 0\<rparr>"

lemma small_tables:
  "list_all (\<lambda>a. coprime a (11::nat)) [1..<11]"
  "list_all (\<lambda>p. list_all (\<lambda>a. 0 < p * a mod (11::nat)) [1..<11]) [1..<11]"
  "list_all (\<lambda>p. list_all (\<lambda>a. list_all (\<lambda>b. p * a mod (11::nat) = p * b mod 11 \<longrightarrow> a = b) [1..<11]) [1..<11]) [1..<11]"
  by code_simp+

lemma small_laws: "curve_laws small_curve"
proof -
  have T: "coprime a (11::nat)" "0 < p * a mod (11::nat)" "p * a mod (11::nat) = p * b mod 11 \<Longrightarrow> a = b"
    if "0 < p" "p < 11" "0 < a" "a < 11" "0 < b" "b < 11" for p a b
    using small_tables [unfolded list_all_iff, rule_format] that by (metis set_upt atLeastLessThan_iff Suc_leI One_nat_def)+
  have c: "coprime a (11::nat)" if "0 < a" "a < 11" for a using T(1) [of 1 a 1] that by simp
  have u: "unat (of_nat p :: 8 word) = p" if "p < 11" for p using that by (simp add: unat_of_nat)
  have m: "p * a mod 11 * b mod 11 = p * (a * b mod 11) mod (11::nat)" for p a b
    by (metis mod_mult_left_eq mod_mult_right_eq mult.assoc)
  show ?thesis unfolding curve_laws_def
  proof (intro conjI)
    show "inj_on (BaseMult small_curve) {1..<CurveN small_curve}" by (auto simp: inj_on_def small_curve_def)
    show "\<forall>p a b. OnCurve small_curve p \<and> 0 < a \<and> a < CurveN small_curve \<and> 0 < b \<and> b < CurveN small_curve \<and>
      ScalarMult small_curve p a = ScalarMult small_curve p b \<longrightarrow> a = b"
      using T(3) by (simp add: small_curve_def) blast
  qed (use T(2) c u m in \<open>auto simp: small_curve_def PointSize_def\<close>)
qed

definition players_ex :: "mp_player list" where
  "players_ex = [\<lparr>Global = Some 3, Perm = [1, 2, 0], PerPosition = [Some 2, Some 5, Some 7]\<rparr>,
                 \<lparr>Global = Some 8, Perm = [0, 2, 1], PerPosition = [Some 4, Some 9, Some 6]\<rparr>]"

theorem deal_recovers_cards_witness:
  "\<exists>base d e ord. BaseDeck small_curve 3 = Inr base \<and> shuffle_all small_curve base players_ex = Inr d
     \<and> remask_all small_curve d players_ex = Inr e \<and> mset ord = mset [0..<3]
     \<and> (\<exists>pt. Deck_Unmask small_curve e 1 [Some 9, Some 5] = Inr pt \<and> CardIndexOf small_curve pt 3 = Inr (ord ! 1))"
proof -
  have ok: "list_all (player_ok small_curve 3) players_ex" by code_simp
  have n: "0 < (3::nat)" "3 < CurveN small_curve" by (simp_all add: small_curve_def)
  have s: "mset [Some 9, Some 5] = mset (position_scalars players_ex 1)" by (simp add: position_scalars_def players_ex_def)
  obtain base d e ord where B: "BaseDeck small_curve 3 = Inr base" "shuffle_all small_curve base players_ex = Inr d"
    "remask_all small_curve d players_ex = Inr e" "mset ord = mset [0..<3]"
    and U: "\<forall>pos < 3. \<forall>ss. mset ss = mset (position_scalars players_ex pos) \<longrightarrow>
          (\<exists>pt. Deck_Unmask small_curve e (int pos) ss = Inr pt \<and> CardIndexOf small_curve pt 3 = Inr (ord ! pos))"
    using deal_recovers_cards [OF small_laws n ok] by auto
  have "\<exists>pt. Deck_Unmask small_curve e (int 1) [Some 9, Some 5] = Inr pt \<and> CardIndexOf small_curve pt 3 = Inr (ord ! 1)"
    using U [rule_format, of 1, OF _ s] by simp
  with B show ?thesis by auto
qed

text \<open>
  one withheld scalar hides the card. In a completed deal, stripping a position of all but one of the seats'
  scalars never reads the card that the full set reads, unless the missing scalar is 1.
\<close>

theorem missing_scalar_hides:
  assumes "curve_laws c" "0 < n" "n < CurveN c" "list_all (player_ok c n) pls"
    and "BaseDeck c (int n) = Inr base" "shuffle_all c base pls = Inr d" "remask_all c d pls = Inr e"
    and pos: "pos < n" and part: "mset ss + {#s#} = mset (position_scalars pls pos)" "s \<noteq> Some 1"
  shows "\<exists>k pt full. Deck_Unmask c e (int pos) (s # ss) = Inr full \<and> CardIndexOf c full (int n) = Inr k
     \<and> Deck_Unmask c e (int pos) ss = Inr pt \<and> CardIndexOf c pt (int n) \<noteq> Inr k"
proof -
  note L = assms(1)
  obtain ord where D: "length e = n" "mset ord = mset [0..<n]"
    and E: "e ! pos = pw c (BaseMult c (ord ! pos + 1)) (prod_list (map the (position_scalars pls pos)))"
    using dealt_deck [OF assms(1-4)] assms(5-7) pos by (metis Inr_inject)
  have k: "ord ! pos < n" using mset_eq_setD [OF D(2)] mset_eq_length [OF D(2)] pos by auto
  let ?B = "BaseMult c (ord ! pos + 1)" and ?p = "prod_list (map the ss)" and ?i = "prod_list (map (inv_of c) ss)"
  have on: "OnCurve c ?B" using lawsD(4) [OF L] k assms(3) by simp
  have m: "mset (position_scalars pls pos) = mset (s # ss)" using part(1) by simp
  have v: "Scalar_Valid c s" "\<forall>s \<in> set ss. Scalar_Valid c s"
    using position_scalars_ok [OF assms(4) pos] mset_eq_setD [OF m] by auto
  have P: "prod_list (map the (position_scalars pls pos)) = the s * ?p" using prod_list_perm [OF m, of the] by simp
  have cs: "coprime (the s) (CurveN c)" using valid_coprime [OF L v(1)] .
  have co: "coprime ?p (CurveN c)" "coprime ?i (CurveN c)"
    using v(2) valid_coprime [OF L] inv_of_coprime [OF L] by (induction ss) auto
  have pt: "Deck_Unmask c e (int pos) ss = Inr (pw c ?B (the s))"
  proof -
    have "the s * ?p * ?i mod CurveN c = the s * (?p * ?i mod CurveN c) mod CurveN c" by (simp add: mod_mult_right_eq mult.assoc)
    then have "pw c ?B (the s * ?p * ?i) = pw c ?B (the s)" using cancel_all [OF L v(2)] by (simp add: pw_def)
    then show ?thesis
      using unmask_loop_pw [OF L pw_on [OF L on] v(2)] pw_pw [OF L on _ co(2)] cs co E pos D(1)
      by (simp add: Deck_Unmask_def Deck_At_def P)
  qed
  have full: "Deck_Unmask c e (int pos) (s # ss) = Inr ?B"
  proof -
    have u: "unmask_loop c 0 (pw c ?B (the s * ?p)) (s # ss) = Inr (pw c (pw c ?B (the s * ?p)) (prod_list (map (inv_of c) (s # ss))))"
      using cs co v by (intro unmask_loop_pw [OF L pw_on [OF L on]]) auto
    have "pw c (pw c ?B (the s * ?p)) (prod_list (map (inv_of c) (s # ss))) = ?B"
      using pw_pw [OF L on, of "the s * ?p" "prod_list (map (inv_of c) (s # ss))"] cs co inv_of_coprime [OF L v(1)]
        cancel_all [OF L, of "s # ss"] v pw_one [OF L on] by (simp add: mult.assoc)
    with u show ?thesis using E pos D(1) by (simp add: Deck_Unmask_def Deck_At_def P del: unmask_loop.simps)
  qed
  have "pw c ?B (the s) \<noteq> ?B"
  proof
    assume "pw c ?B (the s) = ?B"
    then have "ScalarMult c ?B (the s) = ScalarMult c ?B 1" using v(1) lawsD(7) [OF L on] by (auto simp: pw_def Scalar_Valid_iff)
    then have "the s = 1" using lawsD(9) [OF L on, of "the s" 1] v(1) lawsD(1) [OF L] by (auto simp: Scalar_Valid_iff)
    then show False using part(2) v(1) by (auto simp: Scalar_Valid_iff)
  qed
  then have "CardIndexOf c (pw c ?B (the s)) (int n) \<noteq> Inr (ord ! pos)"
    using CardIndexOf_iff [OF L pw_on [OF L on cs] assms(3)] by simp
  with pt full CardIndexOf_iff [OF L on assms(3)] k show ?thesis by blast
qed

theorem missing_scalar_hides_witness:
  "\<exists>base d e k pt full. BaseDeck small_curve 3 = Inr base \<and> shuffle_all small_curve base players_ex = Inr d
     \<and> remask_all small_curve d players_ex = Inr e
     \<and> Deck_Unmask small_curve e 1 [Some 5, Some 9] = Inr full \<and> CardIndexOf small_curve full 3 = Inr k
     \<and> Deck_Unmask small_curve e 1 [Some 9] = Inr pt \<and> CardIndexOf small_curve pt 3 \<noteq> Inr k"
proof -
  have ok: "list_all (player_ok small_curve 3) players_ex" by code_simp
  have n: "0 < (3::nat)" "3 < CurveN small_curve" by (simp_all add: small_curve_def)
  have B: "BaseDeck small_curve (int 3) = Inr [1, 2, 3]" "shuffle_all small_curve [1, 2, 3] players_ex = Inr [6, 4, 2]"
    "remask_all small_curve [6, 4, 2] players_ex = Inr [2, 2, 9]"
    by code_simp+
  have s: "mset [Some 9] + {#Some 5#} = mset (position_scalars players_ex 1)" by (simp add: position_scalars_def players_ex_def)
  have "(1::nat) < 3" "Some 5 \<noteq> Some (1::nat)" by simp_all
  from missing_scalar_hides [OF small_laws n ok B this(1) s this(2)] B show ?thesis by auto
qed

end
