(* ===== verification/Deal_Proof.thy ===== *)
theory Deal_Proof
  imports Deal "HOL-Library.Char_ord" "HOL-Library.List_Lexorder" "HOL-Library.Product_Lexorder"
begin

text \<open>
  Commit before, reveal after: \<^verbatim>\<open>internal/game/proof\<close>. Commitments hash length-prefixed fields; the hash
  \<open>H\<close> (SHA-256 in the code) is a parameter of which nothing is assumed but, where it matters, the length of its digests.
  What the code does bind is stated over the hashed bytes: two different openings of one commitment are
  two different byte strings with the same digest.
\<close>

section \<open>Framing\<close>

definition frame :: "bytes \<Rightarrow> bytes" where
  "frame b = be_bytes 8 (length b) @ b"

definition hash_fields :: "(bytes \<Rightarrow> bytes) \<Rightarrow> bytes list \<Rightarrow> bytes" where
  "hash_fields H flds = H (concat (map frame flds))"

definition bytes_of :: "string \<Rightarrow> bytes" where
  "bytes_of s = map of_char s"

definition domainShuffle :: bytes where "domainShuffle = bytes_of ''brc100-poker/proof/shuffle/v1''"
definition domainRemask :: bytes where "domainRemask = bytes_of ''brc100-poker/proof/remask/v1''"
definition domainSeatNonce :: bytes where "domainSeatNonce = bytes_of ''brc100-poker/proof/seat-nonce/v1''"
definition domainSeatSeed :: bytes where "domainSeatSeed = bytes_of ''brc100-poker/proof/seat-seed/v1''"
definition domainSeatOrder :: bytes where "domainSeatOrder = bytes_of ''brc100-poker/proof/seat-order/v1''"

definition CommitmentSize :: nat where "CommitmentSize = 32"
definition NonceSize :: nat where "NonceSize = 32"

datatype proof_error = CommitScalarInvalid | CommitEmptyPermutation | CommitEmptyScalars | CommitPositionInvalid nat
  | OpeningMalformed proof_error | OpeningMismatch | PermutationInvalid mp_error | RecomputeFailed mp_error | OutputMismatch
  | RemaskLength nat nat | NonceLength nat | NonceMismatch
  | NoReveals | RevealNoIdentity | RevealNonceLength string nat | RevealTwice string
  | NoPlayers | SeedLength nat | PlayerNoIdentity | PlayerTwice string

section \<open>Shuffle and remask commitments\<close>

definition encodePerm :: "int list \<Rightarrow> bytes" where
  "encodePerm p = concat (map (\<lambda>v. be_bytes 4 (unat (word_of_int v :: u32))) p)"

definition shuffle_fields :: "scalar \<Rightarrow> int list \<Rightarrow> bytes list" where
  "shuffle_fields global perm = [domainShuffle, Scalar_Bytes global, encodePerm perm]"

definition CommitShuffle ::
  "'p curve \<Rightarrow> (bytes \<Rightarrow> bytes) \<Rightarrow> scalar \<Rightarrow> int list \<Rightarrow> (proof_error, bytes) res" where
  "CommitShuffle c H global perm =
     (if \<not> Scalar_Valid c global then Inl CommitScalarInvalid
      else if perm = [] then Inl CommitEmptyPermutation
      else Inr (hash_fields H (shuffle_fields global perm)))"

definition remask_fields :: "scalar \<Rightarrow> scalar list \<Rightarrow> bytes list" where
  "remask_fields global perPosition = domainRemask # Scalar_Bytes global # map Scalar_Bytes perPosition"

definition CommitRemask ::
  "'p curve \<Rightarrow> (bytes \<Rightarrow> bytes) \<Rightarrow> scalar \<Rightarrow> scalar list \<Rightarrow> (proof_error, bytes) res" where
  "CommitRemask c H global perPosition =
     (if \<not> Scalar_Valid c global then Inl CommitScalarInvalid
      else if perPosition = [] then Inl CommitEmptyScalars
      else case find (\<lambda>i. \<not> Scalar_Valid c (perPosition ! i)) [0..<length perPosition] of
             Some i \<Rightarrow> Inl (CommitPositionInvalid i)
           | None \<Rightarrow> Inr (hash_fields H (remask_fields global perPosition)))"

definition VerifyShuffle ::
  "'p curve \<Rightarrow> (bytes \<Rightarrow> bytes) \<Rightarrow> 'p list \<Rightarrow> 'p list \<Rightarrow> scalar \<Rightarrow> int list \<Rightarrow> bytes \<Rightarrow> proof_error option" where
  "VerifyShuffle c H input claimed global perm commitment =
     (case CommitShuffle c H global perm of
        Inl e \<Rightarrow> Some (OpeningMalformed e)
      | Inr want \<Rightarrow>
          if want \<noteq> commitment then Some OpeningMismatch
          else case ValidatePermutation perm (length input) of
                 Some e \<Rightarrow> Some (PermutationInvalid e)
               | None \<Rightarrow>
                   (case ShuffleStep c input global perm of
                      Inl e \<Rightarrow> Some (RecomputeFailed e)
                    | Inr recomputed \<Rightarrow> if \<not> Deck_Equal recomputed claimed then Some OutputMismatch else None))"

definition VerifyRemask ::
  "'p curve \<Rightarrow> (bytes \<Rightarrow> bytes) \<Rightarrow> 'p list \<Rightarrow> 'p list \<Rightarrow> scalar \<Rightarrow> scalar list \<Rightarrow> bytes \<Rightarrow> proof_error option" where
  "VerifyRemask c H input claimed global perPosition commitment =
     (case CommitRemask c H global perPosition of
        Inl e \<Rightarrow> Some (OpeningMalformed e)
      | Inr want \<Rightarrow>
          if want \<noteq> commitment then Some OpeningMismatch
          else if length perPosition \<noteq> length input then Some (RemaskLength (length perPosition) (length input))
          else case RemaskStep c input global perPosition of
                 Inl e \<Rightarrow> Some (RecomputeFailed e)
               | Inr recomputed \<Rightarrow> if \<not> Deck_Equal recomputed claimed then Some OutputMismatch else None)"

section \<open>Seat order\<close>

definition CommitSeatNonce :: "(bytes \<Rightarrow> bytes) \<Rightarrow> bytes \<Rightarrow> (proof_error, bytes) res" where
  "CommitSeatNonce H nonce =
     (if length nonce \<noteq> NonceSize then Inl (NonceLength (length nonce))
      else Inr (hash_fields H [domainSeatNonce, nonce]))"

definition VerifySeatNonce :: "(bytes \<Rightarrow> bytes) \<Rightarrow> bytes \<Rightarrow> bytes \<Rightarrow> proof_error option" where
  "VerifySeatNonce H commitment nonce =
     (case CommitSeatNonce H nonce of
        Inl e \<Rightarrow> Some e
      | Inr want \<Rightarrow> if want \<noteq> commitment then Some NonceMismatch else None)"

record seat_reveal =
  RevIdentity :: string
  RevNonce :: bytes

definition proof_short :: "string \<Rightarrow> string" where
  "proof_short key = (if length key \<le> 12 then key else take 12 key)"

fun reveal_fields :: "string list \<Rightarrow> seat_reveal list \<Rightarrow> bytes list \<Rightarrow> (proof_error, bytes list) res" where
  "reveal_fields seen_ids [] flds = Inr flds"
| "reveal_fields seen_ids (r # rs) flds =
     (if RevIdentity r = [] then Inl RevealNoIdentity
      else if length (RevNonce r) \<noteq> NonceSize then Inl (RevealNonceLength (proof_short (RevIdentity r)) (length (RevNonce r)))
      else if List.member seen_ids (RevIdentity r) then Inl (RevealTwice (proof_short (RevIdentity r)))
      else reveal_fields (RevIdentity r # seen_ids) rs (flds @ [bytes_of (RevIdentity r), RevNonce r]))"

definition JointSeed :: "(bytes \<Rightarrow> bytes) \<Rightarrow> seat_reveal list \<Rightarrow> (proof_error, bytes) res" where
  "JointSeed H reveals =
     (if reveals = [] then Inl NoReveals
      else case reveal_fields [] (sort_key RevIdentity reveals) [domainSeatSeed] of
             Inl e \<Rightarrow> Inl e
           | Inr flds \<Rightarrow> Inr (hash_fields H flds))"

definition seat_digest :: "(bytes \<Rightarrow> bytes) \<Rightarrow> bytes \<Rightarrow> string \<Rightarrow> bytes" where
  "seat_digest H jointSeed k = hash_fields H [domainSeatOrder, jointSeed, bytes_of k]"

fun score_keys :: "(bytes \<Rightarrow> bytes) \<Rightarrow> bytes \<Rightarrow> string list \<Rightarrow> string list \<Rightarrow> (proof_error, (bytes \<times> string) list) res" where
  "score_keys H seed seen_ids [] = Inr []"
| "score_keys H seed seen_ids (k # ks) =
     (if k = [] then Inl PlayerNoIdentity
      else if List.member seen_ids k then Inl (PlayerTwice (proof_short k))
      else case score_keys H seed (k # seen_ids) ks of
             Inl e \<Rightarrow> Inl e
           | Inr out \<Rightarrow> Inr ((seat_digest H seed k, k) # out))"

definition AssignSeats :: "(bytes \<Rightarrow> bytes) \<Rightarrow> string list \<Rightarrow> bytes \<Rightarrow> (proof_error, string list) res" where
  "AssignSeats H identityKeys jointSeed =
     (if identityKeys = [] then Inl NoPlayers
      else if length jointSeed \<noteq> CommitmentSize then Inl (SeedLength (length jointSeed))
      else case score_keys H jointSeed [] identityKeys of
             Inl e \<Rightarrow> Inl e
           | Inr out \<Rightarrow> Inr (map snd (sort out)))"

section \<open>Framing is injective\<close>

lemma length_be_bytes [simp]: "length (be_bytes n d) = n"
  by (induction n arbitrary: d) auto

lemma be_nat_bytes: "d < 256 ^ n \<Longrightarrow> be_nat (be_bytes n d) = d"
proof (induction n arbitrary: d)
  case (Suc n)
  have "d div 256 ^ n < 256" using Suc.prems by (simp add: less_mult_imp_div_less mult.commute)
  then have u: "unat (of_nat (d div 256 ^ n) :: byte) = d div 256 ^ n" by (simp add: unat_of_nat)
  have "be_nat (be_bytes n (d mod 256 ^ n)) = d mod 256 ^ n" by (rule Suc.IH) simp
  then show ?case using div_mult_mod_eq [of d "256 ^ n"] by (simp add: u)
qed simp

lemma be_bytes_inj: "be_bytes n d = be_bytes n e \<Longrightarrow> d < 256 ^ n \<Longrightarrow> e < 256 ^ n \<Longrightarrow> d = e"
  by (metis be_nat_bytes)

definition fits :: "bytes list \<Rightarrow> bool" where
  "fits fs \<longleftrightarrow> (\<forall>f \<in> set fs. length f < 2 ^ 64)"

lemma frame_nonempty [simp]: "frame b \<noteq> []"
  using length_be_bytes [of 8 "length b"] by (auto simp: frame_def simp del: length_be_bytes)

lemma frames_inj:
  "fits fs \<Longrightarrow> fits gs \<Longrightarrow> concat (map frame fs) = concat (map frame gs) \<Longrightarrow> fs = gs"
proof (induction fs arbitrary: gs)
  case Nil
  then show ?case by (cases gs) auto
next
  case (Cons f fs)
  then obtain g gs' where gs: "gs = g # gs'" by (cases gs) auto
  have "be_bytes 8 (length f) @ f @ concat (map frame fs) = be_bytes 8 (length g) @ g @ concat (map frame gs')"
    using Cons.prems(3) by (simp add: gs frame_def [of f] frame_def [of g])
  then have h: "be_bytes 8 (length f) = be_bytes 8 (length g)" "f @ concat (map frame fs) = g @ concat (map frame gs')"
    by (auto dest: append_eq_append_conv [THEN iffD1, rotated])
  have "length f = length g"
    using be_bytes_inj [OF h(1)] Cons.prems(1,2) by (simp add: fits_def gs)
  then have "f = g" "concat (map frame fs) = concat (map frame gs')" using h(2) by auto
  with Cons gs show ?case by (auto simp: fits_def)
qed

lemma Scalar_Bytes_inj:
  assumes "curve_laws c" "Scalar_Valid c s" "Scalar_Valid c t" "Scalar_Bytes s = Scalar_Bytes t"
  shows "s = t"
proof -
  obtain a b where s: "s = Some a" "t = Some b" "a < CurveN c" "b < CurveN c" using assms(2,3) by (auto simp: Scalar_Valid_iff)
  moreover have "CurveN c \<le> 256 ^ 32" using lawsD(2) [OF assms(1)] by simp
  ultimately show ?thesis using assms(4) be_bytes_inj [of 32 a b] by (simp add: Scalar_Bytes_def ScalarSize_def)
qed

lemma concat_eq_blocks:
  "(\<forall>x \<in> set xs. length (f x) = n) \<Longrightarrow> (\<forall>y \<in> set ys. length (f y) = n) \<Longrightarrow> 0 < n \<Longrightarrow>
     concat (map f xs) = concat (map f ys) \<Longrightarrow> map f xs = map f ys"
proof (induction xs arbitrary: ys)
  case Nil
  then show ?case by (cases ys) auto
next
  case (Cons x xs)
  then obtain y ys' where ys: "ys = y # ys'" by (cases ys) auto
  have "f x @ concat (map f xs) = f y @ concat (map f ys')" "length (f x) = length (f y)" using Cons.prems by (simp_all add: ys)
  then have "f x = f y" "concat (map f xs) = concat (map f ys')" by simp_all
  with Cons.IH [of ys'] Cons.prems show ?case by (simp add: ys)
qed

lemma encodePerm_inj:
  assumes "encodePerm p = encodePerm q" "\<forall>v \<in> set p. 0 \<le> v \<and> v < 2 ^ 32" "\<forall>v \<in> set q. 0 \<le> v \<and> v < 2 ^ 32"
  shows "p = q"
proof -
  let ?f = "\<lambda>v. be_bytes 4 (unat (word_of_int v :: u32))"
  have "map ?f p = map ?f q" using concat_eq_blocks [of p ?f 4 q] assms(1) by (simp add: encodePerm_def)
  moreover have "v = w" if "?f v = ?f w" "0 \<le> v" "v < 2 ^ 32" "0 \<le> w" "w < 2 ^ 32" for v w
  proof -
    have "unat (word_of_int v :: u32) < 256 ^ 4" "unat (word_of_int w :: u32) < 256 ^ 4"
      using unsigned_less [of "word_of_int v :: u32"] unsigned_less [of "word_of_int w :: u32"] by simp_all
    then have "(word_of_int v :: u32) = word_of_int w"
      using be_bytes_inj [OF that(1)] by (simp add: word_unat_eq_iff)
    then have "uint (word_of_int v :: u32) = uint (word_of_int w :: u32)" by simp
    then show "v = w" using that by (simp add: uint_word_of_int)
  qed
  ultimately show ?thesis using assms(2,3) by (intro map_inj_on [of ?f p q]) (auto intro!: inj_onI)
qed

section \<open>What verification accepts\<close>

lemma Deck_Equal_iff: "Deck_Equal d e \<longleftrightarrow> d = e"
  by (auto simp: Deck_Equal_def list.rel_eq)

lemma VerifyShuffle_iff:
  "VerifyShuffle c H input claimed global perm h = None \<longleftrightarrow>
     Scalar_Valid c global \<and> perm \<noteq> [] \<and> hash_fields H (shuffle_fields global perm) = h
   \<and> ShuffleStep c input global perm = Inr claimed"
  by (auto simp: VerifyShuffle_def CommitShuffle_def Deck_Equal_iff ShuffleStep_def split: sum.split option.split)

lemma CommitRemask_Inr:
  "CommitRemask c H global ss = Inr h \<longleftrightarrow>
     Scalar_Valid c global \<and> ss \<noteq> [] \<and> list_all (Scalar_Valid c) ss \<and> hash_fields H (remask_fields global ss) = h"
proof (cases "list_all (Scalar_Valid c) ss")
  case True
  then have "find (\<lambda>i. \<not> Scalar_Valid c (ss ! i)) [0..<length ss] = None" by (auto simp: find_None_iff list_all_length)
  with True show ?thesis by (auto simp: CommitRemask_def)
next
  case False
  then have "find (\<lambda>i. \<not> Scalar_Valid c (ss ! i)) [0..<length ss] \<noteq> None" by (auto simp: find_None_iff list_all_length)
  with False show ?thesis by (auto simp: CommitRemask_def)
qed

lemma VerifyRemask_iff:
  "VerifyRemask c H input claimed global ss h = None \<longleftrightarrow>
     CommitRemask c H global ss = Inr h \<and> RemaskStep c input global ss = Inr claimed"
proof (cases "CommitRemask c H global ss")
  case (Inr want)
  then have "Scalar_Valid c global" by (simp add: CommitRemask_Inr)
  with Inr show ?thesis
    by (auto simp: VerifyRemask_def Deck_Equal_iff RemaskStep_def split: sum.split)
qed (simp add: VerifyRemask_def)

lemma encodePerm_length: "length (encodePerm p) = 4 * length p"
  by (induction p) (auto simp: encodePerm_def)

lemma shuffle_preimage_inj:
  assumes "curve_laws c" "Scalar_Valid c g" "Scalar_Valid c g'"
    and "\<forall>v \<in> set p. 0 \<le> v \<and> v < 2 ^ 32" "\<forall>v \<in> set q. 0 \<le> v \<and> v < 2 ^ 32" "length p < 2 ^ 32" "length q < 2 ^ 32"
    and "concat (map frame (shuffle_fields g p)) = concat (map frame (shuffle_fields g' q))"
  shows "g = g' \<and> p = q"
proof -
  have "fits (shuffle_fields g p)" "fits (shuffle_fields g' q)"
    using assms(2,3,6,7)
    by (auto simp: fits_def shuffle_fields_def domainShuffle_def bytes_of_def encodePerm_length Scalar_Valid_iff Scalar_Bytes_def ScalarSize_def)
  from frames_inj [OF this assms(8)] have "Scalar_Bytes g = Scalar_Bytes g'" "encodePerm p = encodePerm q"
    by (simp_all add: shuffle_fields_def)
  then show ?thesis using Scalar_Bytes_inj [OF assms(1-3)] encodePerm_inj [OF _ assms(4,5)] by simp
qed

text \<open>
  C28: a shuffle commitment binds. A seat that opens one commitment in two ways that both pass verification
  either used the same scalar and permutation, and so claimed the same output from the same deck, or has found
  two different byte strings with the same digest. What verification accepts is exactly the committed pass
  applied to the given deck.
\<close>

theorem shuffle_commitment_binds:
  assumes L: "curve_laws c" and small: "length input < 2 ^ 32" "length input' < 2 ^ 32"
    and acc: "VerifyShuffle c H input claimed g p h = None" "VerifyShuffle c H input' claimed' g' p' h = None"
  shows "ShuffleStep c input g p = Inr claimed
     \<and> ((g = g' \<and> p = p' \<and> (input = input' \<longrightarrow> claimed = claimed'))
        \<or> (concat (map frame (shuffle_fields g p)) \<noteq> concat (map frame (shuffle_fields g' p'))
           \<and> H (concat (map frame (shuffle_fields g p))) = H (concat (map frame (shuffle_fields g' p')))))"
proof -
  note A = VerifyShuffle_iff [THEN iffD1, OF acc(1)] and B = VerifyShuffle_iff [THEN iffD1, OF acc(2)]
  have "ValidatePermutation p (length input) = None" "ValidatePermutation p' (length input') = None"
    using A B by (auto simp: ShuffleStep_def split: option.splits if_splits)
  then have P: "length p < 2 ^ 32" "\<forall>v \<in> set p. 0 \<le> v \<and> v < 2 ^ 32" "length p' < 2 ^ 32" "\<forall>v \<in> set p'. 0 \<le> v \<and> v < 2 ^ 32"
    using small by (auto simp: ValidatePermutation_iff)
  show ?thesis
  proof (cases "concat (map frame (shuffle_fields g p)) = concat (map frame (shuffle_fields g' p'))")
    case True
    then have "g = g' \<and> p = p'" using shuffle_preimage_inj [OF L _ _ P(2,4,1,3)] A B by blast
    then show ?thesis using A B by auto
  next
    case False
    then show ?thesis using A B by (auto simp: hash_fields_def)
  qed
qed

text \<open>A hash to run the checks on: the last 32 bytes of the padded input.\<close>

definition tail_hash :: "bytes \<Rightarrow> bytes" where
  "tail_hash b = drop (length b) (replicate 32 0 @ b)"

theorem shuffle_commitment_binds_witness:
  "VerifyShuffle small_curve tail_hash [1, 2, 3] [9, 3, 6] (Some 3) [1, 2, 0]
       (hash_fields tail_hash (shuffle_fields (Some 3) [1, 2, 0])) = None
   \<and> ShuffleStep small_curve [1, 2, 3] (Some 3) [1, 2, 0] = Inr [9, 3, 6]"
proof -
  let ?h = "hash_fields tail_hash (shuffle_fields (Some 3) [1, 2, 0])"
  have V: "VerifyShuffle small_curve tail_hash [1, 2, 3] [9, 3, 6] (Some 3) [1, 2, 0] ?h = None"
    unfolding VerifyShuffle_iff by (intro conjI refl; code_simp)
  have l: "length [1::nat, 2, 3] < 2 ^ 32" by simp
  from shuffle_commitment_binds [OF small_laws l l V V] V show ?thesis by blast
qed

section \<open>Seat order\<close>

lemma sort_key_perm:
  assumes "mset xs = mset ys" "distinct (map f xs)"
  shows "sort_key f xs = sort_key f ys"
proof (rule sym, rule sort_key_inj_key_eq)
  have "distinct (map f ys)" using assms mset_eq_imp_distinct_iff [of "map f xs" "map f ys"] by simp
  then show "inj_on f (set ys)" by (simp add: distinct_map)
  show "mset ys = mset (sort_key f xs)" using assms(1) by simp
  show "sorted (map f (sort_key f xs))" by simp
qed

lemma reveal_fields_distinct:
  "reveal_fields ids rs flds = Inr out \<Longrightarrow> distinct (map RevIdentity rs) \<and> (\<forall>r \<in> set rs. RevIdentity r \<notin> set ids)"
  by (induction ids rs flds rule: reveal_fields.induct) (auto split: if_splits)

lemma score_keys_Inr:
  "score_keys H seed ids ks = Inr out \<longleftrightarrow>
     out = map (\<lambda>k. (seat_digest H seed k, k)) ks \<and> distinct ks \<and> [] \<notin> set ks \<and> set ids \<inter> set ks = {}"
proof (induction ks arbitrary: ids out)
  case (Cons k ks)
  have "score_keys H seed (k # ids) ks = Inl e \<Longrightarrow> \<not> (distinct ks \<and> [] \<notin> set ks \<and> set (k # ids) \<inter> set ks = {})" for e
    using Cons.IH [of "k # ids" "map (\<lambda>k. (seat_digest H seed k, k)) ks"] by auto
  then show ?case using Cons.IH [of "k # ids"] by (cases "score_keys H seed (k # ids) ks") auto
qed auto

text \<open>
  every seat computes the same seat order. If the joint seed of some reveals exists and seats are assigned
  from it, then any rearrangement of the reveals gives the same seed and any rearrangement of the players the same
  order; the order lists each player once; and it is sorted by the digest of the seed and the player's key.
\<close>

theorem seat_order_agreed:
  assumes seed: "JointSeed H reveals = Inr s" and order: "AssignSeats H keys s = Inr seats"
  shows "(\<forall>reveals'. mset reveals' = mset reveals \<longrightarrow> JointSeed H reveals' = Inr s)
     \<and> (\<forall>keys'. mset keys' = mset keys \<longrightarrow> AssignSeats H keys' s = Inr seats)
     \<and> mset seats = mset keys \<and> distinct seats
     \<and> sorted (map (seat_digest H s) seats)"
proof (intro conjI allI impI)
  fix reveals' assume m: "mset reveals' = mset reveals"
  obtain flds where F: "reveals \<noteq> []" "reveal_fields [] (sort_key RevIdentity reveals) [domainSeatSeed] = Inr flds" "s = hash_fields H flds"
    using seed by (auto simp: JointSeed_def split: if_splits sum.splits)
  have "mset (map RevIdentity (sort_key RevIdentity reveals)) = mset (map RevIdentity reveals)" by simp
  then have "distinct (map RevIdentity reveals)"
    using reveal_fields_distinct [OF F(2)] mset_eq_imp_distinct_iff by blast
  then have "sort_key RevIdentity reveals' = sort_key RevIdentity reveals" using sort_key_perm [OF m [symmetric], of RevIdentity] by simp
  moreover have "reveals' \<noteq> []" using m F(1) by auto
  ultimately show "JointSeed H reveals' = Inr s" using F by (simp add: JointSeed_def)
next
  let ?f = "\<lambda>k. (seat_digest H s k, k)"
  have A: "keys \<noteq> []" "length s = CommitmentSize" "distinct keys" "[] \<notin> set keys" "seats = map snd (sort (map ?f keys))"
    using order by (auto simp: AssignSeats_def score_keys_Inr split: if_splits sum.splits)
  show "AssignSeats H keys' s = Inr seats" if m: "mset keys' = mset keys" for keys'
  proof -
    have "distinct keys'" "set keys' = set keys" "keys' \<noteq> []" using A mset_eq_imp_distinct_iff [OF m] mset_eq_setD [OF m] by auto
    moreover have "sort (map ?f keys') = sort (map ?f keys)"
      using m by (intro properties_for_sort) (auto simp: image_mset.compositionality [symmetric])
    moreover have "score_keys H s [] keys' = Inr (map ?f keys')" using calculation A by (simp add: score_keys_Inr)
    ultimately show ?thesis using A by (simp add: AssignSeats_def)
  qed
  have "mset (map snd (sort (map ?f keys))) = mset (map snd (map ?f keys))" by (simp only: mset_map mset_sort)
  then show m: "mset seats = mset keys" using A(5) by (simp add: comp_def)
  then show "distinct seats" using A(3) mset_eq_imp_distinct_iff by blast
  have pairs: "p = ?f (snd p)" if "p \<in> set (sort (map ?f keys))" for p using that by auto
  then have "map (seat_digest H s) seats = map fst (sort (map ?f keys))" unfolding A(5) by (auto simp: comp_def)
  moreover have "sorted (map fst ps)" if "sorted ps" for ps :: "(bytes \<times> string) list"
    using that by (induction ps) (auto simp: less_eq_prod_def intro: order_less_imp_le)
  ultimately show "sorted (map (seat_digest H s) seats)" by simp
qed

definition reveals_ex :: "seat_reveal list" where
  "reveals_ex = [\<lparr>RevIdentity = ''02b'', RevNonce = replicate 32 7\<rparr>, \<lparr>RevIdentity = ''02a'', RevNonce = replicate 32 9\<rparr>]"

theorem seat_order_agreed_witness:
  "\<exists>s seats. JointSeed tail_hash reveals_ex = Inr s \<and> AssignSeats tail_hash [''02a'', ''02b''] s = Inr seats
     \<and> JointSeed tail_hash (rev reveals_ex) = Inr s \<and> AssignSeats tail_hash [''02b'', ''02a''] s = Inr seats \<and> distinct seats"
proof -
  have srt: "sort_key RevIdentity reveals_ex = rev reveals_ex" by code_simp
  have tail: "length (tail_hash b) = 32" for b by (simp add: tail_hash_def del: drop_append)
  obtain s where J: "JointSeed tail_hash reveals_ex = Inr s" "length s = 32"
    by (simp add: JointSeed_def srt) (simp add: reveals_ex_def NonceSize_def hash_fields_def tail)
  obtain seats where A: "AssignSeats tail_hash [''02a'', ''02b''] s = Inr seats"
    using J(2) by (simp add: AssignSeats_def CommitmentSize_def)
  have "mset [''02b'', ''02a''] = mset [''02a'', ''02b'']" "mset (rev reveals_ex) = mset reveals_ex" by simp_all
  with seat_order_agreed [OF J(1) A] J(1) A show ?thesis by metis
qed

end
