(* ===== verification/Hand_Player.thy ===== *)
theory Hand_Player
  imports Deal_Proof Session
begin

text \<open>
  One seat's part in a hand, \<^verbatim>\<open>internal/protocol/table/hand.go\<close>: its secrets, its passes over the deck, the scalars
  other seats disclosed to it, and the commitments that bind its peers. An operation that ends by handing a
  message to the session returns that message; \<open>Session\<close> models what happens to it. The secrets
  \<open>NewHandPlayer\<close> draws are arguments. A Go map is a partial function, \<open>disclosed\<close> by position and seat.
\<close>

section \<open>State\<close>

record 'p hand_player =
  hpSeat :: int
  hpSeats :: int
  hpDeckSize :: int
  hpGlobal :: scalar
  hpPerPosition :: "scalar list"
  hpDeck :: "'p list"
  disclosed :: "int \<Rightarrow> int \<rightharpoonup> scalar"
  shuffleCommit :: "bytes option"
  remaskCommit :: "bytes option"
  peerShuffleCommit :: "int \<rightharpoonup> bytes"
  peerRemaskCommit :: "int \<rightharpoonup> bytes"
  inputDeck :: "int \<rightharpoonup> 'p list"
  pendingPerm :: "int list"

datatype hand_error = SeatsOutside int | SeatOutside int int | SecretsFailed mp_error
  | OnlySeatZeroShuffles int | OnlySeatZeroRemasks int | BaseDeckFailed mp_error | ShuffleFailed int mp_error
  | RemaskFailed int mp_error | NotShuffled | FinalDeckSize nat int | RevealToSelf int | PositionOutsideDeck int
  | DisclosureLength nat nat | DisclosureInvalid int int mp_error | NoDeckYet | NotDisclosed int int
  | UnmaskFailed mp_error | IdentifyFailed mp_error | CardFailed cards_error
  | DeckPointMalformed nat mp_error | DeckInvalid mp_error | CommitFailed int proof_error
  | CommitmentSeatOutside int | CommitmentMalformed int | CommitmentChanged int
  | NoCommitment int | NoInput int | PassRejected int proof_error

text \<open>What an operation hands to the session.\<close>

datatype outgoing = SendShuffle "bytes list" | SendRemask "bytes list"
  | SendHoleReveal string reveal_body | SendBoardReveal reveal_body

section \<open>Setting up\<close>

definition NewHandPlayer ::
  "int \<Rightarrow> int \<Rightarrow> int \<Rightarrow> (mp_error, scalar) res \<Rightarrow> (mp_error, scalar list) res \<Rightarrow> (mp_error, int list) res
     \<Rightarrow> (hand_error, 'p hand_player) res" where
  "NewHandPlayer seat seats deckSize global perPosition perm =
     (if seats < TMinSeats \<or> seats > TMaxSeats then Inl (SeatsOutside seats)
      else if seat < 0 \<or> seat \<ge> seats then Inl (SeatOutside seat seats)
      else case global of
             Inl e \<Rightarrow> Inl (SecretsFailed e)
           | Inr g \<Rightarrow>
               (case perPosition of
                  Inl e \<Rightarrow> Inl (SecretsFailed e)
                | Inr ss \<Rightarrow>
                    (case perm of
                       Inl e \<Rightarrow> Inl (SecretsFailed e)
                     | Inr p \<Rightarrow>
                         Inr \<lparr>hpSeat = seat, hpSeats = seats, hpDeckSize = (if deckSize = 0 then DeckSize else deckSize),
                              hpGlobal = g, hpPerPosition = ss, hpDeck = [], disclosed = (\<lambda>p. Map.empty),
                              shuffleCommit = None, remaskCommit = None, peerShuffleCommit = Map.empty,
                              peerRemaskCommit = Map.empty, inputDeck = Map.empty, pendingPerm = p\<rparr>)))"

fun hole_loop :: "nat \<Rightarrow> nat \<Rightarrow> nat \<Rightarrow> int \<Rightarrow> int list list" where
  "hole_loop 0 holeCards s nxt = []"
| "hole_loop (Suc n) holeCards s nxt =
     map (\<lambda>c. nxt + int c) [0..<holeCards] # hole_loop n holeCards (s + 1) (nxt + int holeCards)"

text \<open>The hole positions of seat \<open>s\<close> are the \<open>s\<close>-th list.\<close>

definition HolePositions :: "nat \<Rightarrow> nat \<Rightarrow> int list list \<times> int list" where
  "HolePositions seats holeCards =
     (hole_loop seats holeCards 0 0, map (\<lambda>i. int (seats * holeCards) + int i) [0..<5])"

definition encodeDeck :: "'p curve \<Rightarrow> 'p list \<Rightarrow> bytes list" where
  "encodeDeck c d = map (Point_Bytes c) d"

fun decode_points :: "'p curve \<Rightarrow> nat \<Rightarrow> bytes list \<Rightarrow> (hand_error, 'p list) res" where
  "decode_points c i [] = Inr []"
| "decode_points c i (b # bs) =
     (case PointFromBytes c b of
        Inl e \<Rightarrow> Inl (DeckPointMalformed i e)
      | Inr p \<Rightarrow> (case decode_points c (i + 1) bs of Inl e \<Rightarrow> Inl e | Inr ps \<Rightarrow> Inr (p # ps)))"

definition DecodeDeck :: "'p curve \<Rightarrow> bytes list \<Rightarrow> (hand_error, 'p list) res" where
  "DecodeDeck c raw =
     (case decode_points c 0 raw of
        Inl e \<Rightarrow> Inl e
      | Inr pts \<Rightarrow> (case DeckFromPoints c pts of Inl e \<Rightarrow> Inl (DeckInvalid e) | Inr d \<Rightarrow> Inr d))"

section \<open>The passes\<close>

type_synonym 'p hand_result = "hand_error option \<times> outgoing option \<times> 'p hand_player"

definition contributeShuffle :: "'p curve \<Rightarrow> 'p list \<Rightarrow> 'p hand_player \<Rightarrow> 'p hand_result" where
  "contributeShuffle c input h =
     (case ShuffleStep c input (hpGlobal h) (pendingPerm h) of
        Inl e \<Rightarrow> (Some (ShuffleFailed (hpSeat h) e), None, h)
      | Inr out \<Rightarrow> (None, Some (SendShuffle (encodeDeck c out)), h\<lparr>hpDeck := out\<rparr>))"

definition StartShuffle :: "'p curve \<Rightarrow> 'p hand_player \<Rightarrow> 'p hand_result" where
  "StartShuffle c h =
     (if hpSeat h \<noteq> 0 then (Some (OnlySeatZeroShuffles (hpSeat h)), None, h)
      else case BaseDeck c (hpDeckSize h) of
             Inl e \<Rightarrow> (Some (BaseDeckFailed e), None, h)
           | Inr base \<Rightarrow> contributeShuffle c base h)"

definition ApplyShuffle :: "'p curve \<Rightarrow> 'p list \<Rightarrow> int \<Rightarrow> 'p hand_player \<Rightarrow> 'p hand_result" where
  "ApplyShuffle c d fromSeat h =
     (if fromSeat \<noteq> hpSeat h - 1 then (None, None, h) else contributeShuffle c d h)"

definition contributeRemask :: "'p curve \<Rightarrow> 'p list \<Rightarrow> 'p hand_player \<Rightarrow> 'p hand_result" where
  "contributeRemask c input h =
     (case RemaskStep c input (hpGlobal h) (hpPerPosition h) of
        Inl e \<Rightarrow> (Some (RemaskFailed (hpSeat h) e), None, h)
      | Inr out \<Rightarrow> (None, Some (SendRemask (encodeDeck c out)), h\<lparr>hpDeck := out\<rparr>))"

definition ApplyRemask :: "'p curve \<Rightarrow> 'p list \<Rightarrow> int \<Rightarrow> 'p hand_player \<Rightarrow> 'p hand_result" where
  "ApplyRemask c d fromSeat h =
     (if fromSeat \<noteq> hpSeat h - 1 then (None, None, h) else contributeRemask c d h)"

definition StartRemask :: "'p curve \<Rightarrow> 'p hand_player \<Rightarrow> 'p hand_result" where
  "StartRemask c h =
     (if hpSeat h \<noteq> 0 then (Some (OnlySeatZeroRemasks (hpSeat h)), None, h)
      else if length (hpDeck h) = 0 then (Some NotShuffled, None, h)
      else contributeRemask c (hpDeck h) h)"

definition SetDeck :: "'p list \<Rightarrow> 'p hand_player \<Rightarrow> (hand_error, 'p hand_player) outcome" where
  "SetDeck d h =
     (if int (length d) \<noteq> hpDeckSize h then (Some (FinalDeckSize (length d) (hpDeckSize h)), h)
      else (None, h\<lparr>hpDeck := d\<rparr>))"

section \<open>Disclosing and reading\<close>

fun reveal_scalars :: "scalar list \<Rightarrow> int list \<Rightarrow> (hand_error, bytes list) res" where
  "reveal_scalars ss [] = Inr []"
| "reveal_scalars ss (p # ps) =
     (if p < 0 \<or> p \<ge> int (length ss) then Inl (PositionOutsideDeck p)
      else case reveal_scalars ss ps of Inl e \<Rightarrow> Inl e | Inr out \<Rightarrow> Inr (Scalar_Bytes (ss ! nat p) # out))"

definition RevealHoleTo :: "int \<Rightarrow> string \<Rightarrow> int list \<Rightarrow> 'p hand_player \<Rightarrow> (hand_error, outgoing) res" where
  "RevealHoleTo recipientSeat recipientKey positions h =
     (if recipientSeat = hpSeat h then Inl (RevealToSelf (hpSeat h))
      else case reveal_scalars (hpPerPosition h) positions of
             Inl e \<Rightarrow> Inl e
           | Inr ss \<Rightarrow> Inr (SendHoleReveal recipientKey \<lparr>Positions = positions, Scalars = ss\<rparr>))"

definition RevealBoard :: "int list \<Rightarrow> 'p hand_player \<Rightarrow> (hand_error, outgoing) res" where
  "RevealBoard positions h =
     (case reveal_scalars (hpPerPosition h) positions of
        Inl e \<Rightarrow> Inl e
      | Inr ss \<Rightarrow> Inr (SendBoardReveal \<lparr>Positions = positions, Scalars = ss\<rparr>))"

fun record_loop ::
  "'p curve \<Rightarrow> int \<Rightarrow> int list \<Rightarrow> bytes list \<Rightarrow> 'p hand_player \<Rightarrow> (hand_error, 'p hand_player) outcome" where
  "record_loop c fromSeat (p # ps) (b # bs) h =
     (case ScalarFromBytes c b of
        Inl e \<Rightarrow> (Some (DisclosureInvalid fromSeat p e), h)
      | Inr s \<Rightarrow> record_loop c fromSeat ps bs
                   (h\<lparr>disclosed := (disclosed h)(p := (disclosed h p)(fromSeat \<mapsto> s))\<rparr>))"
| "record_loop c fromSeat ps bs h = (None, h)"

definition RecordDisclosure ::
  "'p curve \<Rightarrow> int \<Rightarrow> int list \<Rightarrow> bytes list \<Rightarrow> 'p hand_player \<Rightarrow> (hand_error, 'p hand_player) outcome" where
  "RecordDisclosure c fromSeat positions scalars h =
     (if length positions \<noteq> length scalars then (Some (DisclosureLength (length positions) (length scalars)), h)
      else record_loop c fromSeat positions scalars h)"

fun collect_scalars :: "(int \<rightharpoonup> scalar) \<Rightarrow> int \<Rightarrow> int \<Rightarrow> int list \<Rightarrow> (hand_error, scalar list) res" where
  "collect_scalars m own position [] = Inr []"
| "collect_scalars m own position (seat # seats) =
     (if seat = own then collect_scalars m own position seats
      else case m seat of
             None \<Rightarrow> Inl (NotDisclosed seat position)
           | Some s \<Rightarrow> (case collect_scalars m own position seats of Inl e \<Rightarrow> Inl e | Inr ss \<Rightarrow> Inr (s # ss)))"

definition Hand_Card :: "'p curve \<Rightarrow> int \<Rightarrow> 'p hand_player \<Rightarrow> (hand_error, card) res" where
  "Hand_Card c position h =
     (if length (hpDeck h) = 0 then Inl NoDeckYet
      else if position < 0 \<or> position \<ge> int (length (hpPerPosition h)) then Inl (PositionOutsideDeck position)
      else case collect_scalars (disclosed h position) (hpSeat h) position [0..hpSeats h - 1] of
             Inl e \<Rightarrow> Inl e
           | Inr ss \<Rightarrow>
               (case Deck_Unmask c (hpDeck h) position (hpPerPosition h ! nat position # ss) of
                  Inl e \<Rightarrow> Inl (UnmaskFailed e)
                | Inr pt \<Rightarrow>
                    (case CardIndexOf c pt (hpDeckSize h) of
                       Inl e \<Rightarrow> Inl (IdentifyFailed e)
                     | Inr idx \<Rightarrow>
                         (case FromIndex (int idx) of Inl e \<Rightarrow> Inl (CardFailed e) | Inr cd \<Rightarrow> Inr cd))))"

section \<open>Commitments\<close>

definition Commitments ::
  "'p curve \<Rightarrow> (bytes \<Rightarrow> bytes) \<Rightarrow> 'p hand_player \<Rightarrow> (hand_error, bytes \<times> bytes) res \<times> 'p hand_player" where
  "Commitments c H h =
     (case (case shuffleCommit h of
              Some sc \<Rightarrow> Inr sc
            | None \<Rightarrow> CommitShuffle c H (hpGlobal h) (pendingPerm h)) of
        Inl e \<Rightarrow> (Inl (CommitFailed (hpSeat h) e), h)
      | Inr sc \<Rightarrow>
          let h = h\<lparr>shuffleCommit := Some sc\<rparr>
          in case (case remaskCommit h of
                     Some rc \<Rightarrow> Inr rc
                   | None \<Rightarrow> CommitRemask c H (hpGlobal h) (hpPerPosition h)) of
               Inl e \<Rightarrow> (Inl (CommitFailed (hpSeat h) e), h)
             | Inr rc \<Rightarrow> (Inr (sc, rc), h\<lparr>remaskCommit := Some rc\<rparr>))"

definition RecordPeerCommitments ::
  "int \<Rightarrow> bytes \<Rightarrow> bytes \<Rightarrow> 'p hand_player \<Rightarrow> (hand_error, 'p hand_player) outcome" where
  "RecordPeerCommitments seat shuffle remask h =
     (if seat < 0 \<or> seat \<ge> hpSeats h then (Some (CommitmentSeatOutside seat), h)
      else if length shuffle \<noteq> CommitmentSize \<or> length remask \<noteq> CommitmentSize then (Some (CommitmentMalformed seat), h)
      else if (case peerShuffleCommit h seat of None \<Rightarrow> False | Some x \<Rightarrow> x \<noteq> shuffle) then (Some (CommitmentChanged seat), h)
      else if (case peerRemaskCommit h seat of None \<Rightarrow> False | Some x \<Rightarrow> x \<noteq> remask) then (Some (CommitmentChanged seat), h)
      else (None, h\<lparr>peerShuffleCommit := (peerShuffleCommit h)(seat \<mapsto> shuffle),
                    peerRemaskCommit := (peerRemaskCommit h)(seat \<mapsto> remask)\<rparr>))"

definition RecordInput :: "int \<Rightarrow> 'p list \<Rightarrow> 'p hand_player \<Rightarrow> 'p hand_player" where
  "RecordInput seat d h = h\<lparr>inputDeck := (inputDeck h)(seat \<mapsto> d)\<rparr>"

definition VerifyPeerShuffle ::
  "'p curve \<Rightarrow> (bytes \<Rightarrow> bytes) \<Rightarrow> int \<Rightarrow> scalar \<Rightarrow> int list \<Rightarrow> 'p list \<Rightarrow> 'p hand_player \<Rightarrow> hand_error option" where
  "VerifyPeerShuffle c H seat global perm claimed h =
     (case peerShuffleCommit h seat of
        None \<Rightarrow> Some (NoCommitment seat)
      | Some commitment \<Rightarrow>
          (case inputDeck h seat of
             None \<Rightarrow> Some (NoInput seat)
           | Some input \<Rightarrow> map_option (PassRejected seat) (VerifyShuffle c H input claimed global perm commitment)))"

definition VerifyPeerRemask ::
  "'p curve \<Rightarrow> (bytes \<Rightarrow> bytes) \<Rightarrow> int \<Rightarrow> scalar \<Rightarrow> scalar list \<Rightarrow> 'p list \<Rightarrow> 'p hand_player \<Rightarrow> hand_error option" where
  "VerifyPeerRemask c H seat global perPosition claimed h =
     (case peerRemaskCommit h seat of
        None \<Rightarrow> Some (NoCommitment seat)
      | Some commitment \<Rightarrow>
          (case inputDeck h seat of
             None \<Rightarrow> Some (NoInput seat)
           | Some input \<Rightarrow> map_option (PassRejected seat) (VerifyRemask c H input claimed global perPosition commitment)))"

definition CommittedSeats :: "'p hand_player \<Rightarrow> int list" where
  "CommittedSeats h = filter (\<lambda>s. peerShuffleCommit h s \<noteq> None) [0..hpSeats h - 1]"

definition openShuffle :: "'p hand_player \<Rightarrow> scalar \<times> int list" where
  "openShuffle h = (hpGlobal h, pendingPerm h)"

definition openRemask :: "'p hand_player \<Rightarrow> scalar \<times> scalar list" where
  "openRemask h = (hpGlobal h, hpPerPosition h)"

end
