(* ===== verification/Hand_Player_Props.thy ===== *)
theory Hand_Player_Props
  imports Hand_Player
begin

text \<open>
  What a hand player guarantees: once every other seat's disclosures for a position have been recorded, in
  any order, every seat reads the same card there; and a peer's recorded commitments never change.
\<close>

section \<open>Scalars on the wire\<close>

lemma ScalarFromBytes_Bytes:
  assumes "curve_laws c" "Scalar_Valid c s"
  shows "ScalarFromBytes c (Scalar_Bytes s) = Inr s"
proof -
  obtain d where s: "s = Some d" "0 < d" "d < CurveN c" using assms(2) by (auto simp: Scalar_Valid_iff)
  have "d < 256 ^ 32" using s(3) lawsD(2) [OF assms(1)] by simp
  then have "be_nat (be_bytes 32 d) = d" by (rule be_nat_bytes)
  then show ?thesis using s by (simp add: ScalarFromBytes_def Scalar_Bytes_def ScalarSize_def)
qed

lemma reveal_scalars_ok:
  "\<forall>p \<in> set ps. 0 \<le> p \<and> p < int (length ss) \<Longrightarrow> reveal_scalars ss ps = Inr (map (\<lambda>p. Scalar_Bytes (ss ! nat p)) ps)"
  by (induction ps) auto

lemma record_loop_ok:
  assumes "curve_laws c" "\<forall>p \<in> set ps. Scalar_Valid c (f p)"
  shows "record_loop c j ps (map (\<lambda>p. Scalar_Bytes (f p)) ps) h
    = (None, h\<lparr>disclosed := \<lambda>p. if p \<in> set ps then (disclosed h p)(j \<mapsto> f p) else disclosed h p\<rparr>)"
  using assms(2)
proof (induction ps arbitrary: h)
  case (Cons p ps)
  have "ScalarFromBytes c (Scalar_Bytes (f p)) = Inr (f p)" using ScalarFromBytes_Bytes [OF assms(1)] Cons.prems by simp
  then show ?case using Cons by (auto simp: fun_eq_iff)
qed simp

lemma collect_scalars_ok:
  "\<forall>s \<in> set seats. s \<noteq> own \<longrightarrow> m s = Some (g s) \<Longrightarrow>
     collect_scalars m own pos seats = Inr (map g (filter (\<lambda>s. s \<noteq> own) seats))"
  by (induction seats) auto

lemma collect_scalars_missing:
  "s \<in> set seats \<Longrightarrow> s \<noteq> own \<Longrightarrow> m s = None \<Longrightarrow> \<exists>j. collect_scalars m own pos seats = Inl (NotDisclosed j pos)"
  by (induction seats) (auto split: option.split sum.split)

text \<open>A seat's session hands it the reveals of other seats one after the other.\<close>

fun hear :: "'p curve \<Rightarrow> (int \<times> reveal_body) list \<Rightarrow> 'p hand_player \<Rightarrow> 'p hand_player" where
  "hear c [] h = h"
| "hear c ((j, b) # msgs) h = hear c msgs (snd (RecordDisclosure c j (Positions b) (Scalars b) h))"

definition reveal_of :: "(int \<Rightarrow> int \<Rightarrow> scalar) \<Rightarrow> int list \<Rightarrow> int \<Rightarrow> reveal_body" where
  "reveal_of f ps j = \<lparr>Positions = ps, Scalars = map (\<lambda>p. Scalar_Bytes (f j p)) ps\<rparr>"

lemma hear_reveals:
  assumes "curve_laws c" "\<forall>j \<in> set js. \<forall>p \<in> set ps. Scalar_Valid c (f j p)" "pos \<in> set ps"
  shows "\<exists>h'. hear c (map (\<lambda>j. (j, reveal_of f ps j)) js) h = h'
     \<and> (\<forall>k. disclosed h' pos k = (if k \<in> set js then Some (f k pos) else disclosed h pos k))
     \<and> hpSeat h' = hpSeat h \<and> hpSeats h' = hpSeats h \<and> hpDeckSize h' = hpDeckSize h
     \<and> hpPerPosition h' = hpPerPosition h \<and> hpDeck h' = hpDeck h"
  using assms(2)
proof (induction js arbitrary: h)
  case (Cons j js)
  let ?h = "h\<lparr>disclosed := \<lambda>p. if p \<in> set ps then (disclosed h p)(j \<mapsto> f j p) else disclosed h p\<rparr>"
  have "RecordDisclosure c j ps (map (\<lambda>p. Scalar_Bytes (f j p)) ps) h = (None, ?h)"
    using record_loop_ok [OF assms(1), of ps "f j" j h] Cons.prems by (simp add: RecordDisclosure_def)
  then have "hear c (map (\<lambda>j. (j, reveal_of f ps j)) (j # js)) h = hear c (map (\<lambda>j. (j, reveal_of f ps j)) js) ?h"
    by (simp add: reveal_of_def)
  moreover from Cons.IH [of ?h] Cons.prems obtain h' where "hear c (map (\<lambda>j. (j, reveal_of f ps j)) js) ?h = h'"
     "\<forall>k. disclosed h' pos k = (if k \<in> set js then Some (f k pos) else disclosed ?h pos k)"
     "hpSeat h' = hpSeat h \<and> hpSeats h' = hpSeats h \<and> hpDeckSize h' = hpDeckSize h
     \<and> hpPerPosition h' = hpPerPosition h \<and> hpDeck h' = hpDeck h" by auto
  ultimately show ?case using assms(3) by auto
qed simp

section \<open>Every seat reads the same cards\<close>

lemma mset_own_first: "distinct xs \<Longrightarrow> i \<in> set xs \<Longrightarrow> mset (f i # map f (filter (\<lambda>s. s \<noteq> i) xs)) = mset (map f xs)"
proof (induction xs)
  case (Cons x xs)
  show ?case
  proof (cases "x = i")
    case True
    then have "filter (\<lambda>s. s \<noteq> i) xs = xs" using Cons.prems by (auto simp: filter_id_conv)
    with True show ?thesis by simp
  next
    case False
    then show ?thesis using Cons by (simp add: add_mset_commute)
  qed
qed simp

definition seat_scalar :: "mp_player list \<Rightarrow> int \<Rightarrow> int \<Rightarrow> scalar" where
  "seat_scalar pls j p = PerPosition (pls ! nat j) ! nat p"

lemma position_scalars_upto:
  "position_scalars pls (nat p) = map (\<lambda>j. seat_scalar pls j p) [0..int (length pls) - 1]"
  by (rule nth_equalityI) (auto simp: position_scalars_def seat_scalar_def nth_upto)

text \<open>The state of seat \<open>i\<close> when the deal is done: its own secrets and the final deck.\<close>

definition seated :: "mp_player list \<Rightarrow> nat \<Rightarrow> 'p list \<Rightarrow> nat \<Rightarrow> 'p hand_player \<Rightarrow> bool" where
  "seated pls n e i h \<longleftrightarrow> hpSeat h = int i \<and> hpSeats h = int (length pls) \<and> hpDeckSize h = int n
     \<and> hpPerPosition h = PerPosition (pls ! i) \<and> hpDeck h = e"

lemma seat_scalar_ok:
  "list_all (player_ok c n) pls \<Longrightarrow> 0 \<le> j \<Longrightarrow> j < int (length pls) \<Longrightarrow> 0 \<le> p \<Longrightarrow> p < int n \<Longrightarrow> Scalar_Valid c (seat_scalar pls j p)"
  by (auto simp: seat_scalar_def list_all_length player_ok_def)

lemma RevealBoard_reveals:
  assumes "list_all (player_ok c n) pls" "i < length pls" "seated pls n e i h" "\<forall>p \<in> set ps. 0 \<le> p \<and> p < int n"
  shows "RevealBoard ps h = Inr (SendBoardReveal (reveal_of (seat_scalar pls) ps (int i)))"
proof -
  have "length (PerPosition (pls ! i)) = n" using assms(1,2) by (auto simp: list_all_length player_ok_def)
  then show ?thesis using assms(3,4) reveal_scalars_ok [of ps "PerPosition (pls ! i)"]
    by (simp add: RevealBoard_def seated_def reveal_of_def seat_scalar_def)
qed

lemma card_read:
  assumes L: "curve_laws c" and n: "0 < n" "n < CurveN c" and ok: "list_all (player_ok c n) pls"
    and unmask: "\<And>ss. mset ss = mset (position_scalars pls (nat p)) \<Longrightarrow>
          \<exists>pt. Deck_Unmask c e p ss = Inr pt \<and> CardIndexOf c pt (int n) = Inr k"
    and e: "length e = n" and i: "i < length pls" "seated pls n e i h"
    and p: "p \<in> set ps" "\<forall>p \<in> set ps. 0 \<le> p \<and> p < int n"
    and js: "set js = {0..<int (length pls)} - {int i}" and card: "FromIndex (int k) = Inr cd"
  shows "Hand_Card c p (hear c (map (\<lambda>j. (j, reveal_of (seat_scalar pls) ps j)) js) h) = Inr cd"
proof -
  have "\<forall>j \<in> set js. \<forall>q \<in> set ps. Scalar_Valid c (seat_scalar pls j q)"
    using seat_scalar_ok [OF ok] js p(2) by auto
  from hear_reveals [OF L this p(1), of h] obtain h' where
    h': "hear c (map (\<lambda>j. (j, reveal_of (seat_scalar pls) ps j)) js) h = h'"
    and d: "\<forall>k. disclosed h' p k = (if k \<in> set js then Some (seat_scalar pls k p) else disclosed h p k)"
    and same: "hpSeat h' = int i" "hpSeats h' = int (length pls)" "hpDeckSize h' = int n"
      "hpPerPosition h' = PerPosition (pls ! i)" "hpDeck h' = e"
    using i(2) by (auto simp: seated_def)
  let ?all = "[0..int (length pls) - 1]"
  let ?ss = "map (\<lambda>j. seat_scalar pls j p) (filter (\<lambda>s. s \<noteq> int i) ?all)"
  have coll: "collect_scalars (disclosed h' p) (int i) p ?all = Inr ?ss"
    using d js by (intro collect_scalars_ok) auto
  have own: "PerPosition (pls ! i) ! nat p = seat_scalar pls (int i) p" by (simp add: seat_scalar_def)
  have "mset (seat_scalar pls (int i) p # ?ss) = mset (position_scalars pls (nat p))"
    unfolding position_scalars_upto using i(1) by (intro mset_own_first) auto
  from unmask [OF this] obtain pt where
    pt: "Deck_Unmask c e p (seat_scalar pls (int i) p # ?ss) = Inr pt" "CardIndexOf c pt (int n) = Inr k" by blast
  have "length (PerPosition (pls ! i)) = n" using ok i(1) by (auto simp: list_all_length player_ok_def)
  moreover have "\<not> p < 0" "\<not> int n \<le> p" using p by auto
  ultimately show ?thesis using e n(1) pt card
    by (simp add: Hand_Card_def h' same coll own)
qed

text \<open>
  C15: every seat reads the same hand. After a deal of at most 52 cards there is one list of cards, the first
  \<open>n\<close> of the deck in some order and all different, such that every seat that has heard the
  board reveals of all the other seats, in whatever order, reads at each revealed position the card that list names.
\<close>

theorem seats_read_the_same_cards:
  assumes "curve_laws c" "0 < n" "n \<le> 52" "n < CurveN c" "list_all (player_ok c n) pls"
  shows "\<exists>base d e. BaseDeck c (int n) = Inr base \<and> shuffle_all c base pls = Inr d \<and> remask_all c d pls = Inr e
     \<and> (\<exists>cs. length cs = n \<and> distinct cs \<and> mset (map Index cs) = mset (map int [0..<n])
          \<and> (\<forall>i < length pls. \<forall>h ps js p. seated pls n e i h \<and> (\<forall>q \<in> set ps. 0 \<le> q \<and> q < int n) \<and> p \<in> set ps
               \<and> set js = {0..<int (length pls)} - {int i} \<longrightarrow>
               Hand_Card c p (hear c (map (\<lambda>j. (j, reveal_of (seat_scalar pls) ps j)) js) h) = Inr (cs ! nat p)))"
proof -
  obtain base d e ord where D: "BaseDeck c (int n) = Inr base" "shuffle_all c base pls = Inr d" "remask_all c d pls = Inr e"
    "length e = n" "mset ord = mset [0..<n]"
    and U: "\<forall>pos < n. \<forall>ss. mset ss = mset (position_scalars pls pos) \<longrightarrow>
          (\<exists>pt. Deck_Unmask c e (int pos) ss = Inr pt \<and> CardIndexOf c pt (int n) = Inr (ord ! pos))"
    using dealt_reads [OF assms(1,2,4,5)] by blast
  have len: "length ord = n" and elems: "\<And>k. k \<in> set ord \<Longrightarrow> k < n"
    using mset_eq_length [OF D(5)] mset_eq_setD [OF D(5)] by auto
  let ?card = "\<lambda>k. projr (FromIndex (int k))"
  have fi: "FromIndex (int k) = Inr (?card k)" "Index (?card k) = int k" if kn: "k < n" for k
  proof -
    obtain cd where "FromIndex (int k) = Inr cd" using FromIndex_total [of "int k"] kn assms(3) by (auto simp: DeckSize_def)
    then show "FromIndex (int k) = Inr (?card k)" "Index (?card k) = int k" using Index_FromIndex by auto
  qed
  let ?cs = "map ?card ord"
  have ix: "map Index ?cs = map int ord" using fi(2) elems by simp
  have "mset (map Index ?cs) = mset (map int [0..<n])" unfolding ix using D(5) by (simp only: mset_map)
  moreover have "distinct ?cs"
  proof -
    have "distinct (map Index ?cs)" unfolding ix using mset_eq_imp_distinct_iff [OF D(5)] by (simp add: distinct_map)
    then show ?thesis by (metis distinct_map)
  qed
  moreover have "Hand_Card c p (hear c (map (\<lambda>j. (j, reveal_of (seat_scalar pls) ps j)) js) h) = Inr (?cs ! nat p)"
    if i: "i < length pls" "seated pls n e i h" and ps: "\<forall>q \<in> set ps. 0 \<le> q \<and> q < int n" "p \<in> set ps"
      and js: "set js = {0..<int (length pls)} - {int i}" for i h ps js p
  proof -
    have p: "0 \<le> p" "nat p < n" using ps by auto
    have "\<exists>pt. Deck_Unmask c e p ss = Inr pt \<and> CardIndexOf c pt (int n) = Inr (ord ! nat p)"
      if "mset ss = mset (position_scalars pls (nat p))" for ss
      using U [rule_format, OF p(2) that] p(1) by simp
    moreover have "FromIndex (int (ord ! nat p)) = Inr (?cs ! nat p)" using fi(1) [OF elems, of "ord ! nat p"] p len by simp
    ultimately show ?thesis using card_read [OF assms(1,2,4,5) _ D(4) i ps(2,1) js] by blast
  qed
  ultimately show ?thesis using D(1-3) len by (intro exI [of _ base] exI [of _ d] exI [of _ e] conjI exI [of _ ?cs]) auto
qed

definition seat_ex :: "nat list \<Rightarrow> nat hand_player" where
  "seat_ex e = \<lparr>hpSeat = 0, hpSeats = 2, hpDeckSize = 3, hpGlobal = Some 3, hpPerPosition = [Some 2, Some 5, Some 7],
     hpDeck = e, disclosed = (\<lambda>p. Map.empty), shuffleCommit = None, remaskCommit = None, peerShuffleCommit = Map.empty,
     peerRemaskCommit = Map.empty, inputDeck = Map.empty, pendingPerm = [1, 2, 0]\<rparr>"

theorem seats_read_the_same_cards_witness:
  "\<exists>e cs. length cs = 3 \<and> distinct cs
     \<and> Hand_Card small_curve 1 (hear small_curve [(1, reveal_of (seat_scalar players_ex) [1, 2] 1)] (seat_ex e)) = Inr (cs ! 1)"
proof -
  have ok: "list_all (player_ok small_curve 3) players_ex" by code_simp
  have n: "0 < (3::nat)" "(3::nat) \<le> 52" "3 < CurveN small_curve" by (simp_all add: small_curve_def)
  obtain e cs where cs: "length cs = 3" "distinct cs" and
    R: "\<forall>i < length players_ex. \<forall>h ps js p. seated players_ex 3 e i h \<and> (\<forall>q \<in> set ps. 0 \<le> q \<and> q < int 3) \<and> p \<in> set ps
               \<and> set js = {0..<int (length players_ex)} - {int i} \<longrightarrow>
               Hand_Card small_curve p (hear small_curve (map (\<lambda>j. (j, reveal_of (seat_scalar players_ex) ps j)) js) h) = Inr (cs ! nat p)"
    using seats_read_the_same_cards [OF small_laws n ok] by blast
  have "seated players_ex 3 e 0 (seat_ex e)" by (simp add: seated_def seat_ex_def players_ex_def)
  moreover have "set [1] = {0..<int (length players_ex)} - {int 0}" "0 < length players_ex" by (auto simp: players_ex_def)
  moreover have "\<forall>q \<in> set [1, 2]. 0 \<le> q \<and> q < int 3" "(1::int) \<in> set [1, 2]" by simp_all
  ultimately have "Hand_Card small_curve 1 (hear small_curve (map (\<lambda>j. (j, reveal_of (seat_scalar players_ex) [1, 2] j)) [1]) (seat_ex e)) = Inr (cs ! nat 1)"
    using R by blast
  with cs show ?thesis by auto
qed

section \<open>Commitments\<close>

datatype 'p hand_event = HPeerCommit int bytes bytes | HInput int "'p list" | HDisclose int "int list" "bytes list" | HSetDeck "'p list"

fun hand_event_step :: "'p curve \<Rightarrow> 'p hand_player \<Rightarrow> 'p hand_event \<Rightarrow> 'p hand_player" where
  "hand_event_step c h (HPeerCommit seat s r) = snd (RecordPeerCommitments seat s r h)"
| "hand_event_step c h (HInput seat d) = RecordInput seat d h"
| "hand_event_step c h (HDisclose seat ps ss) = snd (RecordDisclosure c seat ps ss h)"
| "hand_event_step c h (HSetDeck d) = snd (SetDeck d h)"

definition commits_ok :: "'p hand_player \<Rightarrow> bool" where
  "commits_ok h \<longleftrightarrow> (\<forall>s x. peerShuffleCommit h s = Some x \<longrightarrow> 0 \<le> s \<and> s < hpSeats h \<and> length x = CommitmentSize)
     \<and> dom (peerShuffleCommit h) = dom (peerRemaskCommit h)"

lemma record_loop_commits:
  "peerShuffleCommit (snd (record_loop c j ps bs h)) = peerShuffleCommit h
   \<and> peerRemaskCommit (snd (record_loop c j ps bs h)) = peerRemaskCommit h \<and> hpSeats (snd (record_loop c j ps bs h)) = hpSeats h"
  by (induction c j ps bs h rule: record_loop.induct) (auto split: sum.split)

lemma hand_event_commits:
  assumes "commits_ok h"
  shows "commits_ok (hand_event_step c h e) \<and> peerShuffleCommit h \<subseteq>\<^sub>m peerShuffleCommit (hand_event_step c h e)
     \<and> peerRemaskCommit h \<subseteq>\<^sub>m peerRemaskCommit (hand_event_step c h e)"
proof (cases e)
  case (HPeerCommit s x y)
  then show ?thesis using assms
    by (auto simp: RecordPeerCommitments_def commits_ok_def map_le_def split: option.splits)
next
  case (HInput s d)
  then show ?thesis using assms by (simp add: RecordInput_def commits_ok_def)
next
  case (HDisclose s ps ss)
  then show ?thesis using assms record_loop_commits [of c s ps ss h] by (auto simp: RecordDisclosure_def commits_ok_def)
next
  case (HSetDeck d)
  then show ?thesis using assms by (simp add: SetDeck_def commits_ok_def)
qed

lemma map_le_Some: "m \<subseteq>\<^sub>m m' \<Longrightarrow> m x = Some y \<Longrightarrow> m' x = Some y"
  by (metis domI map_le_def)

interpretation hand_players: machine "hand_event_step c" commits_ok for c
  by unfold_locales (use hand_event_commits in blast)

text \<open>
  commitments are final and binding. Once a seat's commitments are recorded, no later message changes
  them, so whatever opening of the shuffle the player later accepts from that seat hashes to what was recorded.
\<close>

theorem commitments_final:
  assumes "commits_ok h" "RecordPeerCommitments seat x y h = (None, h1)"
    and "VerifyPeerShuffle c H seat g perm claimed (run (hand_event_step c) h1 es) = None"
  shows "hash_fields H (shuffle_fields g perm) = x
     \<and> peerShuffleCommit (run (hand_event_step c) h1 es) seat = Some x
     \<and> peerRemaskCommit (run (hand_event_step c) h1 es) seat = Some y
     \<and> (\<exists>input. inputDeck (run (hand_event_step c) h1 es) seat = Some input \<and> ShuffleStep c input g perm = Inr claimed)"
proof -
  have h1: "commits_ok h1" "peerShuffleCommit h1 seat = Some x" "peerRemaskCommit h1 seat = Some y"
    using hand_event_commits [OF assms(1), of undefined "HPeerCommit seat x y"] assms(2)
    by (auto simp: RecordPeerCommitments_def split: if_splits)
  let ?P = "\<lambda>h. peerShuffleCommit h seat = Some x \<and> peerRemaskCommit h seat = Some y"
  have "?P (run (hand_event_step c) h1 es)"
  proof (rule hand_players.run_stable [where P = ?P, OF h1(1)])
    show "?P h1" using h1 by simp
    fix t :: "'a hand_player" and e assume "commits_ok t" "?P t"
    then show "?P (hand_event_step c t e)" using hand_event_commits [of t c e] by (auto intro: map_le_Some)
  qed
  then show ?thesis using assms(3)
    by (auto simp: VerifyPeerShuffle_def VerifyShuffle_iff split: option.splits)
qed

definition peer_commit :: bytes where
  "peer_commit = hash_fields tail_hash (shuffle_fields (Some 8) [0, 2, 1])"

lemma peer_commit_length: "length peer_commit = CommitmentSize"
  by (simp add: peer_commit_def hash_fields_def tail_hash_def CommitmentSize_def del: drop_append)

definition committed_ex :: "nat hand_player" where
  "committed_ex = snd (RecordPeerCommitments 1 peer_commit (replicate 32 0) (seat_ex []))"

lemma committed_ex: "RecordPeerCommitments 1 peer_commit (replicate 32 0) (seat_ex []) = (None, committed_ex)"
  by (simp add: committed_ex_def RecordPeerCommitments_def peer_commit_length) (simp add: seat_ex_def CommitmentSize_def)

lemma honest_pass: "VerifyShuffle small_curve tail_hash [9, 3, 6] [6, 4, 2] (Some 8) [0, 2, 1] peer_commit = None"
  unfolding VerifyShuffle_iff peer_commit_def by (intro conjI refl; code_simp)

lemma peers_of_committed_ex [simp]:
  "peerShuffleCommit committed_ex 1 = Some peer_commit"
  by (simp add: committed_ex_def RecordPeerCommitments_def peer_commit_length) (simp add: seat_ex_def CommitmentSize_def)

theorem commitments_final_witness:
  "VerifyPeerShuffle small_curve tail_hash 1 (Some 8) [0, 2, 1] [6, 4, 2] (run (hand_event_step small_curve) committed_ex [HInput 1 [9, 3, 6]]) = None
   \<and> hash_fields tail_hash (shuffle_fields (Some 8) [0, 2, 1]) = peer_commit"
proof -
  have ok: "commits_ok (seat_ex [])" by (simp add: commits_ok_def seat_ex_def)
  have V: "VerifyPeerShuffle small_curve tail_hash 1 (Some 8) [0, 2, 1] [6, 4, 2]
      (run (hand_event_step small_curve) committed_ex [HInput 1 [9, 3, 6]]) = None"
    by (simp add: VerifyPeerShuffle_def RecordInput_def honest_pass)
  from commitments_final [OF ok committed_ex V] V show ?thesis by blast
qed

text \<open>
  a player cannot keep both of a seat's inputs. \<open>inputDeck\<close> holds one deck per seat, and both verifications
  recompute on it: once the deck a seat was handed for remasking is recorded, the seat's honest shuffle,
  which verified before, is rejected as dishonest.
\<close>

theorem remask_input_voids_shuffle:
  "VerifyPeerShuffle small_curve tail_hash 1 (Some 8) [0, 2, 1] [6, 4, 2]
     (run (hand_event_step small_curve) committed_ex [HInput 1 [9, 3, 6]]) = None
   \<and> VerifyPeerShuffle small_curve tail_hash 1 (Some 8) [0, 2, 1] [6, 4, 2]
     (run (hand_event_step small_curve) committed_ex [HInput 1 [9, 3, 6], HInput 1 [4, 3, 1]]) \<noteq> None"
proof -
  have "ShuffleStep small_curve [4, 3, 1] (Some 8) [0, 2, 1] \<noteq> Inr [6, 4, 2]" by code_simp
  then have "VerifyShuffle small_curve tail_hash [4, 3, 1] [6, 4, 2] (Some 8) [0, 2, 1] peer_commit \<noteq> None"
    unfolding VerifyShuffle_iff by blast
  then show ?thesis by (simp add: VerifyPeerShuffle_def RecordInput_def honest_pass)
qed

end
