(* ===== verification/Wire.thy ===== *)
theory Wire
  imports Settle Deal_Proof
begin

text \<open>
  The wire contract of the substrate, \<^verbatim>\<open>internal/protocol/substrate/wire.go\<close>: the methods, the signed request
  and response, the messages their signatures cover, the originator check and the grant sets. A method is
  a string, as in the code. An error carries its code and what its message reports (\<open>reason\<close>); rendering a reason as
  text is \<open>fmt\<close>'s and a parameter \<open>render\<close> where the text is signed. Hex is Go's \<^verbatim>\<open>encoding/hex\<close>.
\<close>

section \<open>Hex\<close>

definition hex_digit :: "nat \<Rightarrow> char" where
  "hex_digit n = char_of (if n < 10 then 48 + n else 87 + n)"

definition hex_encode :: "bytes \<Rightarrow> string" where
  "hex_encode bs = concat (map (\<lambda>b. [hex_digit (unat b div 16), hex_digit (unat b mod 16)]) bs)"

definition hex_value :: "char \<Rightarrow> nat option" where
  "hex_value c =
     (let n = of_char c
      in if 48 \<le> n \<and> n \<le> 57 then Some (n - 48)
         else if 97 \<le> n \<and> n \<le> 102 then Some (n - 87)
         else if 65 \<le> n \<and> n \<le> 70 then Some (n - 55) else None)"

fun hex_decode :: "string \<Rightarrow> bytes option" where
  "hex_decode [] = Some []"
| "hex_decode [c] = None"
| "hex_decode (c # d # s) =
     (case (hex_value c, hex_value d, hex_decode s) of
        (Some h, Some l, Some bs) \<Rightarrow> Some (of_nat (16 * h + l) # bs)
      | _ \<Rightarrow> None)"

section \<open>Methods\<close>

definition Version :: string where "Version = ''brc100-substrate/1''"

type_synonym wire_method = string

definition MethodGetPublicKey :: wire_method where "MethodGetPublicKey = ''getPublicKey''"
definition MethodGetNetwork :: wire_method where "MethodGetNetwork = ''getNetwork''"
definition MethodCreateAction :: wire_method where "MethodCreateAction = ''createAction''"
definition MethodSignAction :: wire_method where "MethodSignAction = ''signAction''"
definition MethodInternalizeAction :: wire_method where "MethodInternalizeAction = ''internalizeAction''"
definition MethodListOutputs :: wire_method where "MethodListOutputs = ''listOutputs''"
definition MethodListActions :: wire_method where "MethodListActions = ''listActions''"
definition MethodDealCommit :: wire_method where "MethodDealCommit = ''dealCommit''"
definition MethodDealShuffle :: wire_method where "MethodDealShuffle = ''dealShuffle''"
definition MethodDealRemask :: wire_method where "MethodDealRemask = ''dealRemask''"
definition MethodDealReveal :: wire_method where "MethodDealReveal = ''dealReveal''"
definition MethodDealFinal :: wire_method where "MethodDealFinal = ''dealFinal''"
definition MethodDealCard :: wire_method where "MethodDealCard = ''dealCard''"
definition MethodSignRefund :: wire_method where "MethodSignRefund = ''signRefund''"
definition MethodRecordStake :: wire_method where "MethodRecordStake = ''recordStake''"
definition MethodSignPot :: wire_method where "MethodSignPot = ''signPot''"

lemmas method_names =
  MethodGetPublicKey_def MethodGetNetwork_def MethodCreateAction_def MethodSignAction_def MethodInternalizeAction_def
  MethodListOutputs_def MethodListActions_def MethodDealCommit_def MethodDealShuffle_def MethodDealRemask_def
  MethodDealReveal_def MethodDealFinal_def MethodDealCard_def MethodSignRefund_def MethodRecordStake_def MethodSignPot_def

definition Known :: "wire_method \<Rightarrow> bool" where
  "Known m \<longleftrightarrow> List.member
     [MethodGetPublicKey, MethodGetNetwork, MethodCreateAction, MethodSignAction, MethodInternalizeAction,
      MethodListOutputs, MethodListActions, MethodSignPot, MethodRecordStake, MethodSignRefund,
      MethodDealCommit, MethodDealShuffle, MethodDealRemask, MethodDealReveal, MethodDealFinal, MethodDealCard] m"

section \<open>Errors, requests and responses\<close>

datatype code = CodeBadRequest | CodeUnauthenticated | CodeForbidden | CodeUnknownMethod | CodeReplayed | CodeExpired
  | CodeDeclined | CodeRateLimited | CodeTooLarge | CodeInternal

fun code_text :: "code \<Rightarrow> string" where
  "code_text CodeBadRequest = ''bad_request''"
| "code_text CodeUnauthenticated = ''unauthenticated''"
| "code_text CodeForbidden = ''forbidden''"
| "code_text CodeUnknownMethod = ''unknown_method''"
| "code_text CodeReplayed = ''replayed''"
| "code_text CodeExpired = ''expired''"
| "code_text CodeDeclined = ''declined''"
| "code_text CodeRateLimited = ''rate_limited''"
| "code_text CodeTooLarge = ''too_large''"
| "code_text CodeInternal = ''internal''"

datatype originator_error = OriginatorMissing | OriginatorTooLong nat | OriginatorShape string | OriginatorNoDomain string

datatype reason = BadVersion string string | MethodNotServed wire_method | BadOriginator originator_error
  | NonceRequired | NoIdentityKey | NotProven | AudienceRequired | OtherAudience | OutsideWindow int
  | BadIdentityKey | SignatureNotHex | SignatureUnparseable | SignatureFalse
  | OnlyPost | NeedsTLS | BodyUnreadable | BodyTooLarge nat | NotJSON | TooManyRequests | AlreadyServed
  | NotPermitted wire_method | NoHandlerFor wire_method | ResultUnencodable | Said string

record wire_error =
  ErrCode :: code
  ErrReason :: reason

record request =
  RqVersion :: string
  RqMethod :: wire_method
  RqOriginator :: string
  RqParams :: bytes
  RqIdentityKey :: string
  RqNonce :: string
  RqTimestamp :: "64 word"
  RqAudience :: string
  RqSignature :: string

record response =
  RsVersion :: string
  RsRequestNonce :: string
  RsResult :: bytes
  RsError :: "wire_error option"
  RsIdentityKey :: string
  RsSignature :: string

section \<open>What a signature covers\<close>

definition writeUint64 :: "u64 \<Rightarrow> bytes" where
  "writeUint64 v = be_bytes 8 (unat v)"

definition writeField :: "bytes \<Rightarrow> bytes" where
  "writeField s = writeUint64 (of_nat (length s)) @ s"

definition request_preimage :: "request \<Rightarrow> bytes" where
  "request_preimage r =
     writeField (bytes_of ''brc100-substrate-request'') @ writeField (bytes_of (RqVersion r))
     @ writeField (bytes_of (RqMethod r)) @ writeField (bytes_of (RqOriginator r)) @ writeField (RqParams r)
     @ writeField (bytes_of (RqIdentityKey r)) @ writeField (bytes_of (RqNonce r)) @ writeUint64 (RqTimestamp r)
     @ writeField (bytes_of (RqAudience r))"

definition requestDigest :: "(bytes \<Rightarrow> bytes) \<Rightarrow> request \<Rightarrow> bytes" where
  "requestDigest H r = H (request_preimage r)"

definition response_preimage :: "(reason \<Rightarrow> string) \<Rightarrow> response \<Rightarrow> bytes" where
  "response_preimage render r =
     writeField (bytes_of ''brc100-substrate-response'') @ writeField (bytes_of (RsVersion r))
     @ writeField (bytes_of (RsRequestNonce r)) @ writeField (RsResult r)
     @ (case RsError r of
          Some e \<Rightarrow> writeField (bytes_of (code_text (ErrCode e))) @ writeField (bytes_of (render (ErrReason e)))
        | None \<Rightarrow> writeField [] @ writeField [])
     @ writeField (bytes_of (RsIdentityKey r))"

definition responseDigest :: "(bytes \<Rightarrow> bytes) \<Rightarrow> (reason \<Rightarrow> string) \<Rightarrow> response \<Rightarrow> bytes" where
  "responseDigest H render r = H (response_preimage render r)"

section \<open>Originators and grants\<close>

definition ValidateOriginator :: "string \<Rightarrow> originator_error option" where
  "ValidateOriginator o' =
     (if o' = '''' then Some OriginatorMissing
      else if length o' > 255 then Some (OriginatorTooLong (length o'))
      else if list_ex (List.member [CHR '' '', CHR 0x09, CHR 0x0D, CHR 0x0A, CHR ''/'', CHR 0x5C, CHR '':'']) o'
      then Some (OriginatorShape o')
      else if \<not> List.member o' (CHR ''.'') then Some (OriginatorNoDomain o')
      else None)"

text \<open>A grant set is the list of the keys of its map, without repetitions; the zero value has none.\<close>

type_synonym grants = "wire_method list"

fun grant_each :: "wire_method list \<Rightarrow> grants \<Rightarrow> (wire_method, grants) res" where
  "grant_each [] g = Inr g"
| "grant_each (m # ms) g = (if \<not> Known m then Inl m else grant_each ms (List.insert m g))"

definition NewGrants :: "wire_method list \<Rightarrow> (wire_method, grants) res" where
  "NewGrants ms = grant_each ms []"

definition Allows :: "grants \<Rightarrow> wire_method \<Rightarrow> bool" where
  "Allows g m \<longleftrightarrow> List.member g m"

definition Grants_Methods :: "grants \<Rightarrow> wire_method list" where
  "Grants_Methods g = sort g"

definition TableGrants :: "grants option" where
  "TableGrants =
     (case NewGrants [MethodGetPublicKey, MethodGetNetwork, MethodSignPot, MethodSignRefund, MethodInternalizeAction,
                      MethodDealCommit, MethodDealShuffle, MethodDealRemask, MethodDealReveal, MethodDealFinal, MethodDealCard]
      of Inl e \<Rightarrow> None | Inr g \<Rightarrow> Some g)"

definition OwnerGrants :: "grants option" where
  "OwnerGrants =
     (case NewGrants [MethodGetPublicKey, MethodGetNetwork, MethodCreateAction, MethodSignAction, MethodInternalizeAction,
                      MethodListOutputs, MethodListActions, MethodSignPot, MethodRecordStake, MethodSignRefund,
                      MethodDealCommit, MethodDealShuffle, MethodDealRemask, MethodDealReveal, MethodDealFinal, MethodDealCard]
      of Inl e \<Rightarrow> None | Inr g \<Rightarrow> Some g)"

section \<open>The encodings\<close>

lemma of_char_hex_digit: "n < 16 \<Longrightarrow> of_char (hex_digit n) = (if n < 10 then 48 + n else 87 + n)"
  by (auto simp: hex_digit_def)

lemma hex_value_digit [simp]: "n < 16 \<Longrightarrow> hex_value (hex_digit n) = Some n"
  by (auto simp: hex_value_def of_char_hex_digit Let_def)

lemma hex_decode_encode [simp]: "hex_decode (hex_encode bs) = Some bs"
proof (induction bs)
  case (Cons b bs)
  have "unat b < 256" using unsigned_less [of b] by simp
  then have d: "unat b div 16 < 16" "unat b mod 16 < 16" by simp_all
  have "of_nat (16 * (unat b div 16) + unat b mod 16) = b" by simp
  with Cons d show ?case by (simp add: hex_encode_def del: of_nat_add of_nat_mult of_nat_numeral)
qed (simp add: hex_encode_def)

lemma hex_encode_Nil_iff [simp]: "hex_encode bs = '''' \<longleftrightarrow> bs = []"
  by (cases bs) (auto simp: hex_encode_def)

lemma bytes_of_inj: "bytes_of s = bytes_of t \<longleftrightarrow> s = t"
proof -
  have "inj (of_char :: char \<Rightarrow> byte)"
  proof (rule injI)
    fix c d :: char
    assume "of_char c = (of_char d :: byte)"
    then have "unat (of_nat (of_char c) :: byte) = unat (of_nat (of_char d) :: byte)"
      by (simp only: of_nat_of_char)
    then show "c = d" by (simp add: unat_of_nat)
  qed
  then show ?thesis by (auto simp: bytes_of_def inj_map_eq_map)
qed

lemma length_bytes_of [simp]: "length (bytes_of s) = length s"
  by (simp add: bytes_of_def)

lemma length_writeUint64 [simp]: "length (writeUint64 v) = 8"
  by (simp add: writeUint64_def)

lemma writeUint64_append_inj: "writeUint64 v @ x = writeUint64 w @ y \<longleftrightarrow> v = w \<and> x = y"
proof -
  have "unat u < 256 ^ 8" for u :: u64 using unsigned_less [of u] by simp
  then have "writeUint64 v = writeUint64 w \<Longrightarrow> v = w"
    using be_bytes_inj [of 8 "unat v" "unat w"] by (simp add: writeUint64_def word_unat_eq_iff)
  then show ?thesis by auto
qed

lemma writeField_append_inj:
  assumes "length a < 2 ^ 64" and "length b < 2 ^ 64"
  shows "writeField a @ x = writeField b @ y \<longleftrightarrow> a = b \<and> x = y"
proof -
  have "length a = length b" if "(of_nat (length a) :: u64) = of_nat (length b)"
    using arg_cong [OF that, of unat] assms by (simp add: unat_of_nat)
  then show ?thesis by (auto simp: writeField_def writeUint64_append_inj)
qed

end
