(* ===== verification/Substrate.thy ===== *)
theory Substrate
  imports Wire
begin

text \<open>
  Authentication and service: \<^verbatim>\<open>internal/protocol/substrate/auth.go\<close> and \<^verbatim>\<open>server.go\<close>. A server is a record; its
  handlers act on the state \<open>'w\<close> of the wallet behind it. One call of \<open>ServeHTTP\<close> is one step, with the clock \<open>now\<close> it
  reads as an argument: every piece of shared state it touches is touched once, under a lock, so a run of steps is an
  interleaving of the calls. Times and durations are nanoseconds, durations 64 bits wide: \<open>Sub\<close> saturates and negation wraps,
  as in Go's package time. The field \<open>served\<close> is not in the code: it lists the handler calls made.
\<close>

section \<open>Keys\<close>

record ('s, 'k, 'p) key_lib = "('s, 'k, 'p) signer" +
  PublicKeyFromString :: "string \<Rightarrow> 'k option"
  Sum256 :: "bytes \<Rightarrow> bytes"

section \<open>Durations\<close>

definition Second :: int where "Second = 1000000000"
definition MaxClockSkew :: int where "MaxClockSkew = 120 * Second"
definition minDuration :: int where "minDuration = - (2 ^ 63)"
definition maxDuration :: int where "maxDuration = 2 ^ 63 - 1"

definition time_Sub :: "int \<Rightarrow> int \<Rightarrow> int" where
  "time_Sub t u = max minDuration (min maxDuration (t - u))"

definition duration_neg :: "int \<Rightarrow> int" where
  "duration_neg d = (if d = minDuration then minDuration else - d)"

text \<open>\<open>time.Unix\<close> keeps the seconds since the year 1 in 64 bits.\<close>

definition unixToInternal :: int where "unixToInternal = 62135596800"

definition time_Unix :: "64 word \<Rightarrow> int" where
  "time_Unix ts = (sint (ts + of_int unixToInternal) - unixToInternal) * Second"

section \<open>Requests and responses\<close>

datatype auth_error = NothingToSign | NoKeyToSign | NoAudience | RandomFailed | SignatureFailed
  | ResponseVersion string | ResponseNonce string string | ResponseFrom string string | ResponseUnsigned
  | ResponseKey | ResponseNotHex | ResponseUnparseable | ResponseFalse

definition NewNonce :: "bytes option \<Rightarrow> (auth_error, string) res" where
  "NewNonce rnd = (case rnd of None \<Rightarrow> Inl RandomFailed | Some b \<Rightarrow> Inr (hex_encode b))"

definition SignRequest ::
  "('s, 'k, 'p) key_lib \<Rightarrow> bytes option \<Rightarrow> 64 word \<Rightarrow> request option \<Rightarrow> 'p option \<Rightarrow> string \<Rightarrow> (auth_error, request) res" where
  "SignRequest kl rnd unixNow r caller audience =
     (case r of
        None \<Rightarrow> Inl NothingToSign
      | Some r \<Rightarrow>
          (case caller of
             None \<Rightarrow> Inl NoKeyToSign
           | Some k \<Rightarrow>
               if audience = '''' then Inl NoAudience
               else case (if RqNonce r = '''' then NewNonce rnd else Inr (RqNonce r)) of
                      Inl e \<Rightarrow> Inl e
                    | Inr nonce \<Rightarrow>
                        let r' = r\<lparr>RqVersion := Version, RqIdentityKey := DERHex kl (PubKey kl k), RqAudience := audience,
                                   RqNonce := nonce,
                                   RqTimestamp := (if RqTimestamp r = 0 then unixNow else RqTimestamp r)\<rparr>
                        in case Sign kl k (requestDigest (Sum256 kl) r') of
                             None \<Rightarrow> Inl SignatureFailed
                           | Some sig \<Rightarrow> Inr (r'\<lparr>RqSignature := hex_encode sig\<rparr>)))"

definition SignResponse ::
  "('s, 'k, 'p) key_lib \<Rightarrow> (reason \<Rightarrow> string) \<Rightarrow> response option \<Rightarrow> 'p option \<Rightarrow> (auth_error, response) res" where
  "SignResponse kl render r wallet =
     (case r of
        None \<Rightarrow> Inl NothingToSign
      | Some r \<Rightarrow>
          (case wallet of
             None \<Rightarrow> Inl NoKeyToSign
           | Some k \<Rightarrow>
               let r' = r\<lparr>RsVersion := Version, RsIdentityKey := DERHex kl (PubKey kl k)\<rparr>
               in case Sign kl k (responseDigest (Sum256 kl) render r') of
                    None \<Rightarrow> Inl SignatureFailed
                  | Some sig \<Rightarrow> Inr (r'\<lparr>RsSignature := hex_encode sig\<rparr>)))"

definition werr :: "code \<Rightarrow> reason \<Rightarrow> wire_error" where
  "werr c m = \<lparr>ErrCode = c, ErrReason = m\<rparr>"

definition VerifyRequest ::
  "('s, 'k, 'p) key_lib \<Rightarrow> request \<Rightarrow> int \<Rightarrow> string \<Rightarrow> (wire_error, 'k) res" where
  "VerifyRequest kl r now audience =
     (if RqVersion r \<noteq> Version then Inl (werr CodeBadRequest (BadVersion (RqVersion r) Version))
      else if \<not> Known (RqMethod r) then Inl (werr CodeUnknownMethod (MethodNotServed (RqMethod r)))
      else case ValidateOriginator (RqOriginator r) of
             Some e \<Rightarrow> Inl (werr CodeBadRequest (BadOriginator e))
           | None \<Rightarrow>
      if RqNonce r = '''' then Inl (werr CodeBadRequest NonceRequired)
      else if RqIdentityKey r = '''' then Inl (werr CodeUnauthenticated NoIdentityKey)
      else if RqSignature r = '''' then Inl (werr CodeUnauthenticated NotProven)
      else if RqAudience r = '''' then Inl (werr CodeBadRequest AudienceRequired)
      else if audience \<noteq> '''' \<and> RqAudience r \<noteq> audience then Inl (werr CodeUnauthenticated OtherAudience)
      else let skew = time_Sub now (time_Unix (RqTimestamp r));
               skew = (if skew < 0 then duration_neg skew else skew)
           in if skew > MaxClockSkew then Inl (werr CodeExpired (OutsideWindow skew))
              else case PublicKeyFromString kl (RqIdentityKey r) of
                     None \<Rightarrow> Inl (werr CodeUnauthenticated BadIdentityKey)
                   | Some pub \<Rightarrow>
                       (case hex_decode (RqSignature r) of
                          None \<Rightarrow> Inl (werr CodeUnauthenticated SignatureNotHex)
                        | Some raw \<Rightarrow>
                            (case ParseDER kl raw of
                               None \<Rightarrow> Inl (werr CodeUnauthenticated SignatureUnparseable)
                             | Some sig \<Rightarrow>
                                 if \<not> VerifySig kl sig (requestDigest (Sum256 kl) r) pub
                                 then Inl (werr CodeUnauthenticated SignatureFalse) else Inr pub)))"

definition VerifyResponse ::
  "('s, 'k, 'p) key_lib \<Rightarrow> (reason \<Rightarrow> string) \<Rightarrow> response \<Rightarrow> string \<Rightarrow> string \<Rightarrow> auth_error option" where
  "VerifyResponse kl render r expectWallet requestNonce =
     (if RsVersion r \<noteq> Version then Some (ResponseVersion (RsVersion r))
      else if RsRequestNonce r \<noteq> requestNonce then Some (ResponseNonce (RsRequestNonce r) requestNonce)
      else if expectWallet \<noteq> '''' \<and> RsIdentityKey r \<noteq> expectWallet then Some (ResponseFrom (RsIdentityKey r) expectWallet)
      else if RsSignature r = '''' then Some ResponseUnsigned
      else case PublicKeyFromString kl (RsIdentityKey r) of
             None \<Rightarrow> Some ResponseKey
           | Some pub \<Rightarrow>
               (case hex_decode (RsSignature r) of
                  None \<Rightarrow> Some ResponseNotHex
                | Some raw \<Rightarrow>
                    (case ParseDER kl raw of
                       None \<Rightarrow> Some ResponseUnparseable
                     | Some sig \<Rightarrow>
                         if \<not> VerifySig kl sig (responseDigest (Sum256 kl) render r) pub then Some ResponseFalse else None)))"

section \<open>The nonce cache and the rate limiter\<close>

record nonce_cache =
  nonces_seen :: "(string \<times> int) list"
  nonce_ttl :: int
  nonce_limit :: nat

definition NewNonceCache :: nonce_cache where
  "NewNonceCache = \<lparr>nonces_seen = [], nonce_ttl = MaxClockSkew * 2, nonce_limit = 100000\<rparr>"

definition sweep :: "nonce_cache \<Rightarrow> int \<Rightarrow> nonce_cache" where
  "sweep c now = c\<lparr>nonces_seen := filter (\<lambda>(k, t). \<not> time_Sub now t > nonce_ttl c) (nonces_seen c)\<rparr>"

definition Use :: "nonce_cache \<Rightarrow> string \<Rightarrow> int \<Rightarrow> bool \<times> nonce_cache" where
  "Use c nonce now =
     (if nonce = '''' then (False, c)
      else let c = sweep c now
        in if map_of (nonces_seen c) nonce \<noteq> None then (False, c)
           else if length (nonces_seen c) \<ge> nonce_limit c then (False, c)
           else (True, c\<lparr>nonces_seen := (nonce, now) # nonces_seen c\<rparr>))"

definition Nonces_Len :: "nonce_cache \<Rightarrow> nat" where
  "Nonces_Len c = length (nonces_seen c)"

record rate_limiter =
  rate_limit :: int
  rate_window :: int
  rate_hits :: "string \<Rightarrow> int list"

definition newRateLimiter :: "int \<Rightarrow> int \<Rightarrow> rate_limiter" where
  "newRateLimiter lim w = \<lparr>rate_limit = lim, rate_window = w, rate_hits = (\<lambda>_. [])\<rparr>"

definition allow :: "rate_limiter \<Rightarrow> string \<Rightarrow> int \<Rightarrow> bool \<times> rate_limiter" where
  "allow l key now =
     (let cutoff = now - rate_window l;
          kept = filter (\<lambda>t. t > cutoff) (rate_hits l key)
      in if int (length kept) \<ge> rate_limit l then (False, l\<lparr>rate_hits := (rate_hits l)(key := kept)\<rparr>)
         else (True, l\<lparr>rate_hits := (rate_hits l)(key := kept @ [now])\<rparr>))"

section \<open>The server\<close>

definition MaxBodyBytes :: nat where "MaxBodyBytes = 1048576"

record signing_output =
  SoSatoshis :: u64
  SoLockingScript :: string
  SoDescription :: string

record signing_request =
  SqHandID :: string
  SqPurpose :: string
  SqPotOutpoint :: string
  SqPotSatoshis :: u64
  SqOutputs :: "signing_output list"
  SqFeeSatoshis :: u64
  SqRawTxHex :: string

text \<open>An error a handler or an approver returns is the package's own, or any other, with its text.\<close>

datatype any_error = WireErr wire_error | OtherErr string

text \<open>What a handler returns: an error, nothing (a nil result), or a value with its JSON, if it has one.\<close>

type_synonym handler_result = "any_error + bytes option option"
type_synonym ('w, 'k) handler = "'k option \<Rightarrow> bytes \<Rightarrow> 'w \<Rightarrow> 'w \<times> handler_result"
type_synonym 'w approver = "signing_request \<Rightarrow> 'w \<Rightarrow> 'w \<times> any_error option"

record ('w, 'k, 'p) server =
  srvWallet :: 'p
  srvAudience :: string
  srvNonces :: nonce_cache
  srvLimiter :: rate_limiter
  srvApprover :: "'w approver"
  srvRequireTLS :: bool
  srvOrigins :: "string list"
  srvGrants :: "string \<rightharpoonup> grants"
  srvHandlers :: "wire_method \<rightharpoonup> ('w, 'k) handler"
  served :: "('k \<times> request \<times> int) list"

record ('w, 'p) server_config =
  CfgWallet :: "'p option"
  CfgApprover :: "'w approver option"
  CfgRequireTLS :: bool
  CfgRequestsPerMinute :: int
  CfgAllowedOrigins :: "string list"

datatype server_error = WalletKeyRequired | ApproverRequired | GrantNeedsKey | GrantBadKey string | ServeUnknown wire_method
  | HandlerRequired

definition NewServer :: "('s, 'k, 'p) key_lib \<Rightarrow> ('w, 'p) server_config \<Rightarrow> (server_error, ('w, 'k, 'p) server) res" where
  "NewServer kl cfg =
     (case CfgWallet cfg of
        None \<Rightarrow> Inl WalletKeyRequired
      | Some w \<Rightarrow>
          (case CfgApprover cfg of
             None \<Rightarrow> Inl ApproverRequired
           | Some a \<Rightarrow>
               let rpm = (if CfgRequestsPerMinute cfg \<le> 0 then 120 else CfgRequestsPerMinute cfg)
               in Inr \<lparr>srvWallet = w, srvAudience = DERHex kl (PubKey kl w), srvNonces = NewNonceCache,
                       srvLimiter = newRateLimiter rpm (60 * Second), srvApprover = a,
                       srvRequireTLS = CfgRequireTLS cfg,
                       srvOrigins = map (\<lambda>o'. ToLower (TrimSpace o')) (CfgAllowedOrigins cfg),
                       srvGrants = Map.empty, srvHandlers = Map.empty, served = []\<rparr>))"

definition Grant ::
  "('s, 'k, 'p) key_lib \<Rightarrow> string \<Rightarrow> grants \<Rightarrow> ('w, 'k, 'p) server \<Rightarrow> (server_error, ('w, 'k, 'p) server) outcome" where
  "Grant kl key g s =
     (if key = '''' then (Some GrantNeedsKey, s)
      else if PublicKeyFromString kl key = None then (Some (GrantBadKey key), s)
      else (None, s\<lparr>srvGrants := (srvGrants s)(ToLower key \<mapsto> g)\<rparr>))"

definition Revoke :: "string \<Rightarrow> ('w, 'k, 'p) server \<Rightarrow> ('w, 'k, 'p) server" where
  "Revoke key s = s\<lparr>srvGrants := (srvGrants s)(ToLower key := None)\<rparr>"

definition HandleMethod ::
  "wire_method \<Rightarrow> ('w, 'k) handler option \<Rightarrow> ('w, 'k, 'p) server \<Rightarrow> (server_error, ('w, 'k, 'p) server) outcome" where
  "HandleMethod m h s =
     (if \<not> Known m then (Some (ServeUnknown m), s)
      else case h of
             None \<Rightarrow> (Some HandlerRequired, s)
           | Some f \<Rightarrow> (None, s\<lparr>srvHandlers := (srvHandlers s)(m \<mapsto> f)\<rparr>))"

definition Server_Approve :: "('w, 'k, 'p) server \<Rightarrow> signing_request \<Rightarrow> 'w \<Rightarrow> 'w \<times> any_error option" where
  "Server_Approve s req w = srvApprover s req w"

fun statusFor :: "code \<Rightarrow> nat" where
  "statusFor CodeBadRequest = 400"
| "statusFor CodeUnauthenticated = 401"
| "statusFor CodeExpired = 401"
| "statusFor CodeForbidden = 403"
| "statusFor CodeDeclined = 403"
| "statusFor CodeUnknownMethod = 501"
| "statusFor CodeReplayed = 409"
| "statusFor CodeRateLimited = 429"
| "statusFor CodeTooLarge = 413"
| "statusFor CodeInternal = 500"

text \<open>What the server reads of an HTTP request, and what it writes. \<open>HBody\<close> is what the body's reader yields, if no error.\<close>

record http_request =
  HOrigin :: string
  HMethod :: string
  HTLS :: bool
  HBody :: "bytes option"

datatype http_reply = OriginRefused | Preflight | NoReply | Reply nat response

record ('s, 'k, 'p) wire_lib = "('s, 'k, 'p) key_lib" +
  UnmarshalRequest :: "bytes \<Rightarrow> request option"
  MarshalResponse :: "response \<Rightarrow> bytes option"
  Render :: "reason \<Rightarrow> string"

definition send_response :: "('s, 'k, 'p) wire_lib \<Rightarrow> 'p \<Rightarrow> response \<Rightarrow> nat \<Rightarrow> http_reply" where
  "send_response wl w resp status =
     (case SignResponse (key_lib.truncate wl) (Render wl) (Some resp) (Some w) of
        Inl e \<Rightarrow> NoReply
      | Inr r \<Rightarrow> (case MarshalResponse wl r of None \<Rightarrow> NoReply | Some b \<Rightarrow> Reply status r))"

definition plain_response :: "string \<Rightarrow> bytes \<Rightarrow> wire_error option \<Rightarrow> response" where
  "plain_response nonce result err =
     \<lparr>RsVersion = '''', RsRequestNonce = nonce, RsResult = result, RsError = err, RsIdentityKey = '''', RsSignature = ''''\<rparr>"

definition fail_response :: "('s, 'k, 'p) wire_lib \<Rightarrow> 'p \<Rightarrow> string \<Rightarrow> wire_error \<Rightarrow> nat \<Rightarrow> http_reply" where
  "fail_response wl w nonce e status = send_response wl w (plain_response nonce [] (Some e)) status"

text \<open>The checks before authentication, in order: the reply that ends the call, or the decoded request.\<close>

definition receive_request :: "('s, 'k, 'p) wire_lib \<Rightarrow> ('w, 'k, 'p) server \<Rightarrow> http_request \<Rightarrow> http_reply + request" where
  "receive_request wl s r =
     (if ToLower (HOrigin r) \<noteq> '''' \<and> \<not> List.member (srvOrigins s) (ToLower (HOrigin r)) then Inl OriginRefused
      else if HMethod r = ''OPTIONS'' then Inl Preflight
      else if HMethod r \<noteq> ''POST'' then Inl (fail_response wl (srvWallet s) '''' (werr CodeBadRequest OnlyPost) 405)
      else if srvRequireTLS s \<and> \<not> HTLS r then Inl (fail_response wl (srvWallet s) '''' (werr CodeBadRequest NeedsTLS) 400)
      else case HBody r of
             None \<Rightarrow> Inl (fail_response wl (srvWallet s) '''' (werr CodeBadRequest BodyUnreadable) 400)
           | Some body \<Rightarrow>
               if length (take (MaxBodyBytes + 1) body) > MaxBodyBytes
               then Inl (fail_response wl (srvWallet s) '''' (werr CodeTooLarge (BodyTooLarge MaxBodyBytes)) 413)
               else case UnmarshalRequest wl body of
                      None \<Rightarrow> Inl (fail_response wl (srvWallet s) '''' (werr CodeBadRequest NotJSON) 400)
                    | Some req \<Rightarrow> Inr req)"

definition handler_reply :: "('s, 'k, 'p) wire_lib \<Rightarrow> 'p \<Rightarrow> string \<Rightarrow> handler_result \<Rightarrow> http_reply" where
  "handler_reply wl w nonce result =
     (case result of
        Inl (WireErr se) \<Rightarrow> fail_response wl w nonce se (statusFor (ErrCode se))
      | Inl (OtherErr m) \<Rightarrow> fail_response wl w nonce (werr CodeInternal (Said m)) 500
      | Inr (Some None) \<Rightarrow> fail_response wl w nonce (werr CodeInternal ResultUnencodable) 500
      | Inr (Some (Some encoded)) \<Rightarrow> send_response wl w (plain_response nonce encoded None) 200
      | Inr None \<Rightarrow> send_response wl w (plain_response nonce [] None) 200)"

definition ServeHTTP ::
  "('s, 'k, 'p) wire_lib \<Rightarrow> int \<Rightarrow> http_request \<Rightarrow> ('w, 'k, 'p) server \<times> 'w \<Rightarrow> http_reply \<times> ('w, 'k, 'p) server \<times> 'w" where
  "ServeHTTP wl now r sw =
     (let (s, w) = sw; fail_with = fail_response wl (srvWallet s)
      in case receive_request wl s r of
           Inl reply \<Rightarrow> (reply, s, w)
         | Inr req \<Rightarrow>
             (case VerifyRequest (key_lib.truncate wl) req now (srvAudience s) of
                Inl se \<Rightarrow> (fail_with (RqNonce req) se (statusFor (ErrCode se)), s, w)
              | Inr caller \<Rightarrow>
                  let callerKey = ToLower (DERHex wl caller);
                      (permitted, l) = allow (srvLimiter s) callerKey now; s = s\<lparr>srvLimiter := l\<rparr>
                  in if \<not> permitted then (fail_with (RqNonce req) (werr CodeRateLimited TooManyRequests) 429, s, w)
                     else let (fresh, c) = Use (srvNonces s) (RqNonce req) now; s = s\<lparr>srvNonces := c\<rparr>
                       in if \<not> fresh then (fail_with (RqNonce req) (werr CodeReplayed AlreadyServed) 409, s, w)
                          else if (case srvGrants s callerKey of None \<Rightarrow> True | Some g \<Rightarrow> \<not> Allows g (RqMethod req))
                          then (fail_with (RqNonce req) (werr CodeForbidden (NotPermitted (RqMethod req))) 403, s, w)
                          else case srvHandlers s (RqMethod req) of
                                 None \<Rightarrow> (fail_with (RqNonce req) (werr CodeUnknownMethod (NoHandlerFor (RqMethod req))) 501, s, w)
                               | Some h \<Rightarrow>
                                   let s = s\<lparr>served := served s @ [(caller, req, now)]\<rparr>;
                                       (w', result) = h (Some caller) (RqParams req) w
                                   in (handler_reply wl (srvWallet s) (RqNonce req) result, s, w')))"

end
