(* ===== verification/Agent.thy ===== *)
theory Agent
  imports Substrate Hand_Player
begin

text \<open>
  One player's agent, \<^verbatim>\<open>internal/agent\<close>: \<^verbatim>\<open>agent.go\<close>, \<^verbatim>\<open>stake.go\<close>, \<^verbatim>\<open>refund.go\<close> and \<^verbatim>\<open>session.go\<close> (\<^verbatim>\<open>deal.go\<close> is in
  \<open>Agent_Deal\<close>). The agent is the state the substrate's handlers act on: its stakes, its deal secrets, and a part \<open>'a\<close> for
  what the player supplies, the wallet and the approver. The JSON of parameters and results, the SDK's transactions and
  scripts, BRC-29 derivation and the wallet are fields of \<open>agent_lib\<close>; the texts of errors from other packages are rendered by
  its \<open>Text\<close> fields. Base 64 is Go's \<^verbatim>\<open>encoding/base64\<close>.
\<close>

section \<open>Base 64\<close>

definition base64_value :: "char \<Rightarrow> nat option" where
  "base64_value c =
     (let n = of_char c
      in if 65 \<le> n \<and> n \<le> 90 then Some (n - 65)
         else if 97 \<le> n \<and> n \<le> 122 then Some (n - 71)
         else if 48 \<le> n \<and> n \<le> 57 then Some (n + 4)
         else if c = CHR ''+'' then Some 62 else if c = CHR ''/'' then Some 63 else None)"

fun base64_groups :: "string \<Rightarrow> bytes option" where
  "base64_groups [] = Some []"
| "base64_groups (a # b # c # d # s) =
     (case (base64_value a, base64_value b) of
        (Some x, Some y) \<Rightarrow>
          if c = CHR ''='' then (if d = CHR ''='' \<and> s = [] then Some [of_nat (4 * x + y div 16)] else None)
          else (case base64_value c of
                  None \<Rightarrow> None
                | Some z \<Rightarrow>
                    if d = CHR ''='' then (if s = [] then Some [of_nat (4 * x + y div 16), of_nat (16 * (y mod 16) + z div 4)] else None)
                    else (case (base64_value d, base64_groups s) of
                            (Some w, Some bs) \<Rightarrow> Some (of_nat (4 * x + y div 16) # of_nat (16 * (y mod 16) + z div 4)
                                                       # of_nat (64 * (z mod 4) + w) # bs)
                          | _ \<Rightarrow> None))
      | _ \<Rightarrow> None)"
| "base64_groups s = None"

definition base64_decode :: "string \<Rightarrow> bytes option" where
  "base64_decode s = base64_groups (filter (\<lambda>c. c \<noteq> CHR 0x0A \<and> c \<noteq> CHR 0x0D) s)"

section \<open>State\<close>

record stake =
  StHandID :: string
  StPotTxid :: string
  StPotVout :: u32
  StPotSatoshis :: u64
  StSeat :: int
  StExpectation :: expectation
  StRefundHeld :: bool
  StRefundTxHex :: string

record 'pt deal_secrets =
  dsDeckSize :: int
  dsGlobal :: scalar
  dsPerm :: "int list"
  dsPerPosition :: "scalar list"
  dsShuffleCommit :: bytes
  dsRemaskCommit :: bytes
  dsDeck :: "'pt list"
  dsSeats :: int

record ('p, 'pt, 'a) agent =
  agPriv :: 'p
  agIdentity :: string
  agOriginator :: string
  agStakes :: "string \<rightharpoonup> stake"
  agDeals :: "string \<rightharpoonup> 'pt deal_secrets"
  agPlayer :: 'a

section \<open>Parameters and results\<close>

record sign_pot_params =
  SpHandID :: string
  SpRawTxHex :: string
  SpPotInput :: int

record stake_payout =
  RpRecipientKey :: string
  RpSatoshis :: u64
  RpPrefix :: string
  RpSuffix :: string

record record_stake_params =
  RsHandID :: string
  RsPotTxid :: string
  RsPotVout :: u32
  RsPotSatoshis :: u64
  RsPotScriptHex :: string
  RsSeat :: int
  RsSenderKey :: string
  RsPayouts :: "stake_payout list"
  RsMaxFee :: u64
  RsRefundTxHex :: string

record sign_refund_params =
  SrHandID :: string
  SrRawTxHex :: string
  SrPotInput :: int
  SrPotTxid :: string
  SrPotVout :: u32
  SrPotSatoshis :: u64
  SrPotScriptHex :: string
  SrSeat :: int
  SrBalances :: "(string \<times> u64) list"
  SrMaxLockHeight :: u32
  SrBeneficiary :: string
  SrSeats :: "string list"
  SrMaxFee :: u64

record internalize_params =
  IpBEEFHex :: string
  IpOutputIndex :: u32
  IpPrefix :: string
  IpSuffix :: string
  IpSender :: string
  IpDescription :: string

record 'k internalize_args =
  IaTx :: bytes
  IaDescription :: string
  IaLabels :: "string list"
  IaOutputIndex :: u32
  IaPrefix :: bytes
  IaSuffix :: bytes
  IaSender :: 'k

datatype agent_result = ResKey string | ResNetwork string | ResSignature int string | ResStake amounts | ResAccepted bool
  | ResCommit string string | ResDeck "string list" | ResReveal "int list" "string list" | ResOk | ResCard string

record ('s, 'k, 'p, 'a) agent_lib = "('s, 'k, 'p) wire_lib" +
  AgSdk :: "('s, 'k) sdk"
  ParseTx :: "string \<Rightarrow> 's transaction option"
  ScriptBytes :: "'s \<Rightarrow> bytes"
  LockForSelf :: "'k \<Rightarrow> string \<Rightarrow> string \<Rightarrow> 'p \<Rightarrow> 's option"
  KeyFromBytes :: "bytes \<Rightarrow> 'p option"
  CurveOrder :: nat
  WalletNetwork :: "string \<Rightarrow> 'a \<Rightarrow> 'a \<times> (string + string)"
  WalletInternalize :: "'k internalize_args \<Rightarrow> string \<Rightarrow> 'a \<Rightarrow> 'a \<times> (string + bool)"
  InternalMain :: string
  InternalTest :: string
  InternalTTN :: string
  InternalTSTN :: string
  DecSignPot :: "bytes \<Rightarrow> sign_pot_params option"
  DecRecordStake :: "bytes \<Rightarrow> record_stake_params option"
  DecSignRefund :: "bytes \<Rightarrow> sign_refund_params option"
  DecInternalize :: "bytes \<Rightarrow> internalize_params option"
  EncResult :: "agent_result \<Rightarrow> bytes option"
  Quote :: "string \<Rightarrow> string"
  CosignText :: "cosign_error \<Rightarrow> string"
  SettleText :: "settle_error \<Rightarrow> string"

abbreviation key_lib_of :: "('s, 'k, 'p, 'a) agent_lib \<Rightarrow> ('s, 'k, 'p) key_lib" where
  "key_lib_of lib \<equiv> key_lib.truncate lib"

abbreviation signer_of :: "('s, 'k, 'p, 'a) agent_lib \<Rightarrow> ('s, 'k, 'p) signer" where
  "signer_of lib \<equiv> signer.truncate lib"

type_synonym agent_answer = "any_error + agent_result"

definition refuse :: "code \<Rightarrow> string \<Rightarrow> any_error + 'b" where
  "refuse c m = Inl (WireErr (werr c (Said m)))"

section \<open>The agent and its stakes\<close>

definition short_key :: "string \<Rightarrow> string" where
  "short_key key = (if length key \<le> 12 then key else take 12 key)"

definition agent_identity :: "('s, 'k, 'p, 'a) agent_lib \<Rightarrow> 'p \<Rightarrow> string" where
  "agent_identity lib priv = DERHex lib (PubKey lib priv)"

definition RecordStake :: "stake \<Rightarrow> ('p, 'pt, 'a) agent \<Rightarrow> (string, ('p, 'pt, 'a) agent) outcome" where
  "RecordStake s a =
     (if StHandID s = '''' then (Some ''agent: a stake needs a hand id'', a)
      else if StPotTxid s = '''' then (Some ''agent: a stake needs the pot it went into'', a)
      else if \<not> StRefundHeld s
      then (Some ''agent: refusing to record a stake with no refund held; a stall could trap it'', a)
      else (None, a\<lparr>agStakes := (agStakes a)(StHandID s \<mapsto> s)\<rparr>))"

definition Agent_Stake :: "string \<Rightarrow> ('p, 'pt, 'a) agent \<Rightarrow> stake option" where
  "Agent_Stake hid a = agStakes a hid"

definition handleGetPublicKey :: "('p, 'pt, 'a) agent \<Rightarrow> agent_answer" where
  "handleGetPublicKey a = Inr (ResKey (agIdentity a))"

definition TranslateSDKNetwork :: "('s, 'k, 'p, 'a) agent_lib \<Rightarrow> string \<Rightarrow> string option" where
  "TranslateSDKNetwork lib n =
     (if n = ''mainnet'' \<or> n = InternalMain lib then Some ''mainnet''
      else if n = ''testnet'' \<or> n = InternalTest lib \<or> n = InternalTTN lib \<or> n = InternalTSTN lib then Some ''testnet''
      else None)"

definition handleGetNetwork ::
  "('s, 'k, 'p, 'a) agent_lib \<Rightarrow> ('p, 'pt, 'a) agent \<Rightarrow> ('p, 'pt, 'a) agent \<times> agent_answer" where
  "handleGetNetwork lib a =
     (let (pl, got) = WalletNetwork lib (agOriginator a) (agPlayer a); a = a\<lparr>agPlayer := pl\<rparr>
      in case got of
           Inl e \<Rightarrow> (a, refuse CodeInternal e)
         | Inr n \<Rightarrow>
             (case TranslateSDKNetwork lib n of
                None \<Rightarrow> (a, refuse CodeInternal (''brc100: cannot translate network '' @ Quote lib n @ '' to a BRC-100 value''))
              | Some t \<Rightarrow> (a, Inr (ResNetwork t))))"

section \<open>Signing a settlement\<close>

type_synonym 'a player_approver = "signing_request \<Rightarrow> 'a \<Rightarrow> 'a \<times> any_error option"

definition describe :: "('s, 'k) sdk \<Rightarrow> expectation \<Rightarrow> 's txout \<Rightarrow> signing_output" where
  "describe sdk want o' =
     (let s = (case LockingScript o' of None \<Rightarrow> '''' | Some l \<Rightarrow> ScriptString sdk l)
      in \<lparr>SoSatoshis = Satoshis o', SoLockingScript = s,
          SoDescription = (if map_of (ExpPayouts want) (ToLower s) \<noteq> None then ''an expected recipient'' else ''another seat'')\<rparr>)"

definition settlement_request :: "('s, 'k) sdk \<Rightarrow> stake \<Rightarrow> sign_pot_params \<Rightarrow> 's transaction \<Rightarrow> signing_request" where
  "settlement_request sdk st p tx =
     (let paid = sum_list (map Satoshis (Outputs tx))
      in \<lparr>SqHandID = SpHandID p, SqPurpose = ''pot settlement'',
          SqPotOutpoint = StPotTxid st @ '':'' @ decimal (unat (StPotVout st)), SqPotSatoshis = StPotSatoshis st,
          SqOutputs = map (describe sdk (StExpectation st)) (Outputs tx),
          SqFeeSatoshis = (if StPotSatoshis st > paid then StPotSatoshis st - paid else 0), SqRawTxHex = SpRawTxHex p\<rparr>)"

definition declined_error :: "any_error \<Rightarrow> any_error" where
  "declined_error e = (case e of WireErr se \<Rightarrow> WireErr se | OtherErr m \<Rightarrow> WireErr (werr CodeDeclined (Said m)))"

definition handleSignPot ::
  "('s, 'k, 'p, 'a) agent_lib \<Rightarrow> 'a player_approver \<Rightarrow> bytes \<Rightarrow> ('p, 'pt, 'a) agent \<Rightarrow> ('p, 'pt, 'a) agent \<times> agent_answer" where
  "handleSignPot lib approve params a =
     (case DecSignPot lib params of
        None \<Rightarrow> (a, refuse CodeBadRequest ''signPot params are not valid JSON'')
      | Some p \<Rightarrow>
     if SpHandID p = '''' \<or> SpRawTxHex p = '''' then (a, refuse CodeBadRequest ''signPot needs a hand id and a transaction'')
     else case Agent_Stake (SpHandID p) a of
        None \<Rightarrow> (a, refuse CodeForbidden (''this agent holds no stake in hand '' @ Quote lib (SpHandID p) @ '' and will not sign for it''))
      | Some st \<Rightarrow>
     (case ParseTx lib (SpRawTxHex p) of
        None \<Rightarrow> (a, refuse CodeBadRequest ''the transaction is not parseable'')
      | Some tx \<Rightarrow>
     if SpPotInput p < 0 \<or> SpPotInput p \<ge> int (length (Inputs tx))
     then (a, refuse CodeBadRequest ''the pot input index is out of range'')
     else case VerifyProposal (AgSdk lib) \<lparr>PropHandID = SpHandID p, PropTx = Some tx, PropPotInput = SpPotInput p\<rparr> (StExpectation st) of
        Some e \<Rightarrow> (a, refuse CodeDeclined (CosignText lib e))
      | None \<Rightarrow>
     (case PotScriptFromHex (signer_of lib) (ExpPotScriptHex (StExpectation st)) of
        Inl e \<Rightarrow> (a, refuse CodeInternal (SettleText lib e))
      | Inr potScript \<Rightarrow>
     let tx' = set_source (nat (SpPotInput p)) \<lparr>Satoshis = StPotSatoshis st, LockingScript = Some potScript\<rparr> tx;
         (pl, verdict) = approve (settlement_request (AgSdk lib) st p tx') (agPlayer a);
         a = a\<lparr>agPlayer := pl\<rparr>
     in case verdict of
        Some e \<Rightarrow> (a, Inl (declined_error e))
      | None \<Rightarrow>
     (case SignInput (signer_of lib) (Some tx') (SpPotInput p) (StSeat st) (Some (agPriv a)) of
        Inl e \<Rightarrow> (a, refuse CodeInternal (SettleText lib e))
      | Inr sig \<Rightarrow> (a, Inr (ResSignature (StSeat st) (hex_encode (DER sig))))))))"

section \<open>Recording a stake\<close>

text \<open>\<open>Inr None\<close> is another seat's payout, whose script this wallet cannot derive.\<close>

definition derivePayoutScript ::
  "('s, 'k, 'p, 'a) agent_lib \<Rightarrow> 'p \<Rightarrow> 'k \<Rightarrow> stake_payout \<Rightarrow> string \<Rightarrow> (string, 's option) res" where
  "derivePayoutScript lib priv sender po ownKey =
     (if (case base64_decode (RpPrefix po) of None \<Rightarrow> True | Some b \<Rightarrow> b = []) then Inl ''the derivation prefix is not valid base64''
      else if (case base64_decode (RpSuffix po) of None \<Rightarrow> True | Some b \<Rightarrow> b = []) then Inl ''the derivation suffix is not valid base64''
      else if RpSatoshis po = 0 then Inl ''a payout of nothing is not a payout''
      else if \<not> KeyIDValid lib (RpPrefix po) (RpSuffix po) then Inl ''invalid derivation material''
      else if RpRecipientKey po \<noteq> ownKey then Inr None
      else case LockForSelf lib sender (RpPrefix po) (RpSuffix po) priv of
             None \<Rightarrow> Inl ''deriving this seat's own payout''
           | Some lock \<Rightarrow> Inr (Some lock))"

definition set_amount :: "string \<Rightarrow> u64 \<Rightarrow> amounts \<Rightarrow> amounts" where
  "set_amount k v m = (if map_of m k = None then m @ [(k, v)] else map (\<lambda>(k', w). if k' = k then (k', v) else (k', w)) m)"

fun derive_payouts ::
  "('s, 'k, 'p, 'a) agent_lib \<Rightarrow> 'p \<Rightarrow> 'k \<Rightarrow> string \<Rightarrow> nat \<Rightarrow> stake_payout list \<Rightarrow> amounts \<Rightarrow> (string, amounts) res" where
  "derive_payouts lib priv sender own i [] payouts = Inr payouts"
| "derive_payouts lib priv sender own i (po # pos) payouts =
     (case derivePayoutScript lib priv sender po own of
        Inl e \<Rightarrow> Inl (''payout '' @ decimal i @ '': '' @ e)
      | Inr None \<Rightarrow> derive_payouts lib priv sender own (i + 1) pos payouts
      | Inr (Some lock) \<Rightarrow>
          derive_payouts lib priv sender own (i + 1) pos (set_amount (hex_encode (ScriptBytes lib lock)) (RpSatoshis po) payouts))"

definition stake_of :: "record_stake_params \<Rightarrow> amounts \<Rightarrow> stake" where
  "stake_of p payouts =
     \<lparr>StHandID = RsHandID p, StPotTxid = RsPotTxid p, StPotVout = RsPotVout p, StPotSatoshis = RsPotSatoshis p, StSeat = RsSeat p,
      StExpectation = \<lparr>ExpPotTxid = RsPotTxid p, ExpPotVout = RsPotVout p, ExpPotSatoshis = RsPotSatoshis p,
                       ExpPayouts = payouts, ExpMaxFee = RsMaxFee p, ExpPotScriptHex = RsPotScriptHex p\<rparr>,
      StRefundHeld = True, StRefundTxHex = RsRefundTxHex p\<rparr>"

definition handleRecordStake ::
  "('s, 'k, 'p, 'a) agent_lib \<Rightarrow> bytes \<Rightarrow> ('p, 'pt, 'a) agent \<Rightarrow> ('p, 'pt, 'a) agent \<times> agent_answer" where
  "handleRecordStake lib params a =
     (case DecRecordStake lib params of
        None \<Rightarrow> (a, refuse CodeBadRequest ''params are not valid JSON'')
      | Some p \<Rightarrow>
     if RsHandID p = '''' \<or> RsPotTxid p = '''' \<or> RsPotScriptHex p = ''''
     then (a, refuse CodeBadRequest ''a stake needs a hand id, a pot outpoint and the pot's locking script'')
     else if RsPayouts p = [] then (a, refuse CodeBadRequest ''a stake with no expected payouts would accept a settlement paying nobody'')
     else if RsMaxFee p = 0 then (a, refuse CodeBadRequest ''a stake needs a fee bound; without one a settlement could burn the pot'')
     else if RsRefundTxHex p = ''''
     then (a, refuse CodeBadRequest ''refusing to record a stake with no refund held; a stall could trap it'')
     else case PublicKeyFromString lib (RsSenderKey p) of
        None \<Rightarrow> (a, refuse CodeBadRequest ''the sender identity key is unusable'')
      | Some sender \<Rightarrow>
     (case derive_payouts lib (agPriv a) sender (agent_identity lib (agPriv a)) 0 (RsPayouts p) [] of
        Inl e \<Rightarrow> (a, refuse CodeBadRequest e)
      | Inr payouts \<Rightarrow>
     (case RecordStake (stake_of p payouts) a of
        (Some e, a) \<Rightarrow> (a, refuse CodeBadRequest e)
      | (None, a) \<Rightarrow> (a, Inr (ResStake payouts)))))"

definition RecordStakeJSON ::
  "('s, 'k, 'p, 'a) agent_lib \<Rightarrow> bytes \<Rightarrow> ('p, 'pt, 'a) agent \<Rightarrow> ('p, 'pt, 'a) agent \<times> agent_answer" where
  "RecordStakeJSON lib body a =
     (case handleRecordStake lib body a of
        (a, Inl (WireErr se)) \<Rightarrow> (a, Inl (OtherErr (Render lib (ErrReason se))))
      | (a, r) \<Rightarrow> (a, r))"

section \<open>Signing a refund\<close>

fun refund_balances ::
  "('s, 'k, 'p, 'a) agent_lib \<Rightarrow> string \<Rightarrow> nat \<Rightarrow> (string \<times> u64) list \<Rightarrow> amounts \<Rightarrow> bool \<Rightarrow> (string, amounts \<times> bool) res" where
  "refund_balances lib own i [] balances includesSelf = Inr (balances, includesSelf)"
| "refund_balances lib own i ((key, sats) # bs) balances includesSelf =
     (if sats = 0 then Inl (''balance '' @ decimal i @ '' is zero; omit it instead'')
      else case PublicKeyFromString lib key of
             None \<Rightarrow> Inl (''balance '' @ decimal i @ '' has an unusable key'')
           | Some pub \<Rightarrow>
               (case P2PKHLock (AgSdk lib) pub of
                  None \<Rightarrow> Inl (''balance '' @ decimal i @ '': deriving a script'')
                | Some lock \<Rightarrow>
                    refund_balances lib own (i + 1) bs (set_amount (ScriptForKeyHex (AgSdk lib) (Some lock)) sats balances)
                      (includesSelf \<or> key = own)))"

definition sharedRefundExpectation ::
  "('s, 'k, 'p, 'a) agent_lib \<Rightarrow> 'p \<Rightarrow> sign_refund_params \<Rightarrow> (string, shared_expectation) res" where
  "sharedRefundExpectation lib priv p =
     (case refund_balances lib (agent_identity lib priv) 0 (SrBalances p) [] False of
        Inl e \<Rightarrow> Inl e
      | Inr (balances, includesSelf) \<Rightarrow>
          if \<not> includesSelf then Inl ''this refund pays this seat nothing''
          else Inr \<lparr>SharedPotTxid = SrPotTxid p, SharedPotVout = SrPotVout p, SharedPotSatoshis = SrPotSatoshis p,
                    Balances = balances, SharedMaxFee = SrMaxFee p, MaxLockHeight = SrMaxLockHeight p\<rparr>)"

definition handleSignRefund ::
  "('s, 'k, 'p, 'a) agent_lib \<Rightarrow> bytes \<Rightarrow> ('p, 'pt, 'a) agent \<Rightarrow> agent_answer" where
  "handleSignRefund lib params a =
     (case DecSignRefund lib params of
        None \<Rightarrow> refuse CodeBadRequest ''signRefund params are not valid JSON''
      | Some p \<Rightarrow>
     if SrHandID p = '''' \<or> SrRawTxHex p = '''' \<or> SrPotTxid p = '''' \<or> SrPotScriptHex p = ''''
     then refuse CodeBadRequest ''signRefund needs a hand id, a transaction, and the pot it spends''
     else if SrMaxFee p = 0 then refuse CodeBadRequest ''signRefund needs a fee bound; without one a refund could burn the pot''
     else case ParseTx lib (SrRawTxHex p) of
        None \<Rightarrow> refuse CodeBadRequest ''the refund is not parseable''
      | Some tx \<Rightarrow>
     if SrPotInput p < 0 \<or> SrPotInput p \<ge> int (length (Inputs tx)) then refuse CodeBadRequest ''the pot input index is out of range''
     else if SrBalances p = [] then refuse CodeForbidden (''this refund names no balances. A refund must pay every seat its own balance; ''
       @ ''the older whole-pot form rewarded refusing to settle and is no longer signed'')
     else case sharedRefundExpectation lib (agPriv a) p of
        Inl e \<Rightarrow> refuse CodeBadRequest e
      | Inr want \<Rightarrow>
     (case VerifySharedRefund (AgSdk lib) (Some tx) want of
        Some e \<Rightarrow> refuse CodeDeclined (CosignText lib e)
      | None \<Rightarrow>
     (case PotScriptFromHex (signer_of lib) (SrPotScriptHex p) of
        Inl e \<Rightarrow> refuse CodeBadRequest (SettleText lib e)
      | Inr potScript \<Rightarrow>
     (case SignInput (signer_of lib)
             (Some (set_source (nat (SrPotInput p)) \<lparr>Satoshis = SrPotSatoshis p, LockingScript = Some potScript\<rparr> tx))
             (SrPotInput p) (SrSeat p) (Some (agPriv a)) of
        Inl e \<Rightarrow> refuse CodeInternal (SettleText lib e)
      | Inr sig \<Rightarrow> Inr (ResSignature (SigSeat sig) (hex_encode (DER sig)))))))"

section \<open>Receiving a payment\<close>

definition handleInternalize ::
  "('s, 'k, 'p, 'a) agent_lib \<Rightarrow> bytes \<Rightarrow> ('p, 'pt, 'a) agent \<Rightarrow> ('p, 'pt, 'a) agent \<times> agent_answer" where
  "handleInternalize lib params a =
     (case DecInternalize lib params of
        None \<Rightarrow> (a, refuse CodeBadRequest ''internalize params are not valid JSON'')
      | Some p \<Rightarrow>
     (case hex_decode (IpBEEFHex p) of
        None \<Rightarrow> (a, refuse CodeBadRequest ''beefHex is not valid hex'')
      | Some beef \<Rightarrow>
     (case PublicKeyFromString lib (IpSender p) of
        None \<Rightarrow> (a, refuse CodeBadRequest ''senderIdentityKey is not a public key'')
      | Some sender \<Rightarrow>
     (case hex_decode (IpPrefix p) of
        None \<Rightarrow> (a, refuse CodeBadRequest ''derivationPrefix is not valid hex'')
      | Some pre \<Rightarrow>
     (case hex_decode (IpSuffix p) of
        None \<Rightarrow> (a, refuse CodeBadRequest ''derivationSuffix is not valid hex'')
      | Some suf \<Rightarrow>
     let desc = (if length (IpDescription p) < 5 then ''incoming poker payment'' else IpDescription p);
         (pl, res) = WalletInternalize lib
           \<lparr>IaTx = beef, IaDescription = desc, IaLabels = [''poker''], IaOutputIndex = IpOutputIndex p, IaPrefix = pre,
            IaSuffix = suf, IaSender = sender\<rparr> (agOriginator a) (agPlayer a);
         a = a\<lparr>agPlayer := pl\<rparr>
     in case res of Inl e \<Rightarrow> (a, refuse CodeInternal e) | Inr accepted \<Rightarrow> (a, Inr (ResAccepted accepted)))))))"

section \<open>Approving for a session\<close>

text \<open>\<open>saLog\<close> holds the lines the approver was given a function to write, if it was given one.\<close>

record approval_line =
  AlPurpose :: string
  AlHandID :: string
  AlPot :: u64
  AlToYou :: u64
  AlFee :: u64

record session_approver =
  maxPotSatoshis :: u64
  maxFeeSatoshis :: u64
  approvedHands :: nat
  saLog :: "approval_line list option"

definition NewSessionApprover :: "u64 \<Rightarrow> u64 \<Rightarrow> bool \<Rightarrow> (string, session_approver) res" where
  "NewSessionApprover maxPot maxFee logs =
     (if maxPot = 0 then Inl ''agent: a session needs a maximum pot; unlimited consent is not consent''
      else if maxFee = 0 then Inl ''agent: a session needs a fee bound''
      else Inr \<lparr>maxPotSatoshis = maxPot, maxFeeSatoshis = maxFee, approvedHands = 0, saLog = (if logs then Some [] else None)\<rparr>)"

definition approval_of :: "signing_request \<Rightarrow> approval_line" where
  "approval_of req =
     \<lparr>AlPurpose = SqPurpose req, AlHandID = SqHandID req, AlPot = SqPotSatoshis req,
      AlToYou = sum_list (map SoSatoshis (filter (\<lambda>o'. SoDescription o' = ''you'') (SqOutputs req))), AlFee = SqFeeSatoshis req\<rparr>"

definition Session_Approve :: "signing_request \<Rightarrow> session_approver \<Rightarrow> session_approver \<times> any_error option" where
  "Session_Approve req s =
     (if SqPotSatoshis req > maxPotSatoshis s
      then (s, Some (WireErr (werr CodeDeclined (Said (''this session signs for pots up to '' @ decimal (unat (maxPotSatoshis s))
              @ '' sat; the table asked for '' @ decimal (unat (SqPotSatoshis req)))))))
      else if SqFeeSatoshis req > maxFeeSatoshis s
      then (s, Some (WireErr (werr CodeDeclined (Said (''this session allows fees up to '' @ decimal (unat (maxFeeSatoshis s))
              @ '' sat; this one consumes '' @ decimal (unat (SqFeeSatoshis req)))))))
      else let out = sum_list (map SoSatoshis (SqOutputs req))
        in if out > SqPotSatoshis req
           then (s, Some (WireErr (werr CodeDeclined (Said (''the outputs total '' @ decimal (unat out) @ '' sat against a ''
              @ decimal (unat (SqPotSatoshis req)) @ '' sat pot'')))))
           else (s\<lparr>approvedHands := approvedHands s + 1, saLog := map_option (\<lambda>l. l @ [approval_of req]) (saLog s)\<rparr>, None))"

definition Session_Approved :: "session_approver \<Rightarrow> nat" where
  "Session_Approved s = approvedHands s"

end
