(* ===== verification/Agent_Deal.thy ===== *)
theory Agent_Deal
  imports Agent
begin

text \<open>
  The agent's side of a deal, \<^verbatim>\<open>internal/agent/deal.go\<close>: the store of one seat's secrets per hand and the six handlers the
  table drives a deal with. The secrets \<open>begin_deal\<close> would draw are arguments, the ones it draws only for a hand that has
  none; the field \<open>disclosed\<close> of the code's \<open>dealSecrets\<close> is never read or written and is left out. A Go map of disclosures is the
  list of its values in the order the loop visits them.
\<close>

section \<open>Parameters\<close>

record deal_commit_params =
  DcHandID :: string
  DcDeckSize :: int
  DcSeats :: int

record deal_pass_params =
  DpHandID :: string
  DpDeck :: "string list"

record deal_reveal_params =
  DrHandID :: string
  DrPositions :: "int list"

record deal_card_params =
  DkHandID :: string
  DkPosition :: int
  DkDisclosures :: "(string \<times> string) list"

text \<open>What the random source yields for one call, read only if a new hand begins.\<close>

record deal_draw =
  DrawGlobal :: "(mp_error, scalar) res"
  DrawPerm :: "(mp_error, int list) res"
  DrawPerPosition :: "(mp_error, scalar list) res"

record ('s, 'k, 'p, 'a, 'pt) deal_lib = "('s, 'k, 'p, 'a) agent_lib" +
  Curve :: "'pt curve"
  DecDealCommit :: "bytes \<Rightarrow> deal_commit_params option"
  DecDealPass :: "bytes \<Rightarrow> deal_pass_params option"
  DecDealReveal :: "bytes \<Rightarrow> deal_reveal_params option"
  DecDealCard :: "bytes \<Rightarrow> deal_card_params option"
  MpText :: "mp_error \<Rightarrow> string"
  ProofText :: "proof_error \<Rightarrow> string"
  CardsText :: "cards_error \<Rightarrow> string"
  DrawSecrets :: "'a \<Rightarrow> deal_draw \<times> 'a"

section \<open>The store\<close>

definition newDealStore :: "string \<rightharpoonup> 'pt deal_secrets" where
  "newDealStore = Map.empty"

definition begin_deal ::
  "('s, 'k, 'p, 'a, 'pt) deal_lib \<Rightarrow> deal_draw \<Rightarrow> string \<Rightarrow> int \<Rightarrow> int \<Rightarrow> (string \<rightharpoonup> 'pt deal_secrets)
     \<Rightarrow> (string, 'pt deal_secrets) res \<times> (string \<rightharpoonup> 'pt deal_secrets)" where
  "begin_deal lib draw hid deckSize seats d =
     (case d hid of
        Some existing \<Rightarrow> (Inr existing, d)
      | None \<Rightarrow>
     (case DrawGlobal draw of
        Inl e \<Rightarrow> (Inl (MpText lib e), d)
      | Inr g \<Rightarrow>
     (case DrawPerm draw of
        Inl e \<Rightarrow> (Inl (MpText lib e), d)
      | Inr perm \<Rightarrow>
     (case DrawPerPosition draw of
        Inl e \<Rightarrow> (Inl (MpText lib e), d)
      | Inr ss \<Rightarrow>
     (case CommitShuffle (Curve lib) (Sum256 lib) g perm of
        Inl e \<Rightarrow> (Inl (ProofText lib e), d)
      | Inr sc \<Rightarrow>
     (case CommitRemask (Curve lib) (Sum256 lib) g ss of
        Inl e \<Rightarrow> (Inl (ProofText lib e), d)
      | Inr rc \<Rightarrow>
          let s = \<lparr>dsDeckSize = deckSize, dsGlobal = g, dsPerm = perm, dsPerPosition = ss, dsShuffleCommit = sc,
                   dsRemaskCommit = rc, dsDeck = [], dsSeats = seats\<rparr>
          in (Inr s, d(hid \<mapsto> s))))))))"

section \<open>Committing and passing\<close>

definition handleDealCommit ::
  "('s, 'k, 'p, 'a, 'pt) deal_lib \<Rightarrow> deal_draw \<Rightarrow> bytes \<Rightarrow> ('p, 'pt, 'a) agent \<Rightarrow> ('p, 'pt, 'a) agent \<times> agent_answer" where
  "handleDealCommit lib draw params a =
     (case DecDealCommit lib params of
        None \<Rightarrow> (a, refuse CodeBadRequest ''dealCommit params are not valid JSON'')
      | Some p \<Rightarrow>
     if DcHandID p = '''' then (a, refuse CodeBadRequest ''a hand id is required'')
     else let deckSize = (if DcDeckSize p \<le> 0 then DeckSize else DcDeckSize p)
       in if DcSeats p < 2 then (a, refuse CodeBadRequest ''a deal needs at least 2 seats'')
          else case begin_deal lib draw (DcHandID p) deckSize (DcSeats p) (agDeals a) of
                 (Inl e, d) \<Rightarrow> (a\<lparr>agDeals := d\<rparr>, refuse CodeInternal e)
               | (Inr s, d) \<Rightarrow>
                   (a\<lparr>agDeals := d\<rparr>, Inr (ResCommit (hex_encode (dsShuffleCommit s)) (hex_encode (dsRemaskCommit s)))))"

fun decode_deck :: "('s, 'k, 'p, 'a, 'pt) deal_lib \<Rightarrow> nat \<Rightarrow> string list \<Rightarrow> (string, 'pt list) res" where
  "decode_deck lib i [] = Inr []"
| "decode_deck lib i (h # hs) =
     (case hex_decode h of
        None \<Rightarrow> Inl (''deck position '' @ decimal i @ '' is not valid hex'')
      | Some raw \<Rightarrow>
          (case PointFromBytes (Curve lib) raw of
             Inl e \<Rightarrow> Inl (''deck position '' @ decimal i @ '': '' @ MpText lib e)
           | Inr pt \<Rightarrow> (case decode_deck lib (i + 1) hs of Inl e \<Rightarrow> Inl e | Inr pts \<Rightarrow> Inr (pt # pts))))"

definition dealInput ::
  "('s, 'k, 'p, 'a, 'pt) deal_lib \<Rightarrow> bytes \<Rightarrow> ('p, 'pt, 'a) agent \<Rightarrow> any_error + string \<times> 'pt deal_secrets \<times> 'pt list" where
  "dealInput lib params a =
     (case DecDealPass lib params of
        None \<Rightarrow> refuse CodeBadRequest ''params are not valid JSON''
      | Some p \<Rightarrow>
     (case agDeals a (DpHandID p) of
        None \<Rightarrow> refuse CodeForbidden (''this agent has not committed to hand '' @ Quote lib (DpHandID p))
      | Some s \<Rightarrow>
     (case decode_deck lib 0 (DpDeck p) of
        Inl e \<Rightarrow> refuse CodeBadRequest e
      | Inr pts \<Rightarrow>
     (case DeckFromPoints (Curve lib) pts of
        Inl e \<Rightarrow> refuse CodeBadRequest (MpText lib e)
      | Inr deck \<Rightarrow>
          if int (length deck) \<noteq> dsDeckSize s
          then refuse CodeBadRequest (''deck has '' @ decimal (length deck) @ '' positions, this hand uses '' @ Sprint_int (dsDeckSize s))
          else Inr (DpHandID p, s, deck)))))"

definition set_deck :: "string \<Rightarrow> 'pt list \<Rightarrow> ('p, 'pt, 'a) agent \<Rightarrow> ('p, 'pt, 'a) agent" where
  "set_deck hid deck a = a\<lparr>agDeals := (agDeals a)(hid := map_option (\<lambda>s. s\<lparr>dsDeck := deck\<rparr>) (agDeals a hid))\<rparr>"

definition encode_hex_deck :: "'pt curve \<Rightarrow> 'pt list \<Rightarrow> string list" where
  "encode_hex_deck c d = map (\<lambda>p. hex_encode (Point_Bytes c p)) d"

definition handleDealShuffle ::
  "('s, 'k, 'p, 'a, 'pt) deal_lib \<Rightarrow> bytes \<Rightarrow> ('p, 'pt, 'a) agent \<Rightarrow> ('p, 'pt, 'a) agent \<times> agent_answer" where
  "handleDealShuffle lib params a =
     (case dealInput lib params a of
        Inl e \<Rightarrow> (a, Inl e)
      | Inr (hid, s, deck) \<Rightarrow>
          (case ShuffleStep (Curve lib) deck (dsGlobal s) (dsPerm s) of
             Inl e \<Rightarrow> (a, refuse CodeInternal (MpText lib e))
           | Inr out \<Rightarrow> (set_deck hid out a, Inr (ResDeck (encode_hex_deck (Curve lib) out)))))"

definition handleDealRemask ::
  "('s, 'k, 'p, 'a, 'pt) deal_lib \<Rightarrow> bytes \<Rightarrow> ('p, 'pt, 'a) agent \<Rightarrow> ('p, 'pt, 'a) agent \<times> agent_answer" where
  "handleDealRemask lib params a =
     (case dealInput lib params a of
        Inl e \<Rightarrow> (a, Inl e)
      | Inr (hid, s, deck) \<Rightarrow>
          (case RemaskStep (Curve lib) deck (dsGlobal s) (dsPerPosition s) of
             Inl e \<Rightarrow> (a, refuse CodeInternal (MpText lib e))
           | Inr out \<Rightarrow> (set_deck hid out a, Inr (ResDeck (encode_hex_deck (Curve lib) out)))))"

definition handleDealFinal ::
  "('s, 'k, 'p, 'a, 'pt) deal_lib \<Rightarrow> bytes \<Rightarrow> ('p, 'pt, 'a) agent \<Rightarrow> ('p, 'pt, 'a) agent \<times> agent_answer" where
  "handleDealFinal lib params a =
     (case dealInput lib params a of
        Inl e \<Rightarrow> (a, Inl e)
      | Inr (hid, s, deck) \<Rightarrow> (set_deck hid deck a, Inr ResOk))"

section \<open>Disclosing and reading\<close>

fun disclose :: "scalar list \<Rightarrow> int list \<Rightarrow> (int, string list) res" where
  "disclose ss [] = Inr []"
| "disclose ss (pos # ps) =
     (if pos < 0 \<or> pos \<ge> int (length ss) then Inl pos
      else case disclose ss ps of Inl e \<Rightarrow> Inl e | Inr out \<Rightarrow> Inr (hex_encode (Scalar_Bytes (ss ! nat pos)) # out))"

definition handleDealReveal ::
  "('s, 'k, 'p, 'a, 'pt) deal_lib \<Rightarrow> bytes \<Rightarrow> ('p, 'pt, 'a) agent \<Rightarrow> agent_answer" where
  "handleDealReveal lib params a =
     (case DecDealReveal lib params of
        None \<Rightarrow> refuse CodeBadRequest ''dealReveal params are not valid JSON''
      | Some p \<Rightarrow>
     (case agDeals a (DrHandID p) of
        None \<Rightarrow> refuse CodeForbidden (''this agent holds no deal secrets for hand '' @ Quote lib (DrHandID p))
      | Some s \<Rightarrow>
     if DrPositions p = [] then refuse CodeBadRequest ''no positions to reveal''
     else case disclose (dsPerPosition s) (DrPositions p) of
        Inl pos \<Rightarrow> refuse CodeBadRequest (''position '' @ Sprint_int pos @ '' is outside the deck'')
      | Inr ss \<Rightarrow> Inr (ResReveal (DrPositions p) ss)))"

fun read_disclosures :: "('s, 'k, 'p, 'a, 'pt) deal_lib \<Rightarrow> (string \<times> string) list \<Rightarrow> (string, scalar list) res" where
  "read_disclosures lib [] = Inr []"
| "read_disclosures lib ((seat, h) # ds) =
     (case hex_decode h of
        None \<Rightarrow> Inl ''a disclosure is not valid hex''
      | Some raw \<Rightarrow>
          (case ScalarFromBytes (Curve lib) raw of
             Inl e \<Rightarrow> Inl (MpText lib e)
           | Inr sc \<Rightarrow> (case read_disclosures lib ds of Inl e \<Rightarrow> Inl e | Inr scs \<Rightarrow> Inr (sc # scs))))"

definition handleDealCard ::
  "('s, 'k, 'p, 'a, 'pt) deal_lib \<Rightarrow> bytes \<Rightarrow> ('p, 'pt, 'a) agent \<Rightarrow> agent_answer" where
  "handleDealCard lib params a =
     (case DecDealCard lib params of
        None \<Rightarrow> refuse CodeBadRequest ''dealCard params are not valid JSON''
      | Some p \<Rightarrow>
     (case agDeals a (DkHandID p) of
        None \<Rightarrow> refuse CodeForbidden (''this agent holds no deal secrets for hand '' @ Quote lib (DkHandID p))
      | Some s \<Rightarrow>
     if DkPosition p < 0 \<or> DkPosition p \<ge> int (length (dsPerPosition s)) then refuse CodeBadRequest ''position is outside the deck''
     else if dsDeck s = [] then refuse CodeBadRequest ''the deal has not completed''
     else case read_disclosures lib (DkDisclosures p) of
        Inl e \<Rightarrow> refuse CodeBadRequest e
      | Inr scs \<Rightarrow>
     (case Deck_Unmask (Curve lib) (dsDeck s) (DkPosition p) (dsPerPosition s ! nat (DkPosition p) # scs) of
        Inl e \<Rightarrow> refuse CodeInternal (MpText lib e)
      | Inr pt \<Rightarrow>
     (case CardIndexOf (Curve lib) pt (dsDeckSize s) of
        Inl e \<Rightarrow> refuse CodeForbidden ''this seat cannot read that position: a required disclosure is missing''
      | Inr idx \<Rightarrow>
     (case FromIndex (int idx) of
        Inl e \<Rightarrow> refuse CodeInternal (CardsText lib e)
      | Inr cd \<Rightarrow> Inr (ResCard (Card_String cd)))))))"

end
