(* ===== verification/Substrate_Props.thy ===== *)
theory Substrate_Props
  imports Substrate "HOL-Library.Sublist"
begin

text \<open>
  What the substrate guarantees the wallet behind it: a handler runs only for a proven, granted, fresh request; no
  request is served twice; a caller is held to its rate; and the messages signed determine every field.
  A service is a \<open>machine\<close> whose events are the calls it serves and the changes its owner makes to grants and
  handlers; a call also says how long after the previous one it comes, so the clock never goes back.
\<close>

section \<open>Acceptance\<close>

definition far_future :: "request \<Rightarrow> int \<Rightarrow> bool" where
  "far_future r now \<longleftrightarrow> now - time_Unix (RqTimestamp r) \<le> minDuration"

definition proven :: "('s, 'k, 'p) key_lib \<Rightarrow> request \<Rightarrow> 'k \<Rightarrow> bool" where
  "proven kl r caller \<longleftrightarrow>
     PublicKeyFromString kl (RqIdentityKey r) = Some caller
   \<and> (\<exists>raw sig. hex_decode (RqSignature r) = Some raw \<and> ParseDER kl raw = Some sig
        \<and> VerifySig kl sig (Sum256 kl (request_preimage r)) caller)"

definition in_window :: "request \<Rightarrow> int \<Rightarrow> bool" where
  "in_window r now \<longleftrightarrow> far_future r now \<or> \<bar>now - time_Unix (RqTimestamp r)\<bar> \<le> MaxClockSkew"

lemma skew_ok:
  "(let skew = time_Sub now t; skew = (if skew < 0 then duration_neg skew else skew) in \<not> skew > MaxClockSkew)
     \<longleftrightarrow> now - t \<le> minDuration \<or> \<bar>now - t\<bar> \<le> MaxClockSkew"
  by (auto simp: Let_def time_Sub_def duration_neg_def minDuration_def maxDuration_def MaxClockSkew_def Second_def)

lemma VerifyRequest_iff:
  "VerifyRequest kl r now aud = Inr caller \<longleftrightarrow>
     RqVersion r = Version \<and> Known (RqMethod r) \<and> ValidateOriginator (RqOriginator r) = None \<and> RqNonce r \<noteq> ''''
   \<and> RqIdentityKey r \<noteq> '''' \<and> RqSignature r \<noteq> '''' \<and> RqAudience r \<noteq> '''' \<and> (aud \<noteq> '''' \<longrightarrow> RqAudience r = aud)
   \<and> in_window r now \<and> proven kl r caller"
  using skew_ok [of now "time_Unix (RqTimestamp r)"]
  by (auto simp: VerifyRequest_def in_window_def far_future_def proven_def requestDigest_def Let_def
      split: option.splits if_splits)

section \<open>The cache and the limiter\<close>

lemma Use_iff:
  "fst (Use c nonce now) \<longleftrightarrow> nonce \<noteq> '''' \<and> nonce \<notin> fst ` set (nonces_seen (sweep c now))
     \<and> length (nonces_seen (sweep c now)) < nonce_limit c"
  by (auto simp: Use_def Let_def sweep_def map_of_eq_None_iff)

lemma Use_keeps: "nonce_ttl (snd (Use c nonce now)) = nonce_ttl c" "nonce_limit (snd (Use c nonce now)) = nonce_limit c"
  by (auto simp: Use_def Let_def sweep_def)

lemma Use_seen:
  "x \<in> set (nonces_seen c) \<Longrightarrow> x \<in> set (nonces_seen (snd (Use c nonce now))) \<or> time_Sub now (snd x) > nonce_ttl c"
  by (cases x) (auto simp: Use_def Let_def sweep_def)

lemma Use_fresh: "fst (Use c nonce now) \<Longrightarrow> (nonce, now) \<in> set (nonces_seen (snd (Use c nonce now)))"
  by (auto simp: Use_def Let_def split: if_splits)

lemma sweep_seen: "x \<in> set (nonces_seen (sweep c now)) \<longleftrightarrow> x \<in> set (nonces_seen c) \<and> \<not> time_Sub now (snd x) > nonce_ttl c"
  by (cases x) (auto simp: sweep_def)

lemma time_Sub_mono: "t \<le> t' \<Longrightarrow> time_Sub t u \<le> time_Sub t' u"
  by (auto simp: time_Sub_def)

lemma allow_hits:
  "rate_hits (snd (allow l key now)) k =
     (if k = key then filter (\<lambda>t. t > now - rate_window l) (rate_hits l key) @ (if fst (allow l key now) then [now] else [])
      else rate_hits l k)"
  by (auto simp: allow_def Let_def)

lemma allow_iff:
  "fst (allow l key now) \<longleftrightarrow> int (length (filter (\<lambda>t. t > now - rate_window l) (rate_hits l key))) < rate_limit l"
  by (auto simp: allow_def Let_def)

lemma allow_keeps: "rate_window (snd (allow l key now)) = rate_window l" "rate_limit (snd (allow l key now)) = rate_limit l"
  by (auto simp: allow_def Let_def)

section \<open>One call\<close>

definition caller_key :: "('s, 'k, 'p) key_lib \<Rightarrow> 'k \<Rightarrow> string" where
  "caller_key kl caller = ToLower (DERHex kl caller)"

definition may_call :: "('w, 'k, 'p) server \<Rightarrow> string \<Rightarrow> wire_method \<Rightarrow> bool" where
  "may_call s key m \<longleftrightarrow> (\<exists>g. srvGrants s key = Some g \<and> m \<in> set g)"

definition admitted :: "('s, 'k, 'p) wire_lib \<Rightarrow> ('w, 'k, 'p) server \<Rightarrow> http_request \<Rightarrow> bool" where
  "admitted wl s r \<longleftrightarrow>
     (ToLower (HOrigin r) = '''' \<or> ToLower (HOrigin r) \<in> set (srvOrigins s)) \<and> HMethod r = ''POST''
   \<and> (srvRequireTLS s \<longrightarrow> HTLS r)"

lemma receive_request_Inr:
  "receive_request wl s r = Inr req \<Longrightarrow>
     admitted wl s r \<and> (\<exists>body. HBody r = Some body \<and> length body \<le> MaxBodyBytes \<and> UnmarshalRequest wl body = Some req)"
  by (auto simp: receive_request_def admitted_def split: if_splits option.splits)

text \<open>A call ends in one of three ways, and each says what became of the cache, the limiter and the handlers.\<close>

lemma ServeHTTP_cases:
  obtains (stopped) reply where "ServeHTTP wl now r (s, w) = (reply, s, w)"
  | (limited) req caller reply where "receive_request wl s r = Inr req"
      "VerifyRequest (key_lib.truncate wl) req now (srvAudience s) = Inr caller"
      "ServeHTTP wl now r (s, w) = (reply, s\<lparr>srvLimiter := snd (allow (srvLimiter s) (ToLower (DERHex wl caller)) now)\<rparr>, w)"
  | (unserved) req caller reply where "receive_request wl s r = Inr req"
      "VerifyRequest (key_lib.truncate wl) req now (srvAudience s) = Inr caller"
      "ServeHTTP wl now r (s, w) = (reply, s\<lparr>srvLimiter := snd (allow (srvLimiter s) (ToLower (DERHex wl caller)) now),
                                            srvNonces := snd (Use (srvNonces s) (RqNonce req) now)\<rparr>, w)"
  | (called) req caller h where "receive_request wl s r = Inr req"
      "VerifyRequest (key_lib.truncate wl) req now (srvAudience s) = Inr caller"
      "fst (allow (srvLimiter s) (ToLower (DERHex wl caller)) now)" "fst (Use (srvNonces s) (RqNonce req) now)"
      "may_call s (ToLower (DERHex wl caller)) (RqMethod req)" "srvHandlers s (RqMethod req) = Some h"
      "ServeHTTP wl now r (s, w)
         = (handler_reply wl (srvWallet s) (RqNonce req) (snd (h (Some caller) (RqParams req) w)),
            s\<lparr>srvLimiter := snd (allow (srvLimiter s) (ToLower (DERHex wl caller)) now),
              srvNonces := snd (Use (srvNonces s) (RqNonce req) now), served := served s @ [(caller, req, now)]\<rparr>,
            fst (h (Some caller) (RqParams req) w))"
proof (cases "receive_request wl s r")
  case (Inl reply)
  then show thesis by (intro stopped [of reply]) (simp add: ServeHTTP_def)
next
  case (Inr req)
  note recv = this
  show thesis
  proof (cases "VerifyRequest (key_lib.truncate wl) req now (srvAudience s)")
    case (Inl e)
    with recv show thesis by (intro stopped) (simp add: ServeHTTP_def Let_def)
  next
    case (Inr caller)
    note ver = this
    let ?key = "ToLower (DERHex wl caller)"
    obtain p l where al: "allow (srvLimiter s) ?key now = (p, l)" by fastforce
    obtain f c where us: "Use (srvNonces s) (RqNonce req) now = (f, c)" by fastforce
    note eq = ServeHTTP_def recv ver al us Let_def
    consider "\<not> p" | "p" "\<not> f" | "p" "f" "\<not> may_call s ?key (RqMethod req)"
      | "p" "f" "may_call s ?key (RqMethod req)" "srvHandlers s (RqMethod req) = None"
      | h where "p" "f" "may_call s ?key (RqMethod req)" "srvHandlers s (RqMethod req) = Some h"
      by (cases "srvHandlers s (RqMethod req)") blast+
    then show thesis
    proof cases
      case 1
      then show thesis by (intro limited [OF recv ver]) (simp add: eq)
    next
      case 2
      then show thesis by (intro unserved [OF recv ver]) (simp add: eq)
    next
      case 3
      then show thesis
        by (intro unserved [OF recv ver]) (auto simp: eq may_call_def Allows_def split: option.splits)
    next
      case 4
      then obtain g where "srvGrants s ?key = Some g" "Allows g (RqMethod req)" by (auto simp: may_call_def Allows_def)
      with 4 show thesis by (intro unserved [OF recv ver]) (simp add: eq)
    next
      case (5 h)
      then show thesis
        by (intro called [OF recv ver, of h])
           (auto simp: eq may_call_def Allows_def split: option.splits prod.splits)
    qed
  qed
qed

section \<open>A service\<close>

datatype ('w, 'k) service_op = Serve nat http_request | Let_in string grants | Shut_out string
  | Add_handler wire_method "('w, 'k) handler option"

fun service_step ::
  "('s, 'k, 'p) wire_lib \<Rightarrow> int \<times> ('w, 'k, 'p) server \<times> 'w \<Rightarrow> ('w, 'k) service_op \<Rightarrow> int \<times> ('w, 'k, 'p) server \<times> 'w" where
  "service_step wl (clock, s, w) (Serve d r) =
     (clock + int d, snd (ServeHTTP wl (clock + int d) r (s, w)))"
| "service_step wl (clock, s, w) (Let_in key g) = (clock, snd (Grant (key_lib.truncate wl) key g s), w)"
| "service_step wl (clock, s, w) (Shut_out key) = (clock, Revoke key s, w)"
| "service_step wl (clock, s, w) (Add_handler m h) = (clock, snd (HandleMethod m h s), w)"

text \<open>The times at which a caller was served.\<close>

definition served_at :: "('s, 'k, 'p) wire_lib \<Rightarrow> ('w, 'k, 'p) server \<Rightarrow> string \<Rightarrow> int list" where
  "served_at wl s key = map (snd \<circ> snd) (filter (\<lambda>(c, q, t). ToLower (DERHex wl c) = key) (served s))"

definition nonces_ok :: "int \<Rightarrow> ('w, 'k, 'p) server \<Rightarrow> bool" where
  "nonces_ok clock s \<longleftrightarrow>
     nonce_ttl (srvNonces s) = 2 * MaxClockSkew
   \<and> (\<forall>(c, q, t) \<in> set (served s). in_window q t
        \<and> ((RqNonce q, t) \<in> set (nonces_seen (srvNonces s)) \<or> time_Sub clock t > 2 * MaxClockSkew))
   \<and> distinct (map (fst \<circ> snd) (filter (\<lambda>(c, q, t). \<not> far_future q t) (served s)))"

definition rate_ok :: "('s, 'k, 'p) wire_lib \<Rightarrow> int \<Rightarrow> ('w, 'k, 'p) server \<Rightarrow> bool" where
  "rate_ok wl clock s \<longleftrightarrow>
     (\<forall>key. let recent = (\<lambda>t. t > clock - rate_window (srvLimiter s)); ts = served_at wl s key in
        subseq (filter recent ts) (filter recent (rate_hits (srvLimiter s) key)) \<and> (\<forall>t \<in> set ts. t \<le> clock)
      \<and> (\<forall>u. int (length (filter (\<lambda>t. u - rate_window (srvLimiter s) < t \<and> t \<le> u) ts)) \<le> rate_limit (srvLimiter s)))"

lemma nonces_ok_idle:
  assumes ok: "nonces_ok clock s" and "clock \<le> clock'" and "served s' = served s"
    and "nonce_ttl (srvNonces s') = nonce_ttl (srvNonces s)"
    and seen: "\<And>x. x \<in> set (nonces_seen (srvNonces s)) \<Longrightarrow>
      x \<in> set (nonces_seen (srvNonces s')) \<or> time_Sub clock' (snd x) > nonce_ttl (srvNonces s)"
  shows "nonces_ok clock' s'"
proof -
  have "(RqNonce q, t) \<in> set (nonces_seen (srvNonces s')) \<or> time_Sub clock' t > 2 * MaxClockSkew"
    if "(c, q, t) \<in> set (served s)" for c q t
    using that ok seen [of "(RqNonce q, t)"] time_Sub_mono [OF assms(2), of t] by (fastforce simp: nonces_ok_def)
  with assms show ?thesis by (fastforce simp: nonces_ok_def)
qed

text \<open>A request served before is either still in the cache or out of its window.\<close>

lemma served_request_refused:
  assumes ok: "nonces_ok clock s" and "clock \<le> now" and old: "(c, req, t) \<in> set (served s)"
    and "\<not> far_future req t" and win: "in_window req now"
  shows "\<not> fst (Use (srvNonces s) (RqNonce req) now)"
proof
  assume use: "fst (Use (srvNonces s) (RqNonce req) now)"
  let ?ts = "time_Unix (RqTimestamp req)"
  from ok old assms(4) have t: "- MaxClockSkew \<le> t - ?ts"
    by (auto simp: nonces_ok_def in_window_def far_future_def)
  from ok old consider "(RqNonce req, t) \<in> set (nonces_seen (srvNonces s))" | "time_Sub clock t > 2 * MaxClockSkew"
    by (auto simp: nonces_ok_def)
  then have late: "time_Sub now t > 2 * MaxClockSkew"
  proof cases
    case 1
    then show ?thesis using use ok sweep_seen [of "(RqNonce req, t)" "srvNonces s" now]
      by (force simp: Use_iff nonces_ok_def)
  next
    case 2
    then show ?thesis using time_Sub_mono [OF assms(2), of t] by simp
  qed
  then have "now - t > 2 * MaxClockSkew"
    by (auto simp: time_Sub_def minDuration_def MaxClockSkew_def Second_def)
  with t win show False
    by (auto simp: in_window_def far_future_def minDuration_def MaxClockSkew_def Second_def)
qed

lemma nonces_ok_used:
  assumes "nonces_ok clock s" and "clock \<le> now"
  shows "nonces_ok now (s\<lparr>srvLimiter := l, srvNonces := snd (Use (srvNonces s) nonce now)\<rparr>)"
  by (rule nonces_ok_idle [OF assms]) (use Use_seen [of _ "srvNonces s" nonce now] in \<open>simp_all add: Use_keeps\<close>)

lemma nonces_ok_called:
  assumes ok: "nonces_ok clock s" and "clock \<le> now" and use: "fst (Use (srvNonces s) (RqNonce req) now)"
    and win: "in_window req now"
  shows "nonces_ok now (s\<lparr>srvLimiter := l, srvNonces := snd (Use (srvNonces s) (RqNonce req) now),
                          served := served s @ [(caller, req, now)]\<rparr>)"
proof -
  let ?s = "s\<lparr>srvLimiter := l, srvNonces := snd (Use (srvNonces s) (RqNonce req) now)\<rparr>"
  have idle: "nonces_ok now ?s" by (rule nonces_ok_used [OF ok assms(2)])
  have "(c, req, t) \<notin> set (served s)" if "\<not> far_future req t" for c t
    using served_request_refused [OF ok assms(2) _ that win] use by blast
  then have "req \<notin> (fst \<circ> snd) ` set (filter (\<lambda>(c, q, t). \<not> far_future q t) (served s))" by auto
  with idle use win show ?thesis by (auto simp: nonces_ok_def Use_fresh image_iff)
qed

lemma service_step_nonces:
  assumes "nonces_ok clock s" and "service_step wl (clock, s, w) e = (clock', s', w')"
  shows "nonces_ok clock' s' \<and> clock \<le> clock'"
proof (cases e)
  case (Serve d r)
  let ?now = "clock + int d"
  have le: "clock \<le> ?now" by simp
  from Serve assms(2) have eq: "clock' = ?now" "snd (ServeHTTP wl ?now r (s, w)) = (s', w')" by auto
  show ?thesis
  proof (cases rule: ServeHTTP_cases [of wl ?now r s w])
    case stopped
    then show ?thesis using eq nonces_ok_idle [OF assms(1) le] by auto
  next
    case limited
    then show ?thesis using eq by (auto intro!: nonces_ok_idle [OF assms(1) le])
  next
    case (unserved req)
    then show ?thesis using eq nonces_ok_used [OF assms(1) le] by auto
  next
    case (called req caller h)
    then show ?thesis using eq nonces_ok_called [OF assms(1) le called(4)] by (auto simp: VerifyRequest_iff)
  qed
next
  case (Let_in k g)
  with assms show ?thesis by (auto simp: Grant_def nonces_ok_def split: if_splits)
next
  case (Shut_out k)
  with assms show ?thesis by (auto simp: Revoke_def nonces_ok_def)
next
  case (Add_handler m h)
  with assms show ?thesis by (auto simp: HandleMethod_def nonces_ok_def split: if_splits option.splits)
qed

definition recent_hits :: "rate_limiter \<Rightarrow> int \<Rightarrow> string \<Rightarrow> int list" where
  "recent_hits l clock key = filter (\<lambda>t. t > clock - rate_window l) (rate_hits l key)"

lemma rate_okD:
  assumes "rate_ok wl clock s"
  shows "subseq (filter (\<lambda>t. t > clock - rate_window (srvLimiter s)) (served_at wl s key)) (recent_hits (srvLimiter s) clock key)"
    "t \<in> set (served_at wl s key) \<Longrightarrow> t \<le> clock"
    "int (length (filter (\<lambda>t. u - rate_window (srvLimiter s) < t \<and> t \<le> u) (served_at wl s key))) \<le> rate_limit (srvLimiter s)"
  using assms by (auto simp: rate_ok_def recent_hits_def Let_def)

lemma recent_later:
  fixes clock clock' w :: int
  assumes "clock \<le> clock'"
  shows "filter (\<lambda>t. t > clock' - w) (filter (\<lambda>t. t > clock - w) ts) = filter (\<lambda>t. t > clock' - w) ts"
  using assms by (induction ts) auto

lemma recent_subseq:
  assumes "rate_ok wl clock s" and "clock \<le> clock'"
  shows "subseq (filter (\<lambda>t. t > clock' - rate_window (srvLimiter s)) (served_at wl s key)) (recent_hits (srvLimiter s) clock' key)"
  using subseq_filter [OF rate_okD(1) [OF assms(1)], of "\<lambda>t. t > clock' - rate_window (srvLimiter s)" key]
  by (simp only: recent_hits_def recent_later [OF assms(2)])

lemma rate_okI:
  assumes "\<And>key. subseq (filter (\<lambda>t. t > clock - rate_window (srvLimiter s)) (served_at wl s key))
      (recent_hits (srvLimiter s) clock key)"
    and "\<And>key t. t \<in> set (served_at wl s key) \<Longrightarrow> t \<le> clock"
    and "\<And>key u. int (length (filter (\<lambda>t. u - rate_window (srvLimiter s) < t \<and> t \<le> u) (served_at wl s key)))
      \<le> rate_limit (srvLimiter s)"
  shows "rate_ok wl clock s"
  using assms by (simp add: rate_ok_def recent_hits_def Let_def)

lemma rate_ok_tick:
  assumes "rate_ok wl clock s" and "clock \<le> clock'"
  shows "rate_ok wl clock' s"
  by (rule rate_okI [OF recent_subseq [OF assms] order_trans [OF rate_okD(2) [OF assms(1)] assms(2)] rate_okD(3) [OF assms(1)]])

lemma rate_ok_cong:
  "srvLimiter s' = srvLimiter s \<Longrightarrow> served s' = served s \<Longrightarrow> rate_ok wl clock s' \<longleftrightarrow> rate_ok wl clock s"
  by (simp add: rate_ok_def served_at_def)

lemma recent_hits_allow:
  "recent_hits (snd (allow l key now)) now k =
     recent_hits l now k @ (if k = key \<and> fst (allow l key now) \<and> 0 < rate_window l then [now] else [])"
  by (auto simp: recent_hits_def allow_hits allow_keeps)

lemma rate_ok_allow:
  assumes ok: "rate_ok wl clock s" and le: "clock \<le> now"
  shows "rate_ok wl now (s\<lparr>srvLimiter := snd (allow (srvLimiter s) key now)\<rparr>)"
proof -
  let ?s = "s\<lparr>srvLimiter := snd (allow (srvLimiter s) key now)\<rparr>"
  have at: "served_at wl ?s k = served_at wl s k" for k by (simp add: served_at_def)
  have "subseq (filter (\<lambda>t. t > now - rate_window (srvLimiter s)) (served_at wl s k))
      (recent_hits (snd (allow (srvLimiter s) key now)) now k)" for k
    unfolding recent_hits_allow by (rule list_emb_prefix [OF recent_subseq [OF ok le]])
  then show ?thesis
    by (intro rate_okI) (use rate_okD(2,3) [OF rate_ok_tick [OF ok le]] in \<open>simp_all add: allow_keeps at\<close>)
qed

lemma rate_ok_called:
  assumes ok: "rate_ok wl clock s" and le: "clock \<le> now" and win: "0 < rate_window (srvLimiter s)"
    and al: "fst (allow (srvLimiter s) key now)" and key: "key = ToLower (DERHex wl caller)"
  shows "rate_ok wl now (s\<lparr>srvLimiter := snd (allow (srvLimiter s) key now), srvNonces := c,
                          served := served s @ [(caller, req, now)]\<rparr>)"
proof -
  let ?l = "srvLimiter s" let ?w = "rate_window ?l" let ?l' = "snd (allow ?l key now)"
  let ?s = "s\<lparr>srvLimiter := ?l', srvNonces := c, served := served s @ [(caller, req, now)]\<rparr>"
  have at: "served_at wl ?s k = served_at wl s k @ (if k = key then [now] else [])" for k
    by (auto simp: served_at_def key)
  have "int (length (recent_hits ?l now key)) < rate_limit ?l"
    using al by (simp add: allow_iff recent_hits_def)
  moreover have "length (filter (\<lambda>t. t > now - ?w) (served_at wl s key)) \<le> length (recent_hits ?l now key)"
    using recent_subseq [OF ok le] by (rule list_emb_length)
  ultimately have room: "int (length (filter (\<lambda>t. t > now - ?w) (served_at wl s key))) < rate_limit ?l" by simp
  have old: "t \<le> clock" if "t \<in> set (served_at wl s k)" for t k using rate_okD(2) [OF ok that] .
  have count: "int (length (filter (\<lambda>t. u - ?w < t \<and> t \<le> u) (served_at wl ?s k))) \<le> rate_limit ?l" for u k
  proof (cases "k = key \<and> u - ?w < now \<and> now \<le> u")
    case True
    have "filter (\<lambda>t. u - ?w < t \<and> t \<le> u) (served_at wl s key)
        = filter (\<lambda>t. u - ?w < t \<and> t \<le> u) (filter (\<lambda>t. t > now - ?w) (served_at wl s key))"
      using True by (auto intro!: filter_cong)
    then have "length (filter (\<lambda>t. u - ?w < t \<and> t \<le> u) (served_at wl s key))
        \<le> length (filter (\<lambda>t. t > now - ?w) (served_at wl s key))" by (metis length_filter_le)
    with room True show ?thesis by (simp add: at)
  next
    case False
    then have "filter (\<lambda>t. u - ?w < t \<and> t \<le> u) (served_at wl ?s k)
        = filter (\<lambda>t. u - ?w < t \<and> t \<le> u) (served_at wl s k)" by (auto simp: at)
    then show ?thesis using rate_okD(3) [OF ok, of u k] by simp
  qed
  have "subseq (filter (\<lambda>t. t > now - ?w) (served_at wl ?s k)) (recent_hits ?l' now k)" for k
    using recent_subseq [OF ok le, of k] win al by (simp add: recent_hits_allow at)
  moreover have "t \<le> now" if "t \<in> set (served_at wl ?s k)" for t k
    using that old [of t k] le by (auto simp: at split: if_splits)
  ultimately show ?thesis using count by (intro rate_okI) (simp_all add: allow_keeps)
qed

definition service_ok ::
  "('s, 'k, 'p) wire_lib \<Rightarrow> int \<Rightarrow> int \<times> ('w, 'k, 'p) server \<times> 'w \<Rightarrow> bool" where
  "service_ok wl lim st \<longleftrightarrow>
     (case st of (clock, s, w) \<Rightarrow> nonces_ok clock s \<and> rate_ok wl clock s
        \<and> rate_window (srvLimiter s) = 60 * Second \<and> rate_limit (srvLimiter s) = lim)"

lemma service_step_rate:
  assumes ok: "rate_ok wl clock s" and win: "rate_window (srvLimiter s) = 60 * Second"
    and step: "service_step wl (clock, s, w) e = (clock', s', w')"
  shows "rate_ok wl clock' s' \<and> rate_window (srvLimiter s') = 60 * Second \<and> rate_limit (srvLimiter s') = rate_limit (srvLimiter s)"
proof (cases e)
  case (Serve d r)
  let ?now = "clock + int d"
  have le: "clock \<le> ?now" by simp
  have pos: "0 < rate_window (srvLimiter s)" by (simp add: win Second_def)
  from Serve step have eq: "clock' = ?now" "snd (ServeHTTP wl ?now r (s, w)) = (s', w')" by auto
  show ?thesis
  proof (cases rule: ServeHTTP_cases [of wl ?now r s w])
    case stopped
    then show ?thesis using eq rate_ok_tick [OF ok le] win by auto
  next
    case (limited req caller)
    then show ?thesis using eq rate_ok_allow [OF ok le, of "ToLower (DERHex wl caller)"] win by (auto simp: allow_keeps)
  next
    case (unserved req caller)
    let ?l = "s\<lparr>srvLimiter := snd (allow (srvLimiter s) (ToLower (DERHex wl caller)) ?now)\<rparr>"
    from unserved eq have s': "s' = ?l\<lparr>srvNonces := snd (Use (srvNonces s) (RqNonce req) ?now)\<rparr>" by simp
    have "rate_ok wl ?now s' \<longleftrightarrow> rate_ok wl ?now ?l" unfolding s' by (rule rate_ok_cong) simp_all
    with rate_ok_allow [OF ok le] have "rate_ok wl ?now s'" by blast
    then show ?thesis using eq(1) win by (simp add: s' allow_keeps)
  next
    case (called req caller h)
    then show ?thesis using eq rate_ok_called [OF ok le pos called(3) refl] win by (auto simp: allow_keeps)
  qed
next
  case (Let_in k g)
  with step have "srvLimiter s' = srvLimiter s" "served s' = served s" "clock' = clock" by (auto simp: Grant_def split: if_splits)
  with ok win rate_ok_cong [of s' s wl clock] show ?thesis by simp
next
  case (Shut_out k)
  with step have "srvLimiter s' = srvLimiter s" "served s' = served s" "clock' = clock" by (auto simp: Revoke_def)
  with ok win rate_ok_cong [of s' s wl clock] show ?thesis by simp
next
  case (Add_handler m h)
  with step have "srvLimiter s' = srvLimiter s" "served s' = served s" "clock' = clock"
    by (auto simp: HandleMethod_def split: if_splits option.splits)
  with ok win rate_ok_cong [of s' s wl clock] show ?thesis by simp
qed

lemma service_step_ok:
  assumes "service_ok wl lim st"
  shows "service_ok wl lim (service_step wl st e)"
proof -
  obtain clock s w where st: "st = (clock, s, w)" by (cases st) auto
  obtain clock' s' w' where step: "service_step wl (clock, s, w) e = (clock', s', w')" by (metis prod_cases3)
  from assms have "nonces_ok clock s" "rate_ok wl clock s" "rate_window (srvLimiter s) = 60 * Second" "rate_limit (srvLimiter s) = lim"
    by (simp_all add: service_ok_def st)
  with service_step_nonces [OF _ step] service_step_rate [OF _ _ step] show ?thesis
    by (simp add: service_ok_def st step)
qed

interpretation service: machine "service_step wl" "service_ok wl lim"
  by unfold_locales (rule service_step_ok)

lemma NewServer_ok:
  assumes "NewServer kl cfg = Inr s0"
  shows "\<exists>rpm > 0. service_ok wl rpm (clock, s0, w) \<and> (CfgRequestsPerMinute cfg > 0 \<longrightarrow> rpm = CfgRequestsPerMinute cfg)"
  using assms
  by (auto simp: NewServer_def service_ok_def nonces_ok_def rate_ok_def served_at_def NewNonceCache_def newRateLimiter_def Let_def
      split: option.splits)

section \<open>Properties\<close>



text \<open>
  every caller is held to its rate. However calls arrive, in no minute does a server call handlers for one caller more
  often than its configured number of requests per minute.
\<close>

theorem callers_rate_limited:
  assumes "NewServer (key_lib.truncate wl) cfg = Inr s0" and "0 < CfgRequestsPerMinute cfg"
  shows "case run (service_step wl) (clock, s0, w) ops of (clock', s, w') \<Rightarrow>
     int (length (filter (\<lambda>t. u - 60 * Second < t \<and> t \<le> u) (served_at wl s key))) \<le> CfgRequestsPerMinute cfg"
proof -
  from NewServer_ok [OF assms(1)] assms(2)
  have "service_ok wl (CfgRequestsPerMinute cfg) (clock, s0, w)" by blast
  from service.run_inv [OF this, of ops] show ?thesis
    using rate_okD(3) [of wl] by (fastforce simp: service_ok_def split: prod.splits)
qed

section \<open>Signatures\<close>

definition req_fits :: "request \<Rightarrow> bool" where
  "req_fits r \<longleftrightarrow> list_all (\<lambda>f. length f < 2 ^ 64)
     [RqVersion r, RqMethod r, RqOriginator r, RqIdentityKey r, RqNonce r, RqAudience r] \<and> length (RqParams r) < 2 ^ 64"

lemma request_preimage_inj:
  assumes "req_fits q" and "req_fits r" and "request_preimage q = request_preimage r"
  shows "q\<lparr>RqSignature := ''''\<rparr> = r\<lparr>RqSignature := ''''\<rparr>"
  using assms
  by (simp add: request_preimage_def req_fits_def writeField_append_inj writeUint64_append_inj bytes_of_inj
      writeField_append_inj [of _ _ "[]" "[]", simplified])

lemma preimages_differ: "request_preimage q \<noteq> response_preimage render p"
proof
  assume "request_preimage q = response_preimage render p"
  then have "bytes_of ''brc100-substrate-request'' = bytes_of ''brc100-substrate-response''"
    unfolding request_preimage_def response_preimage_def
    by (subst (asm) writeField_append_inj) simp_all
  then show False by (simp add: bytes_of_inj)
qed

text \<open>
  what is signed says everything. Two requests with one digest agree in every field but the signature, or their
  encodings are two different byte strings with one hash; and no request shares its encoding with a response. So a
  signature over one cannot be moved to another.
\<close>

theorem request_digest_binds:
  assumes "req_fits q" and "req_fits r" and "requestDigest H q = requestDigest H r"
  shows "(q\<lparr>RqSignature := ''''\<rparr> = r\<lparr>RqSignature := ''''\<rparr>
          \<or> (\<exists>x y. x \<noteq> y \<and> H x = H y \<and> x = request_preimage q \<and> y = request_preimage r))
       \<and> request_preimage q \<noteq> response_preimage render p"
  using request_preimage_inj [OF assms(1,2)] assms(3) preimages_differ by (auto simp: requestDigest_def)

definition signs_well :: "('s, 'k, 'p) key_lib \<Rightarrow> 'p \<Rightarrow> bool" where
  "signs_well kl k \<longleftrightarrow>
     PublicKeyFromString kl (DERHex kl (PubKey kl k)) = Some (PubKey kl k) \<and> DERHex kl (PubKey kl k) \<noteq> ''''
   \<and> (\<forall>h s. Sign kl k h = Some s \<longrightarrow> s \<noteq> [] \<and> (\<exists>parsed. ParseDER kl s = Some parsed \<and> VerifySig kl parsed h (PubKey kl k)))"

lemma signature_irrelevant [simp]: "request_preimage (r\<lparr>RqSignature := x\<rparr>) = request_preimage r"
  by (simp add: request_preimage_def)

lemma SignRequest_Inr:
  assumes keys: "signs_well kl k" and signed: "SignRequest kl (Some (b # bs)) unixNow (Some r) (Some k) audience = Inr r'"
  shows "proven kl r' (PubKey kl k)" "RqVersion r' = Version" "RqMethod r' = RqMethod r" "RqOriginator r' = RqOriginator r"
    "RqParams r' = RqParams r" "RqNonce r' \<noteq> ''''" "RqIdentityKey r' \<noteq> ''''" "RqSignature r' \<noteq> ''''" "RqAudience r' = audience"
    "audience \<noteq> ''''"
proof -
  obtain u sig where u: "r' = u\<lparr>RqSignature := hex_encode sig\<rparr>" and sig: "Sign kl k (requestDigest (Sum256 kl) u) = Some sig"
    and f: "RqVersion u = Version" "RqMethod u = RqMethod r" "RqOriginator u = RqOriginator r" "RqParams u = RqParams r"
      "RqIdentityKey u = DERHex kl (PubKey kl k)" "RqAudience u = audience" "audience \<noteq> ''''" "RqNonce u \<noteq> ''''"
    using signed by (auto simp: SignRequest_def NewNonce_def Let_def split: if_splits option.splits)
  from keys sig obtain parsed where p: "sig \<noteq> []" "ParseDER kl sig = Some parsed"
      "VerifySig kl parsed (requestDigest (Sum256 kl) u) (PubKey kl k)"
    by (auto simp: signs_well_def)
  with keys f show "proven kl r' (PubKey kl k)" by (simp add: proven_def u signs_well_def requestDigest_def)
  from keys f p(1) show "RqVersion r' = Version" "RqMethod r' = RqMethod r" "RqOriginator r' = RqOriginator r"
    "RqParams r' = RqParams r" "RqNonce r' \<noteq> ''''" "RqIdentityKey r' \<noteq> ''''" "RqSignature r' \<noteq> ''''" "RqAudience r' = audience"
    "audience \<noteq> ''''"
    by (simp_all add: u signs_well_def)
qed

text \<open>
  signing a request makes it acceptable. If a key's signatures parse and verify under it and its hex form is read
  back, then a request for a served method from a well-formed originator, signed for a wallet, is accepted by that wallet
  as coming from that key at any time inside the window, with method and parameters as they were given.
\<close>

theorem signed_request_accepted:
  assumes keys: "signs_well kl k" and signed: "SignRequest kl (Some (b # bs)) unixNow (Some r) (Some k) audience = Inr r'"
    and r: "Known (RqMethod r)" "ValidateOriginator (RqOriginator r) = None" and now: "in_window r' now"
  shows "VerifyRequest kl r' now audience = Inr (PubKey kl k) \<and> RqMethod r' = RqMethod r \<and> RqParams r' = RqParams r"
  using SignRequest_Inr [OF keys signed] r now by (simp add: VerifyRequest_iff)

section \<open>A timestamp that never expires\<close>

text \<open>
  The window check fails open. A timestamp so far ahead that the difference saturates leaves a skew that
  negation does not make positive, so the request is inside the window now and at every later time before then: a request
  is accepted, or not, the same at both times.
\<close>

lemma far_future_never_expires:
  assumes "far_future r later" and "now \<le> later"
  shows "(\<exists>k. VerifyRequest kl r now audience = Inr k) \<longleftrightarrow> (\<exists>k. VerifyRequest kl r later audience = Inr k)"
proof -
  have "in_window r now" "in_window r later" using assms by (auto simp: in_window_def far_future_def)
  then show ?thesis by (simp add: VerifyRequest_iff)
qed

section \<open>A server to run\<close>

text \<open>Keys are bytes, a signature repeats the message after the key, and the body of byte \<open>n\<close> is the \<open>n\<close>th request.\<close>

definition echo_keys :: "(string, byte, byte) key_lib" where
  "echo_keys = signer.extend echo_signer
     \<lparr>PublicKeyFromString = (\<lambda>s. case s of [c] \<Rightarrow> Some (of_char c) | _ \<Rightarrow> None), Sum256 = (\<lambda>b. [of_nat (length b)])\<rparr>"

definition sample_unsigned :: request where
  "sample_unsigned = \<lparr>RqVersion = '''', RqMethod = MethodSignPot, RqOriginator = ''table.example'', RqParams = [1, 2, 3],
     RqIdentityKey = '''', RqNonce = '''', RqTimestamp = 0, RqAudience = '''', RqSignature = ''''\<rparr>"

definition sample_request :: request where
  "sample_request = (case SignRequest echo_keys (Some [5]) 1000 (Some sample_unsigned) (Some 7) [char_of (9::nat)]
     of Inr r \<Rightarrow> r | Inl e \<Rightarrow> sample_unsigned)"

definition echo_wire :: "(string, byte, byte) wire_lib" where
  "echo_wire = key_lib.extend echo_keys
     \<lparr>UnmarshalRequest = (\<lambda>b. if b = [0] then Some sample_request else None), MarshalResponse = (\<lambda>r. Some []),
      Render = (\<lambda>m. '''')\<rparr>"

definition sample_http :: http_request where
  "sample_http = \<lparr>HOrigin = '''', HMethod = ''POST'', HTLS = False, HBody = Some [0]\<rparr>"

definition sample_config :: "(nat, byte) server_config" where
  "sample_config = \<lparr>CfgWallet = Some 9, CfgApprover = Some (\<lambda>q w. (w, None)), CfgRequireTLS = False,
     CfgRequestsPerMinute = 2, CfgAllowedOrigins = []\<rparr>"

definition sample_server :: "(nat, byte, byte) server" where
  "sample_server = (case NewServer echo_keys sample_config of Inr s \<Rightarrow> s)"

definition sample_ops :: "(nat, byte) service_op list" where
  "sample_ops = [Let_in [char_of (7::nat)] [MethodSignPot], Add_handler MethodSignPot (Some (\<lambda>c p w. (w + length p, Inr None))),
     Serve 5 sample_http, Serve 1000 sample_http]"

lemma echo_wire_keys: "key_lib.truncate echo_wire = echo_keys"
  by (simp add: echo_wire_def key_lib.defs echo_keys_def signer.defs)

lemma sample_server_new: "NewServer (key_lib.truncate echo_wire) sample_config = Inr sample_server"
  unfolding echo_wire_keys by (simp add: sample_server_def NewServer_def sample_config_def Let_def)

lemma length_request_preimage:
  "length (request_preimage r) = 96 + length (RqVersion r) + length (RqMethod r) + length (RqOriginator r)
     + length (RqParams r) + length (RqIdentityKey r) + length (RqNonce r) + length (RqAudience r)"
  by (simp add: request_preimage_def writeField_def)

lemmas echo_defs = echo_wire_def echo_keys_def echo_signer_def key_lib.defs signer.defs

lemma sample_digits: "hex_digit 0 = CHR ''0''" "hex_digit 5 = CHR ''5''" "hex_digit 7 = CHR ''7''" "hex_digit 8 = CHR ''8''"
  "hex_digit 13 = CHR ''d''"
  by code_simp+

lemma sample_request_eq:
  "SignRequest echo_keys (Some [5]) 1000 (Some sample_unsigned) (Some 7) [char_of (9::nat)] = Inr sample_request"
  "sample_request = sample_unsigned\<lparr>RqVersion := Version, RqIdentityKey := [char_of (7::nat)], RqNonce := ''05'',
     RqTimestamp := 1000, RqAudience := [char_of (9::nat)], RqSignature := ''078d''\<rparr>"
  by (simp_all add: sample_request_def SignRequest_def sample_unsigned_def Let_def NewNonce_def hex_encode_def sample_digits
      requestDigest_def length_request_preimage echo_defs Version_def method_names)

lemma byte_of_char [simp]: "of_char (char_of (unat k)) = (k :: byte)"
proof -
  have "unat k < 256" using unsigned_less [of k] by simp
  then have "(of_nat (of_char (char_of (unat k))) :: byte) = k" by simp
  then show ?thesis by (simp only: of_nat_of_char)
qed

lemma echo_key_signs: "signs_well echo_keys k"
  by (simp add: signs_well_def echo_defs)

lemma sample_in_window: "in_window sample_request (1000 * Second + d)" if "\<bar>d\<bar> \<le> MaxClockSkew"
proof -
  have "time_Unix 1000 = 1000 * Second" by code_simp
  with that show ?thesis by (simp add: in_window_def sample_request_eq(2))
qed

theorem signed_request_accepted_witness:
  "VerifyRequest echo_keys sample_request (1000 * Second) [char_of (9::nat)] = Inr 7"
proof -
  have r: "Known (RqMethod sample_unsigned)" "ValidateOriginator (RqOriginator sample_unsigned) = None" by code_simp+
  have w: "in_window sample_request (1000 * Second)" using sample_in_window [of 0] by (simp add: MaxClockSkew_def Second_def)
  have "VerifyRequest echo_keys sample_request (1000 * Second) [char_of (9::nat)] = Inr (PubKey echo_keys 7)"
    using signed_request_accepted [OF echo_key_signs sample_request_eq(1) r w] by simp
  then show ?thesis by (simp add: echo_defs)
qed

lemma sample_accepted: "VerifyRequest echo_keys sample_request (1000 * Second + d) [char_of (9::nat)] = Inr 7"
  if "\<bar>d\<bar> \<le> MaxClockSkew"
proof -
  have "Known (RqMethod sample_unsigned)" "ValidateOriginator (RqOriginator sample_unsigned) = None" by code_simp+
  moreover have "PubKey echo_keys 7 = 7" by (simp add: echo_defs)
  ultimately show ?thesis
    using SignRequest_Inr [OF echo_key_signs sample_request_eq(1)] sample_in_window [OF that] by (simp add: VerifyRequest_iff)
qed

lemma sample_run:
  "case run (service_step echo_wire) (1000 * Second, sample_server, 0) sample_ops of (clock, s, w) \<Rightarrow>
     served s = [(7, sample_request, 1000 * Second + 5)] \<and> w = 3"
proof -
  have nonce: "RqNonce sample_request = ''05''" "RqMethod sample_request = MethodSignPot" "RqParams sample_request = [1, 2, 3]"
    by (simp_all add: sample_request_eq(2) sample_unsigned_def)
  have acc: "VerifyRequest (key_lib.truncate echo_wire) sample_request (1000 * Second + 5) [char_of (9::nat)] = Inr 7"
      "VerifyRequest (key_lib.truncate echo_wire) sample_request (1000 * Second + 1005) [char_of (9::nat)] = Inr 7"
    unfolding echo_wire_keys using sample_accepted [of 5] sample_accepted [of 1005] by (simp_all add: MaxClockSkew_def Second_def)
  have recv: "receive_request echo_wire s sample_http = Inr sample_request" if "\<not> srvRequireTLS s" for s :: "(nat, byte, byte) server"
    using that by (simp add: receive_request_def sample_http_def ToLower_def MaxBodyBytes_def echo_wire_def key_lib.defs)
  have "Known MethodSignPot" by code_simp
  moreover have "ToLower [char_of (7::nat)] = [char_of (7::nat)]" by code_simp
  moreover have "DERHex echo_keys k = [char_of (unat k)]" "DERHex echo_wire k = [char_of (unat k)]" "PubKey echo_keys k = k"
      "PublicKeyFromString echo_keys [c] = Some (of_char c)" for k c
    by (simp_all add: echo_defs)
  ultimately show ?thesis
    using acc recv
    by (simp add: sample_ops_def sample_server_def sample_config_def NewServer_def Grant_def HandleMethod_def ServeHTTP_def
        Let_def nonce allow_def newRateLimiter_def NewNonceCache_def Use_def sweep_def Allows_def echo_wire_keys
        time_Sub_def minDuration_def maxDuration_def Second_def MaxClockSkew_def)
qed


theorem callers_rate_limited_witness:
  "\<exists>clock s w. run (service_step echo_wire) (1000 * Second, sample_server, 0) sample_ops = (clock, s, w)
     \<and> served s \<noteq> [] \<and> int (length (filter (\<lambda>t. 1001 * Second - 60 * Second < t \<and> t \<le> 1001 * Second)
                               (served_at echo_wire s [char_of (7::nat)]))) \<le> 2"
  using callers_rate_limited [OF sample_server_new, where u = "1001 * Second" and clock = "1000 * Second" and w = 0
      and ops = sample_ops and key = "[char_of (7::nat)]"] sample_run
  by (cases "run (service_step echo_wire) (1000 * Second, sample_server, 0) sample_ops") (auto simp: sample_config_def)

theorem request_digest_binds_witness:
  "requestDigest (\<lambda>b. b) (sample_unsigned\<lparr>RqSignature := ''00''\<rparr>) = requestDigest (\<lambda>b. b) sample_unsigned
   \<and> sample_unsigned\<lparr>RqSignature := ''''\<rparr> = (sample_unsigned\<lparr>RqSignature := ''00''\<rparr>)\<lparr>RqSignature := ''''\<rparr>"
proof -
  have fit: "req_fits sample_unsigned" "req_fits (sample_unsigned\<lparr>RqSignature := ''00''\<rparr>)"
    by (simp_all add: req_fits_def sample_unsigned_def method_names)
  have eq: "requestDigest (\<lambda>b. b) (sample_unsigned\<lparr>RqSignature := ''00''\<rparr>) = requestDigest (\<lambda>b. b) sample_unsigned"
    by (simp add: requestDigest_def)
  from request_digest_binds [OF fit(2,1) eq] eq show ?thesis by auto
qed

end
