(* ===== verification/Agent_Service.thy ===== *)
theory Agent_Service
  imports Agent_Deal Substrate_Props
begin

text \<open>
  The agent behind its server (\<^verbatim>\<open>agent.go\<close>: New, registerHandlers, GrantTable, RevokeTable): the checks on the player's
  key, the twelve handlers, and the grants a table gets. The server's state \<open>'w\<close> is the agent.
\<close>

section \<open>Handlers\<close>

definition answer_of :: "('s, 'k, 'p, 'a, 'pt) deal_lib \<Rightarrow> agent_answer \<Rightarrow> handler_result" where
  "answer_of lib r = (case r of Inl e \<Rightarrow> Inl e | Inr x \<Rightarrow> Inr (Some (EncResult lib x)))"

definition acting ::
  "('s, 'k, 'p, 'a, 'pt) deal_lib \<Rightarrow> (bytes \<Rightarrow> ('p, 'pt, 'a) agent \<Rightarrow> ('p, 'pt, 'a) agent \<times> agent_answer)
     \<Rightarrow> (('p, 'pt, 'a) agent, 'k) handler" where
  "acting lib f = (\<lambda>caller params a. let (a', r) = f params a in (a', answer_of lib r))"

definition answering ::
  "('s, 'k, 'p, 'a, 'pt) deal_lib \<Rightarrow> (bytes \<Rightarrow> ('p, 'pt, 'a) agent \<Rightarrow> agent_answer) \<Rightarrow> (('p, 'pt, 'a) agent, 'k) handler" where
  "answering lib f = (\<lambda>caller params a. (a, answer_of lib (f params a)))"

definition deal_commit_call ::
  "('s, 'k, 'p, 'a, 'pt) deal_lib \<Rightarrow> bytes \<Rightarrow> ('p, 'pt, 'a) agent \<Rightarrow> ('p, 'pt, 'a) agent \<times> agent_answer" where
  "deal_commit_call lib params a =
     (let (draw, pl) = DrawSecrets lib (agPlayer a) in handleDealCommit lib draw params (a\<lparr>agPlayer := pl\<rparr>))"

definition agent_handlers ::
  "('s, 'k, 'p, 'a, 'pt) deal_lib \<Rightarrow> 'a player_approver \<Rightarrow> (wire_method \<times> (('p, 'pt, 'a) agent, 'k) handler) list" where
  "agent_handlers lib approve =
     (let al = agent_lib.truncate lib
      in [(MethodGetPublicKey, answering lib (\<lambda>params. handleGetPublicKey)),
          (MethodGetNetwork, acting lib (\<lambda>params. handleGetNetwork al)),
          (MethodSignPot, acting lib (handleSignPot al approve)),
          (MethodRecordStake, acting lib (handleRecordStake al)),
          (MethodSignRefund, answering lib (handleSignRefund al)),
          (MethodInternalizeAction, acting lib (handleInternalize al)),
          (MethodDealCommit, acting lib (deal_commit_call lib)),
          (MethodDealShuffle, acting lib (handleDealShuffle lib)),
          (MethodDealRemask, acting lib (handleDealRemask lib)),
          (MethodDealReveal, answering lib (handleDealReveal lib)),
          (MethodDealFinal, acting lib (handleDealFinal lib)),
          (MethodDealCard, answering lib (handleDealCard lib))])"

fun register_each ::
  "(wire_method \<times> ('w, 'k) handler) list \<Rightarrow> ('w, 'k, 'p) server \<Rightarrow> (server_error, ('w, 'k, 'p) server) outcome" where
  "register_each [] s = (None, s)"
| "register_each ((m, h) # hs) s =
     (case HandleMethod m (Some h) s of (Some e, s) \<Rightarrow> (Some e, s) | (None, s) \<Rightarrow> register_each hs s)"

definition registerHandlers ::
  "('s, 'k, 'p, 'a, 'pt) deal_lib \<Rightarrow> 'a player_approver \<Rightarrow> (('p, 'pt, 'a) agent, 'k, 'p) server
     \<Rightarrow> (server_error, (('p, 'pt, 'a) agent, 'k, 'p) server) outcome" where
  "registerHandlers lib approve s = register_each (agent_handlers lib approve) s"

section \<open>Making an agent\<close>

record 'a agent_config =
  AcPrivateKeyHex :: string
  AcWallet :: "'a option"
  AcApprover :: "'a player_approver option"
  AcRequireTLS :: bool
  AcOriginator :: string
  AcAllowedOrigins :: "string list"

datatype agent_error = WalletRequired | AgentApproverRequired | OriginatorRequired | KeyNotHex | KeyLength nat | KeyZero
  | KeyTooLarge | KeyInvalid | ServerFailed server_error | RegisterFailed server_error

definition lift_approver :: "'a player_approver \<Rightarrow> ('p, 'pt, 'a) agent approver" where
  "lift_approver approve = (\<lambda>req a. let (pl, v) = approve req (agPlayer a) in (a\<lparr>agPlayer := pl\<rparr>, v))"

definition Agent_New ::
  "('s, 'k, 'p, 'a, 'pt) deal_lib \<Rightarrow> 'a agent_config
     \<Rightarrow> (agent_error, ('p, 'pt, 'a) agent \<times> (('p, 'pt, 'a) agent, 'k, 'p) server) res" where
  "Agent_New lib cfg =
     (case AcWallet cfg of
        None \<Rightarrow> Inl WalletRequired
      | Some player \<Rightarrow>
     (case AcApprover cfg of
        None \<Rightarrow> Inl AgentApproverRequired
      | Some approve \<Rightarrow>
     if AcOriginator cfg = '''' then Inl OriginatorRequired
     else case hex_decode (TrimSpace (AcPrivateKeyHex cfg)) of
        None \<Rightarrow> Inl KeyNotHex
      | Some raw \<Rightarrow>
     if length raw \<noteq> 32 then Inl (KeyLength (length raw))
     else if be_nat raw = 0 then Inl KeyZero
     else if be_nat raw \<ge> CurveOrder lib then Inl KeyTooLarge
     else case KeyFromBytes lib raw of
        None \<Rightarrow> Inl KeyInvalid
      | Some priv \<Rightarrow>
     (case NewServer (key_lib.truncate lib)
             \<lparr>CfgWallet = Some priv, CfgApprover = Some (lift_approver approve), CfgRequireTLS = AcRequireTLS cfg,
              CfgRequestsPerMinute = 0, CfgAllowedOrigins = AcAllowedOrigins cfg\<rparr> of
        Inl e \<Rightarrow> Inl (ServerFailed e)
      | Inr srv \<Rightarrow>
     (case registerHandlers lib approve srv of
        (Some e, s) \<Rightarrow> Inl (RegisterFailed e)
      | (None, s) \<Rightarrow>
          Inr (\<lparr>agPriv = priv, agIdentity = DERHex lib (PubKey lib priv), agOriginator = AcOriginator cfg,
                agStakes = Map.empty, agDeals = newDealStore, agPlayer = player\<rparr>, s)))))"

definition GrantTable ::
  "('s, 'k, 'p, 'a, 'pt) deal_lib \<Rightarrow> string \<Rightarrow> ('w, 'k, 'p) server \<Rightarrow> (server_error option \<times> ('w, 'k, 'p) server) option" where
  "GrantTable lib tableKey s =
     (case TableGrants of None \<Rightarrow> None | Some g \<Rightarrow> Some (Grant (key_lib.truncate lib) tableKey g s))"

definition RevokeTable :: "string \<Rightarrow> ('w, 'k, 'p) server \<Rightarrow> ('w, 'k, 'p) server" where
  "RevokeTable tableKey s = Revoke tableKey s"

end
