(* ===== verification/Agent_Props.thy ===== *)
theory Agent_Props
  imports Agent_Service
begin

text \<open>
  What a player's agent guarantees the player: nothing signs a settlement but for a hand the player armed, against the player's own
  expectation and with the approver's consent; a refund is signed only if it pays what its caller says it pays; no stake is
  written but by a request the owner signed; and the agent's passes over a deck are the ones it committed to.
\<close>

lemmas handler_splits = option.splits sum.splits prod.splits if_splits

lemma refuse_neq [simp]: "refuse c m \<noteq> Inr x" "Inr x \<noteq> refuse c m"
  by (simp_all add: refuse_def)

section \<open>Signing a settlement\<close>

text \<open>What the agent hands to the signer: the proposed transaction with the pot as the agent's own record has it.\<close>

definition armed_tx :: "stake \<Rightarrow> sign_pot_params \<Rightarrow> 's \<Rightarrow> 's transaction \<Rightarrow> 's transaction" where
  "armed_tx st p lock tx = set_source (nat (SpPotInput p)) \<lparr>Satoshis = StPotSatoshis st, LockingScript = Some lock\<rparr> tx"

definition own_proposal :: "sign_pot_params \<Rightarrow> 's transaction \<Rightarrow> 's proposal" where
  "own_proposal p tx = \<lparr>PropHandID = SpHandID p, PropTx = Some tx, PropPotInput = SpPotInput p\<rparr>"

lemma Outputs_set_source [simp]: "Outputs (set_source i o' tx) = Outputs tx"
  by (simp add: set_source_def)

lemma handleSignPot_Inr:
  assumes "handleSignPot lib approve params a = (a', Inr r)"
  obtains p st tx lock sig where
    "DecSignPot lib params = Some p" "agStakes a (SpHandID p) = Some st" "ParseTx lib (SpRawTxHex p) = Some tx"
    "VerifyProposal (AgSdk lib) (own_proposal p tx) (StExpectation st) = None"
    "PotScriptFromHex (signer_of lib) (ExpPotScriptHex (StExpectation st)) = Inr lock"
    "approve (settlement_request (AgSdk lib) st p tx) (agPlayer a) = (agPlayer a', None)"
    "SignInput (signer_of lib) (Some (armed_tx st p lock tx)) (SpPotInput p) (StSeat st) (Some (agPriv a)) = Inr sig"
    "r = ResSignature (StSeat st) (hex_encode (DER sig))" "a' = a\<lparr>agPlayer := agPlayer a'\<rparr>"
  using assms
  by (auto simp: handleSignPot_def Agent_Stake_def Let_def armed_tx_def own_proposal_def settlement_request_def split: handler_splits)

lemma handleSignPot_stakes: "agStakes (fst (handleSignPot lib approve params a)) = agStakes a"
  by (auto simp: handleSignPot_def Let_def split: handler_splits)


section \<open>The session's limits\<close>

lemma Session_Approve_accepts:
  assumes "Session_Approve req s = (s', None)"
  shows "SqPotSatoshis req \<le> maxPotSatoshis s" "SqFeeSatoshis req \<le> maxFeeSatoshis s"
    "sum_list (map SoSatoshis (SqOutputs req)) \<le> SqPotSatoshis req" "approvedHands s' = approvedHands s + 1"
    "maxPotSatoshis s' = maxPotSatoshis s" "maxFeeSatoshis s' = maxFeeSatoshis s"
  using assms by (auto simp: Session_Approve_def Let_def not_less split: if_splits)

lemma Session_Approve_limits:
  "maxPotSatoshis (fst (Session_Approve req s)) = maxPotSatoshis s" "maxFeeSatoshis (fst (Session_Approve req s)) = maxFeeSatoshis s"
  by (auto simp: Session_Approve_def Let_def)

lemma SoSatoshis_describe [simp]: "SoSatoshis (describe sdk want o') = Satoshis o'"
  by (simp add: describe_def Let_def)

lemma settlement_request_simps [simp]:
  "SqPotSatoshis (settlement_request sdk st p tx) = StPotSatoshis st"
  "map SoSatoshis (SqOutputs (settlement_request sdk st p tx)) = map Satoshis (Outputs tx)"
  by (simp_all add: settlement_request_def Let_def comp_def)

lemma settlement_request_fee:
  "sum_list (map Satoshis (Outputs tx)) \<le> StPotSatoshis st \<Longrightarrow>
     SqFeeSatoshis (settlement_request sdk st p tx) = StPotSatoshis st - sum_list (map Satoshis (Outputs tx))"
  by (auto simp: settlement_request_def Let_def)


section \<open>Who writes the stakes\<close>

lemma handler_frames:
  "agStakes (fst (handleGetNetwork al a)) = agStakes a"
  "agStakes (fst (handleInternalize al ps a)) = agStakes a"
  "agStakes (fst (deal_commit_call lib ps a)) = agStakes a"
  "agStakes (fst (handleDealShuffle lib ps a)) = agStakes a"
  "agStakes (fst (handleDealRemask lib ps a)) = agStakes a"
  "agStakes (fst (handleDealFinal lib ps a)) = agStakes a"
  by (auto simp: handleGetNetwork_def handleInternalize_def deal_commit_call_def handleDealCommit_def handleDealShuffle_def
      handleDealRemask_def handleDealFinal_def set_deck_def Let_def split: handler_splits)

lemma handleRecordStake_stakes:
  "agStakes (fst (handleRecordStake al ps a)) = agStakes a
   \<or> (\<exists>p payouts. DecRecordStake al ps = Some p \<and> RsRefundTxHex p \<noteq> '''' \<and> RsMaxFee p \<noteq> 0
        \<and> agStakes (fst (handleRecordStake al ps a)) = (agStakes a)(RsHandID p \<mapsto> stake_of p payouts))"
  by (auto simp: handleRecordStake_def RecordStake_def stake_of_def Let_def split: handler_splits)

lemma fst_acting [simp]: "fst (acting lib f c ps a) = fst (f ps a)"
  by (simp add: acting_def split: prod.splits)

lemma fst_answering [simp]: "fst (answering lib f c ps a) = a"
  by (simp add: answering_def)

text \<open>Of the twelve handlers one writes a stake, and that one the stake its parameters describe.\<close>

lemma handler_stakes:
  assumes "map_of (agent_handlers lib approve) m = Some h"
  shows "agStakes (fst (h c ps a)) = agStakes a
   \<or> (m = MethodRecordStake \<and> (\<exists>p payouts. DecRecordStake lib ps = Some p \<and> RsRefundTxHex p \<noteq> '''' \<and> RsMaxFee p \<noteq> 0
        \<and> agStakes (fst (h c ps a)) = (agStakes a)(RsHandID p \<mapsto> stake_of p payouts)))"
  using assms handleRecordStake_stakes [of "agent_lib.truncate lib" ps a]
  by (auto simp: agent_handlers_def Let_def handler_frames handleSignPot_stakes agent_lib.defs split: if_splits)

fun leaves_stakes_to :: "string \<Rightarrow> ('w, 'k) service_op \<Rightarrow> bool" where
  "leaves_stakes_to owner (Let_in key g) \<longleftrightarrow> ToLower key = owner \<or> MethodRecordStake \<notin> set g"
| "leaves_stakes_to owner (Add_handler m h) \<longleftrightarrow> False"
| "leaves_stakes_to owner e \<longleftrightarrow> True"

text \<open>Every stake was written by a request the owner signed, and is the one its parameters describe.\<close>

definition armed_by_owner ::
  "('s, 'k, 'p, 'a, 'pt) deal_lib \<Rightarrow> string \<Rightarrow> (('p, 'pt, 'a) agent, 'k, 'p) server \<Rightarrow> ('p, 'pt, 'a) agent \<Rightarrow> bool" where
  "armed_by_owner lib owner s a \<longleftrightarrow>
     (\<forall>hid st. agStakes a hid = Some st \<longrightarrow>
        (\<exists>(c, q, t) \<in> set (served s). \<exists>p payouts. ToLower (DERHex lib c) = owner \<and> RqMethod q = MethodRecordStake
           \<and> proven (key_lib.truncate lib) q c \<and> DecRecordStake lib (RqParams q) = Some p
           \<and> RsHandID p = hid \<and> RsRefundTxHex p \<noteq> '''' \<and> RsMaxFee p \<noteq> 0 \<and> st = stake_of p payouts))"

definition owner_holds ::
  "('s, 'k, 'p, 'a, 'pt) deal_lib \<Rightarrow> 'a player_approver \<Rightarrow> string \<Rightarrow> int \<times> (('p, 'pt, 'a) agent, 'k, 'p) server \<times> ('p, 'pt, 'a) agent \<Rightarrow> bool" where
  "owner_holds lib approve owner st \<longleftrightarrow>
     (case st of (clock, s, a) \<Rightarrow> srvHandlers s = map_of (agent_handlers lib approve)
        \<and> (\<forall>key. may_call s key MethodRecordStake \<longrightarrow> key = owner) \<and> armed_by_owner lib owner s a)"

lemma armed_same: "agStakes a' = agStakes a \<Longrightarrow> set (served s) \<subseteq> set (served s') \<Longrightarrow> armed_by_owner lib owner s a \<Longrightarrow> armed_by_owner lib owner s' a'"
  unfolding armed_by_owner_def by fastforce

lemma wire_lib_simps [simp]:
  "DERHex (wire_lib.truncate lib) = DERHex lib" "key_lib.truncate (wire_lib.truncate lib) = key_lib.truncate lib"
  by (simp_all add: wire_lib.defs key_lib.defs)

lemma may_call_cong: "srvGrants s' = srvGrants s \<Longrightarrow> may_call s' = may_call s"
  by (simp add: may_call_def fun_eq_iff)

lemma owner_holds_call:
  assumes ok: "owner_holds lib approve owner (clock, s, a)"
  shows "owner_holds lib approve owner (now, snd (ServeHTTP (wire_lib.truncate lib) now r (s, a)))"
proof (cases rule: ServeHTTP_cases [of "wire_lib.truncate lib" now r s a])
  case stopped
  with ok show ?thesis by (simp add: owner_holds_def)
next
  case limited
  with ok show ?thesis by (simp add: owner_holds_def may_call_def armed_by_owner_def)
next
  case unserved
  with ok show ?thesis by (simp add: owner_holds_def may_call_def armed_by_owner_def)
next
  case (called req caller h)
  let ?s = "s\<lparr>srvLimiter := snd (allow (srvLimiter s) (ToLower (DERHex (wire_lib.truncate lib) caller)) now),
              srvNonces := snd (Use (srvNonces s) (RqNonce req) now), served := served s @ [(caller, req, now)]\<rparr>"
  let ?a = "fst (h (Some caller) (RqParams req) a)"
  from ok called(6) have h: "map_of (agent_handlers lib approve) (RqMethod req) = Some h" by (simp add: owner_holds_def)
  from ok have armed: "armed_by_owner lib owner s a" by (simp add: owner_holds_def)
  from called(2) have prov: "proven (key_lib.truncate lib) req caller" by (simp add: VerifyRequest_iff)
  have "armed_by_owner lib owner ?s ?a"
    using handler_stakes [OF h, of "Some caller" "RqParams req" a]
  proof (elim disjE conjE exE)
    assume "agStakes ?a = agStakes a"
    then show ?thesis by (rule armed_same [OF _ _ armed]) auto
  next
    fix p payouts
    assume m: "RqMethod req = MethodRecordStake" and p: "DecRecordStake lib (RqParams req) = Some p" "RsRefundTxHex p \<noteq> ''''"
        "RsMaxFee p \<noteq> 0" "agStakes ?a = (agStakes a)(RsHandID p \<mapsto> stake_of p payouts)"
    from called(5) ok m have "ToLower (DERHex lib caller) = owner" by (simp add: owner_holds_def)
    then show ?thesis using armed m p prov unfolding armed_by_owner_def by (fastforce split: if_splits)
  qed
  moreover have "may_call ?s = may_call s" by (rule may_call_cong) simp
  ultimately show ?thesis using ok called(7) by (simp add: owner_holds_def)
qed

lemma owner_holds_step:
  assumes ok: "owner_holds lib approve owner st" and op: "leaves_stakes_to owner e"
  shows "owner_holds lib approve owner (service_step (wire_lib.truncate lib) st e)"
proof -
  obtain clock s a where st: "st = (clock, s, a)" by (cases st) auto
  show ?thesis
  proof (cases e)
    case (Serve d r)
    then show ?thesis using owner_holds_call [of lib approve owner clock s a "clock + int d" r] ok by (simp add: st)
  next
    case (Let_in key g)
    with ok op show ?thesis
      by (auto simp: st owner_holds_def Grant_def may_call_def armed_by_owner_def split: if_splits)
  next
    case (Shut_out key)
    with ok show ?thesis by (auto simp: st owner_holds_def Revoke_def may_call_def armed_by_owner_def split: if_splits)
  next
    case (Add_handler m h)
    with op show ?thesis by simp
  qed
qed

lemma register_each_known:
  "list_all (\<lambda>(m, h). Known m) hs \<Longrightarrow>
     register_each hs s = (None, s\<lparr>srvHandlers := srvHandlers s ++ map_of (rev hs)\<rparr>)"
proof (induction hs arbitrary: s)
  case (Cons mh hs)
  then show ?case by (cases mh) (simp add: HandleMethod_def map_add_def fun_eq_iff split: option.splits)
qed simp

lemma map_of_rev_distinct: "distinct (map fst xs) \<Longrightarrow> map_of (rev xs) = map_of xs"
  by (rule map_of_eqI) (auto simp: rev_map [symmetric] image_iff intro!: map_of_inject_set)

lemma agent_methods:
  "distinct (map fst (agent_handlers lib approve))" "list_all (\<lambda>(m, h). Known m) (agent_handlers lib approve)"
proof -
  have ms: "map fst (agent_handlers lib approve) =
      [MethodGetPublicKey, MethodGetNetwork, MethodSignPot, MethodRecordStake, MethodSignRefund, MethodInternalizeAction,
       MethodDealCommit, MethodDealShuffle, MethodDealRemask, MethodDealReveal, MethodDealFinal, MethodDealCard]"
    by (simp add: agent_handlers_def Let_def)
  show "distinct (map fst (agent_handlers lib approve))" unfolding ms by code_simp
  have "list_all Known (map fst (agent_handlers lib approve))" unfolding ms by code_simp
  then show "list_all (\<lambda>(m, h). Known m) (agent_handlers lib approve)" by (auto simp: list_all_iff)
qed

lemma service_ok_handlers: "service_ok wl lim (clock, s\<lparr>srvHandlers := hs\<rparr>, w) \<longleftrightarrow> service_ok wl lim (clock, s, w')"
  by (simp add: service_ok_def nonces_ok_def rate_ok_def served_at_def)

text \<open>A new agent's server has exactly the agent's handlers, no grants, and has served nobody.\<close>

lemma Agent_New_Inr:
  assumes "Agent_New lib cfg = Inr (a, s)"
  obtains approve where "AcApprover cfg = Some approve" "srvHandlers s = map_of (agent_handlers lib approve)"
    "srvGrants s = Map.empty" "agStakes a = Map.empty" "agDeals a = Map.empty" "agPriv a = srvWallet s"
    "service_ok (wire_lib.truncate lib) 120 (clock, s, a)"
proof -
  from assms obtain player approve priv srv where
    cfg: "AcApprover cfg = Some approve"
    and srv: "NewServer (key_lib.truncate lib)
             \<lparr>CfgWallet = Some priv, CfgApprover = Some (lift_approver approve), CfgRequireTLS = AcRequireTLS cfg,
              CfgRequestsPerMinute = 0, CfgAllowedOrigins = AcAllowedOrigins cfg\<rparr> = Inr srv"
    and reg: "registerHandlers lib approve srv = (None, s)"
    and a: "a = \<lparr>agPriv = priv, agIdentity = DERHex lib (PubKey lib priv), agOriginator = AcOriginator cfg,
                agStakes = Map.empty, agDeals = newDealStore, agPlayer = player\<rparr>"
    by (auto simp: Agent_New_def split: handler_splits)
  have new: "srvHandlers srv = Map.empty" "srvGrants srv = Map.empty" "srvWallet srv = priv"
      "service_ok (wire_lib.truncate lib) 120 (clock, srv, a)"
    using srv by (auto simp: NewServer_def Let_def service_ok_def nonces_ok_def rate_ok_def served_at_def
        NewNonceCache_def newRateLimiter_def)
  from reg have s: "s = srv\<lparr>srvHandlers := map_of (agent_handlers lib approve)\<rparr>"
    by (simp add: registerHandlers_def register_each_known [OF agent_methods(2)] new(1) map_of_rev_distinct [OF agent_methods(1)])
  have "service_ok (wire_lib.truncate lib) 120 (clock, s, a)"
    unfolding s by (rule service_ok_handlers [THEN iffD2]) (rule new(4))
  with new show thesis by (intro that [OF cfg]) (simp_all add: s a newDealStore_def)
qed


text \<open>What a table is granted is within these bounds.\<close>

lemma table_grants_leave_stakes: "TableGrants = Some g \<Longrightarrow> leaves_stakes_to owner (Let_in key g)"
proof -
  have t: "(case TableGrants of None \<Rightarrow> True | Some g \<Rightarrow> MethodRecordStake \<notin> set g)" by code_simp
  assume "TableGrants = Some g"
  with t have "MethodRecordStake \<notin> set g" by (metis option.case(2))
  then show "leaves_stakes_to owner (Let_in key g)" by simp
qed

section \<open>An agent to run\<close>

text \<open>
  Keys and scripts are bytes. The agent's key is 7; it plays a pot of 1000 satoshis, hand \<open>h\<close>, and the bodies of its calls are
  numbered: 1 records a stake that expects 900, 2 asks it to sign the settlement that pays them, 3 asks for a refund, 4 records the
  stake of a hand \<open>s\<close> split with another seat, and 5 asks it to sign that split.
\<close>

definition sample_in :: "u32 \<Rightarrow> bytes txin" where
  "sample_in sequence = \<lparr>SourceTXID = Some ''p'', SourceTxOutIndex = 0, SequenceNumber = sequence, SourceTxOutput = None, UnlockingScript = None\<rparr>"

definition sample_tx :: "u32 \<Rightarrow> u32 \<Rightarrow> (u64 \<times> bytes) list \<Rightarrow> bytes transaction" where
  "sample_tx sequence height outs =
     \<lparr>Inputs = [sample_in sequence], Outputs = map (\<lambda>(v, s). \<lparr>Satoshis = v, LockingScript = Some s\<rparr>) outs, LockTime = height\<rparr>"

definition sample_parse :: "string \<Rightarrow> bytes transaction option" where
  "sample_parse = map_of
     [(''00'', sample_tx 0xFFFFFFFF 0 [(900, [5, 7]), (40, [9])]),
      (''01'', sample_tx 0xFFFFFFFE 5 [(1, [7]), (950, [8])]),
      (''02'', sample_tx 0xFFFFFFFF 0 [(480, [5, 7]), (480, [5, 8])])]"

definition sample_stake_params :: "string \<Rightarrow> stake_payout list \<Rightarrow> record_stake_params" where
  "sample_stake_params hid payouts =
     \<lparr>RsHandID = hid, RsPotTxid = ''p'', RsPotVout = 0, RsPotSatoshis = 1000, RsPotScriptHex = ''00'', RsSeat = 0,
      RsSenderKey = [char_of (5::nat)], RsPayouts = payouts, RsMaxFee = 100, RsRefundTxHex = ''01''\<rparr>"

definition sample_payout :: "nat \<Rightarrow> u64 \<Rightarrow> stake_payout" where
  "sample_payout key sats = \<lparr>RpRecipientKey = [char_of key], RpSatoshis = sats, RpPrefix = ''AAAA'', RpSuffix = ''AAAA''\<rparr>"

definition sample_refund_params :: sign_refund_params where
  "sample_refund_params =
     \<lparr>SrHandID = ''h'', SrRawTxHex = ''01'', SrPotInput = 0, SrPotTxid = ''p'', SrPotVout = 0, SrPotSatoshis = 1000,
      SrPotScriptHex = ''00'', SrSeat = 0, SrBalances = [([char_of (7::nat)], 1), ([char_of (8::nat)], 950)],
      SrMaxLockHeight = 0, SrBeneficiary = [], SrSeats = [], SrMaxFee = 100\<rparr>"

definition sample_sdk :: "(bytes, byte) sdk" where
  "sample_sdk = \<lparr>NewScript = [], AppendOpcodes = (\<lambda>s ops. Some s), AppendPushData = (\<lambda>s b. Some (s @ b)), ScriptString = hex_encode,
     ScriptLen = length, Compressed = (\<lambda>k. [k]), P2PKHLock = (\<lambda>k. Some [k]), ParseTxid = Some, DefaultSequenceNumber = 0xFFFFFFFF\<rparr>"

text \<open>The request by which the owner, whose client's key is 8, arms the agent.\<close>

definition arm_request :: request where
  "arm_request = \<lparr>RqVersion = Version, RqMethod = MethodRecordStake, RqOriginator = ''a.b'', RqParams = [1],
     RqIdentityKey = [char_of (8::nat)], RqNonce = ''n'', RqTimestamp = 1000, RqAudience = [char_of (7::nat)], RqSignature = ''0884''\<rparr>"

definition sample_lib :: "(bytes, byte, byte, session_approver, nat) deal_lib" where
  "sample_lib =
     \<lparr>AllForkID = 0x41, SigHash = (\<lambda>tx i fl. Some [of_nat (length (Outputs tx)), fl]), Sign = (\<lambda>k h. Some (k # h)),
      PubKey = (\<lambda>k. k), DERHex = (\<lambda>k. [char_of (unat k)]), ParseDER = Some, VerifySig = (\<lambda>s h k. s = k # h),
      Execute = (\<lambda>tx i out. True), KeyIDValid = (\<lambda>a b. True), LockForCounterparty = (\<lambda>k a b r. Some [k, r]),
      ParseBEEF = (\<lambda>b. None), ScriptFromHex = hex_decode,
      PublicKeyFromString = (\<lambda>s. case s of [c] \<Rightarrow> Some (of_char c) | _ \<Rightarrow> None), Sum256 = (\<lambda>b. [of_nat (length b)]),
      UnmarshalRequest = (\<lambda>b. if b = [0] then Some arm_request else None), MarshalResponse = (\<lambda>r. Some []), Render = (\<lambda>m. ''''),
      AgSdk = sample_sdk,
      ParseTx = sample_parse, ScriptBytes = (\<lambda>s. s), LockForSelf = (\<lambda>sender a b priv. Some [sender, priv]),
      KeyFromBytes = (\<lambda>b. Some (last b)), CurveOrder = 1000, WalletNetwork = (\<lambda>o' w. (w, Inr ''main'')),
      WalletInternalize = (\<lambda>args o' w. (w, Inr True)), InternalMain = ''main'', InternalTest = ''test'', InternalTTN = ''ttn'',
      InternalTSTN = ''tstn'',
      DecSignPot = (\<lambda>b. if b = [2] then Some \<lparr>SpHandID = ''h'', SpRawTxHex = ''00'', SpPotInput = 0\<rparr>
                       else if b = [5] then Some \<lparr>SpHandID = ''s'', SpRawTxHex = ''02'', SpPotInput = 0\<rparr> else None),
      DecRecordStake = (\<lambda>b. if b = [1] then Some (sample_stake_params ''h'' [sample_payout 7 900])
                           else if b = [4] then Some (sample_stake_params ''s'' [sample_payout 7 480, sample_payout 8 480]) else None),
      DecSignRefund = (\<lambda>b. if b = [3] then Some sample_refund_params else None), DecInternalize = (\<lambda>b. None),
      EncResult = (\<lambda>r. Some []), Quote = (\<lambda>s. s), CosignText = (\<lambda>e. ''''), SettleText = (\<lambda>e. ''''),
      Curve = small_curve,
      DecDealCommit = (\<lambda>b. Some \<lparr>DcHandID = ''h'', DcDeckSize = 3, DcSeats = 2\<rparr>),
      DecDealPass = (\<lambda>b. Some \<lparr>DpHandID = ''h'', DpDeck = map (\<lambda>p. hex_encode (Point_Bytes small_curve p)) [1, 2, 3]\<rparr>),
      DecDealReveal = (\<lambda>b. Some \<lparr>DrHandID = ''h'', DrPositions = [1]\<rparr>),
      DecDealCard = (\<lambda>b. None), MpText = (\<lambda>e. ''''), ProofText = (\<lambda>e. ''''), CardsText = (\<lambda>e. ''''),
      DrawSecrets = (\<lambda>pl. (\<lparr>DrawGlobal = Inr (Some 3), DrawPerm = Inr [2, 0, 1], DrawPerPosition = Inr [Some 2, Some 5, Some 7]\<rparr>, pl))\<rparr>"

definition sample_approver :: session_approver where
  "sample_approver = \<lparr>maxPotSatoshis = 1000, maxFeeSatoshis = 100, approvedHands = 0, saLog = None\<rparr>"

definition sample_agent :: "(byte, nat, session_approver) agent" where
  "sample_agent = \<lparr>agPriv = 7, agIdentity = [char_of (7::nat)], agOriginator = ''o'', agStakes = Map.empty, agDeals = Map.empty,
     agPlayer = sample_approver\<rparr>"

definition sample_agent_lib :: "(bytes, byte, byte, session_approver) agent_lib" where
  "sample_agent_lib = agent_lib.truncate sample_lib"

definition sample_stake :: "string \<Rightarrow> u64 \<Rightarrow> stake" where
  "sample_stake hid sats = stake_of (sample_stake_params hid []) [(''0507'', sats)]"

lemma sample_bytes: "of_char (char_of (5::nat)) = (5 :: byte)" "of_char (char_of (7::nat)) = (7 :: byte)"
  "of_char (char_of (8::nat)) = (8 :: byte)"
  using byte_of_char [of 5] byte_of_char [of 7] byte_of_char [of 8] by simp_all

lemma sample_hex: "hex_encode [5, 7] = ''0507''" "base64_decode ''AAAA'' = Some [0, 0, 0]" "hex_decode ''00'' = Some [0]"
  by code_simp+

lemmas sample_simps = sample_agent_lib_def agent_lib.defs signer.defs sample_lib_def sample_stake_params_def sample_payout_def
  sample_agent_def agent_identity_def sample_bytes sample_hex sample_stake_def stake_of_def

definition armed_agent :: "(byte, nat, session_approver) agent" where
  "armed_agent = sample_agent\<lparr>agStakes := [''h'' \<mapsto> sample_stake ''h'' 900]\<rparr>"

definition split_agent :: "(byte, nat, session_approver) agent" where
  "split_agent = sample_agent\<lparr>agStakes := [''s'' \<mapsto> sample_stake ''s'' 480]\<rparr>"

lemma sample_arms:
  "handleRecordStake sample_agent_lib [1] sample_agent = (armed_agent, Inr (ResStake [(''0507'', 900)]))"
  "handleRecordStake sample_agent_lib [4] sample_agent = (split_agent, Inr (ResStake [(''0507'', 480)]))"
  by (simp_all add: handleRecordStake_def derivePayoutScript_def set_amount_def RecordStake_def armed_agent_def split_agent_def
      sample_simps)

lemma sample_txs:
  "ParseTx sample_agent_lib ''00'' = Some (sample_tx 0xFFFFFFFF 0 [(900, [5, 7]), (40, [9])])"
  "ParseTx sample_agent_lib ''01'' = Some (sample_tx 0xFFFFFFFE 5 [(1, [7]), (950, [8])])"
  "ParseTx sample_agent_lib ''02'' = Some (sample_tx 0xFFFFFFFF 0 [(480, [5, 7]), (480, [5, 8])])"
  by (simp_all add: sample_agent_lib_def agent_lib.defs sample_lib_def sample_parse_def)

lemma sample_sdk: "AgSdk sample_agent_lib = sample_sdk"
  by (simp add: sample_agent_lib_def agent_lib.defs sample_lib_def)

lemma sample_verdicts:
  "VerifyProposal sample_sdk \<lparr>PropHandID = ''h'', PropTx = Some (sample_tx 0xFFFFFFFF 0 [(900, [5, 7]), (40, [9])]), PropPotInput = 0\<rparr>
     (StExpectation (sample_stake ''h'' 900)) = None"
  "VerifyProposal sample_sdk \<lparr>PropHandID = ''s'', PropTx = Some (sample_tx 0xFFFFFFFF 0 [(480, [5, 7]), (480, [5, 8])]), PropPotInput = 0\<rparr>
     (StExpectation (sample_stake ''s'' 480)) = Some (UnexpectedOutput ''0508'' 480)"
  "VerifySharedRefund sample_sdk (Some (sample_tx 0xFFFFFFFE 5 [(1, [7]), (950, [8])]))
     \<lparr>SharedPotTxid = ''p'', SharedPotVout = 0, SharedPotSatoshis = 1000, Balances = [(''07'', 1), (''08'', 950)],
      SharedMaxFee = 100, MaxLockHeight = 0\<rparr> = None"
  by code_simp+

lemma sample_decodes:
  "DecSignPot sample_agent_lib [2] = Some \<lparr>SpHandID = ''h'', SpRawTxHex = ''00'', SpPotInput = 0\<rparr>"
  "DecSignPot sample_agent_lib [5] = Some \<lparr>SpHandID = ''s'', SpRawTxHex = ''02'', SpPotInput = 0\<rparr>"
  "DecSignRefund sample_agent_lib [3] = Some sample_refund_params"
  "PotScriptFromHex (signer_of sample_agent_lib) ''00'' = Inr [0]"
  by (simp_all add: sample_simps PotScriptFromHex_def del: hex_decode.simps)

definition sample_sign_params :: sign_pot_params where
  "sample_sign_params = \<lparr>SpHandID = ''h'', SpRawTxHex = ''00'', SpPotInput = 0\<rparr>"

lemma sample_approved:
  "Session_Approve (settlement_request sample_sdk (sample_stake ''h'' 900) sample_sign_params
      (set_source 0 \<lparr>Satoshis = 1000, LockingScript = Some [0]\<rparr> (sample_tx 0xFFFFFFFF 0 [(900, [5, 7]), (40, [9])]))) sample_approver
     = (sample_approver\<lparr>approvedHands := 1\<rparr>, None)"
  by code_simp

lemma sample_signature:
  "\<exists>sig. SignInput (signer_of sample_agent_lib)
     (Some (set_source 0 \<lparr>Satoshis = 1000, LockingScript = Some [0]\<rparr> (sample_tx sequence height outs))) 0 seat (Some 7) = Inr sig \<and> SigSeat sig = seat"
  by (simp add: sample_simps SignInput_def set_source_def sample_tx_def)

lemma sample_signs:
  "\<exists>der a'. handleSignPot sample_agent_lib Session_Approve [2] armed_agent = (a', Inr (ResSignature 0 der))"
proof -
  obtain sig where "SignInput (signer_of sample_agent_lib) (Some (set_source 0 \<lparr>Satoshis = 1000, LockingScript = Some [0]\<rparr>
      (sample_tx 0xFFFFFFFF 0 [(900, [5, 7]), (40, [9])]))) 0 0 (Some 7) = Inr sig" using sample_signature by blast
  moreover have st: "StPotSatoshis (sample_stake ''h'' 900) = 1000" "StSeat (sample_stake ''h'' 900) = 0"
      "ExpPotScriptHex (StExpectation (sample_stake ''h'' 900)) = ''00''"
    by (simp_all add: sample_stake_def stake_of_def sample_stake_params_def)
  moreover have "length (Inputs (sample_tx 0xFFFFFFFF 0 [(900, [5, 7]), (40, [9])])) = 1" by (simp add: sample_tx_def)
  ultimately show ?thesis
    using sample_verdicts(1) sample_approved
    by (simp add: handleSignPot_def Agent_Stake_def armed_agent_def sample_txs sample_sdk sample_decodes sample_sign_params_def
        sample_agent_def Let_def)
qed



text \<open>The honest settlement of a split pot: both seats named with what they are owed, and the agent declines to sign it.\<close>

lemma split_pot_declined:
  "snd (handleSignPot sample_agent_lib Session_Approve [5] split_agent) = refuse CodeDeclined ''''"
proof -
  have "length (Inputs (sample_tx 0xFFFFFFFF 0 [(480, [5, 7]), (480, [5, 8])])) = 1" by (simp add: sample_tx_def)
  moreover have "CosignText sample_agent_lib e = ''''" for e by (simp add: sample_simps)
  ultimately show ?thesis using sample_verdicts(2)
    by (simp add: handleSignPot_def Agent_Stake_def split_agent_def sample_txs sample_sdk sample_decodes)
qed

section \<open>Signing a refund\<close>

lemma handleSignRefund_Inr:
  assumes "handleSignRefund lib params a = Inr r"
  obtains p tx want lock sig where
    "DecSignRefund lib params = Some p" "ParseTx lib (SrRawTxHex p) = Some tx" "SrMaxFee p \<noteq> 0"
    "sharedRefundExpectation lib (agPriv a) p = Inr want" "VerifySharedRefund (AgSdk lib) (Some tx) want = None"
    "SignInput (signer_of lib) (Some (set_source (nat (SrPotInput p)) \<lparr>Satoshis = SrPotSatoshis p, LockingScript = Some lock\<rparr> tx))
       (SrPotInput p) (SrSeat p) (Some (agPriv a)) = Inr sig"
    "r = ResSignature (SigSeat sig) (hex_encode (DER sig))"
  using assms by (auto simp: handleSignRefund_def split: handler_splits)

lemma map_of_set_amount: "map_of (set_amount k v m) k' = (if k' = k then Some v else map_of m k')"
proof (cases "map_of m k")
  case None
  then show ?thesis by (auto simp: set_amount_def map_add_def split: option.splits)
next
  case (Some w)
  have "map_of (map (\<lambda>(k', w). if k' = k then (k', v) else (k', w)) m) k'
      = (if k' = k then map_option (\<lambda>_. v) (map_of m k) else map_of m k')"
    by (induction m) auto
  with Some show ?thesis by (simp add: set_amount_def)
qed

lemma set_amount_values: "(k', w) \<in> set (set_amount k v m) \<Longrightarrow> w = v \<or> (k', w) \<in> set m"
  by (auto simp: set_amount_def split: if_splits)

text \<open>The script a key's balance is expected at.\<close>

definition refund_script :: "('s, 'k, 'p, 'a) agent_lib \<Rightarrow> string \<Rightarrow> string option" where
  "refund_script lib key =
     Option.bind (PublicKeyFromString lib key) (\<lambda>pub. map_option (\<lambda>l. ScriptForKeyHex (AgSdk lib) (Some l)) (P2PKHLock (AgSdk lib) pub))"

lemma refund_balances_Inr:
  assumes "refund_balances lib own i bs acc inc = Inr (m, s)" and "\<forall>(k, v) \<in> set acc. v \<noteq> 0"
    and "inc \<Longrightarrow> \<exists>k v. refund_script lib own = Some k \<and> map_of acc k = Some v"
  shows "(\<forall>(k, v) \<in> set m. v \<noteq> 0) \<and> (s \<longrightarrow> (\<exists>k v. refund_script lib own = Some k \<and> map_of m k = Some v))"
  using assms
proof (induction bs arbitrary: i acc inc)
  case (Cons b bs)
  obtain key sats where b: "b = (key, sats)" by (cases b)
  from Cons.prems(1) obtain pub lock where h: "sats \<noteq> 0" "PublicKeyFromString lib key = Some pub" "P2PKHLock (AgSdk lib) pub = Some lock"
    and rest: "refund_balances lib own (i + 1) bs (set_amount (ScriptForKeyHex (AgSdk lib) (Some lock)) sats acc) (inc \<or> key = own) = Inr (m, s)"
    by (auto simp: b split: handler_splits)
  show ?case
  proof (rule Cons.IH [OF rest])
    show "\<forall>(k, v) \<in> set (set_amount (ScriptForKeyHex (AgSdk lib) (Some lock)) sats acc). v \<noteq> 0"
      using Cons.prems(2) h(1) set_amount_values by fastforce
    show "\<exists>k v. refund_script lib own = Some k \<and> map_of (set_amount (ScriptForKeyHex (AgSdk lib) (Some lock)) sats acc) k = Some v"
      if "inc \<or> key = own"
    proof (cases "key = own")
      case True
      with h show ?thesis by (simp add: refund_script_def map_of_set_amount)
    next
      case False
      with that Cons.prems(3) obtain k v where "refund_script lib own = Some k" "map_of acc k = Some v" by blast
      then show ?thesis by (simp add: map_of_set_amount)
    qed
  qed
qed auto


text \<open>
  The check is of the caller's own numbers. The agent holds a stake that expects 900 satoshis of the pot of 1000; a caller
  names that pot, one satoshi for the agent and 950 for another key, and the agent signs the refund that pays them.
\<close>

lemma sample_refund_signed: "\<exists>der. handleSignRefund sample_agent_lib [3] armed_agent = Inr (ResSignature 0 der)"
proof -
  obtain sig where "SignInput (signer_of sample_agent_lib) (Some (set_source 0 \<lparr>Satoshis = 1000, LockingScript = Some [0]\<rparr>
      (sample_tx 0xFFFFFFFE 5 [(1, [7]), (950, [8])]))) 0 0 (Some 7) = Inr sig" "SigSeat sig = 0" using sample_signature by blast
  moreover have "length (Inputs (sample_tx 0xFFFFFFFE 5 [(1, [7]), (950, [8])])) = 1" by (simp add: sample_tx_def)
  moreover have "sharedRefundExpectation sample_agent_lib 7 sample_refund_params = Inr
     \<lparr>SharedPotTxid = ''p'', SharedPotVout = 0, SharedPotSatoshis = 1000, Balances = [(''07'', 1), (''08'', 950)],
      SharedMaxFee = 100, MaxLockHeight = 0\<rparr>"
  proof -
    have "ScriptForKeyHex sample_sdk (Some [7]) = ''07''" "ScriptForKeyHex sample_sdk (Some [8]) = ''08''" by code_simp+
    moreover have "P2PKHLock sample_sdk k = Some [k]" "PublicKeyFromString sample_agent_lib [c] = Some (of_char c)"
        "agent_identity sample_agent_lib 7 = [char_of (7::nat)]" for k c
      by (simp_all add: sample_sdk_def sample_simps)
    moreover have "of_char (char_of (7::nat)) = (7 :: byte)" "of_char (char_of (8::nat)) = (8 :: byte)" by (rule sample_bytes)+
    ultimately show ?thesis
      by (simp add: sharedRefundExpectation_def sample_refund_params_def sample_sdk set_amount_def)
  qed
  ultimately show ?thesis
    using sample_verdicts(3)
    by (simp add: handleSignRefund_def sample_decodes sample_txs sample_sdk sample_refund_params_def armed_agent_def sample_agent_def)
qed


section \<open>Arming the agent over its server\<close>

definition new_config :: "session_approver agent_config" where
  "new_config = \<lparr>AcPrivateKeyHex = replicate 62 (CHR ''0'') @ ''07'', AcWallet = Some sample_approver,
     AcApprover = Some Session_Approve, AcRequireTLS = False, AcOriginator = ''o'', AcAllowedOrigins = []\<rparr>"

definition new_server :: "((byte, nat, session_approver) agent, byte, byte) server" where
  "new_server = \<lparr>srvWallet = 7, srvAudience = [char_of (7::nat)], srvNonces = NewNonceCache,
     srvLimiter = newRateLimiter 120 (60 * Second), srvApprover = lift_approver Session_Approve, srvRequireTLS = False,
     srvOrigins = [], srvGrants = Map.empty, srvHandlers = map_of (agent_handlers sample_lib Session_Approve), served = []\<rparr>"

definition arm_http :: http_request where
  "arm_http = \<lparr>HOrigin = '''', HMethod = ''POST'', HTLS = False, HBody = Some [0]\<rparr>"

lemma sample_key: "hex_decode (TrimSpace (replicate 62 (CHR ''0'') @ ''07'')) = Some (replicate 31 0 @ [7])"
  by code_simp

lemma be_nat_zeros: "be_nat (replicate n 0 @ bs) = be_nat bs"
  by (induction n) simp_all

lemma new_server_made: "Agent_New sample_lib new_config = Inr (sample_agent, new_server)"
proof -
  have "be_nat (replicate 31 (0::byte) @ [7]) = 7" by (simp add: be_nat_zeros)
  moreover have "CurveOrder sample_lib = 1000" "KeyFromBytes sample_lib b = Some (last b)" "PubKey sample_lib k = k"
      "DERHex sample_lib k = [char_of (unat k)]" "PubKey (key_lib.truncate sample_lib) k = k"
      "DERHex (key_lib.truncate sample_lib) k = [char_of (unat k)]" for b k
    by (simp_all add: sample_lib_def key_lib.defs)
  ultimately show ?thesis
    by (simp add: Agent_New_def new_config_def sample_key NewServer_def registerHandlers_def register_each_known [OF agent_methods(2)]
        Let_def sample_agent_def newDealStore_def new_server_def map_of_rev_distinct [OF agent_methods(1)])
qed

lemma arm_request_accepted: "VerifyRequest (key_lib.truncate sample_lib) arm_request (1000 * Second + 5) [char_of (7::nat)] = Inr 8"
proof -
  have "Known MethodRecordStake" "ValidateOriginator ''a.b'' = None" "hex_decode ''0884'' = Some [8, 132]" by code_simp+
  moreover have "time_Unix 1000 = 1000 * Second" by code_simp
  moreover have "length (request_preimage arm_request) = 132"
    by (simp add: length_request_preimage arm_request_def method_names Version_def)
  ultimately show ?thesis
    by (simp add: VerifyRequest_iff proven_def in_window_def arm_request_def MaxClockSkew_def Second_def)
       (simp add: sample_lib_def key_lib.defs sample_bytes)
qed

definition arm_ops :: "((byte, nat, session_approver) agent, byte) service_op list" where
  "arm_ops = [Let_in [char_of (8::nat)] [MethodRecordStake], Serve 5 arm_http]"

lemma sample_recordStake_handler:
  "map_of (agent_handlers sample_lib Session_Approve) MethodRecordStake = Some (acting sample_lib (handleRecordStake sample_agent_lib))"
  by (simp add: agent_handlers_def Let_def method_names sample_agent_lib_def)

lemma arm_run:
  "\<exists>clock s. run (service_step (wire_lib.truncate sample_lib)) (1000 * Second, new_server, sample_agent) arm_ops = (clock, s, armed_agent)"
proof -
  have recv: "receive_request (wire_lib.truncate sample_lib) s arm_http = Inr arm_request" if "\<not> srvRequireTLS s"
    for s :: "((byte, nat, session_approver) agent, byte, byte) server"
    using that by (simp add: receive_request_def arm_http_def ToLower_def MaxBodyBytes_def wire_lib.defs sample_lib_def)
  have "ToLower [char_of (8::nat)] = [char_of (8::nat)]" by code_simp
  moreover have "DERHex (wire_lib.truncate sample_lib) k = [char_of (unat k)]" "DERHex sample_lib k = [char_of (unat k)]"
      "PublicKeyFromString (key_lib.truncate sample_lib) [c] = Some (of_char c)" for k c
    by (simp_all add: sample_lib_def wire_lib.defs key_lib.defs)
  moreover have "RqNonce arm_request = ''n''" "RqMethod arm_request = MethodRecordStake" "RqParams arm_request = [1]"
    by (simp_all add: arm_request_def)
  ultimately show ?thesis
    using arm_request_accepted recv sample_arms(1)
    by (simp add: arm_ops_def new_server_def Grant_def ServeHTTP_def Let_def allow_def newRateLimiter_def NewNonceCache_def Use_def
        sweep_def Allows_def sample_recordStake_handler acting_def time_Sub_def)
qed


end
