(* ===== verification/Agent_Deal_Props.thy ===== *)
theory Agent_Deal_Props
  imports Agent_Props Hand_Player_Props
begin

text \<open>
  The deal as an agent plays it: once a hand is committed to, its secrets and commitments stay, so every pass the agent makes
  verifies against what it published; and what the table, which drives the deal, can learn by driving it.
\<close>

section \<open>Deals over time\<close>

datatype deal_event = EvCommit deal_draw bytes | EvShuffle bytes | EvRemask bytes | EvFinal bytes

fun deal_step ::
  "('s, 'k, 'p, 'a, 'pt) deal_lib \<Rightarrow> ('p, 'pt, 'a) agent \<Rightarrow> deal_event \<Rightarrow> ('p, 'pt, 'a) agent" where
  "deal_step lib a (EvCommit draw ps) = fst (handleDealCommit lib draw ps a)"
| "deal_step lib a (EvShuffle ps) = fst (handleDealShuffle lib ps a)"
| "deal_step lib a (EvRemask ps) = fst (handleDealRemask lib ps a)"
| "deal_step lib a (EvFinal ps) = fst (handleDealFinal lib ps a)"

definition secrets_ok :: "('s, 'k, 'p, 'a, 'pt) deal_lib \<Rightarrow> 'pt deal_secrets \<Rightarrow> bool" where
  "secrets_ok lib s \<longleftrightarrow>
     CommitShuffle (Curve lib) (Sum256 lib) (dsGlobal s) (dsPerm s) = Inr (dsShuffleCommit s)
   \<and> CommitRemask (Curve lib) (Sum256 lib) (dsGlobal s) (dsPerPosition s) = Inr (dsRemaskCommit s)"

definition deals_ok :: "('s, 'k, 'p, 'a, 'pt) deal_lib \<Rightarrow> ('p, 'pt, 'a) agent \<Rightarrow> bool" where
  "deals_ok lib a \<longleftrightarrow> (\<forall>hid s. agDeals a hid = Some s \<longrightarrow> secrets_ok lib s)"

text \<open>The hand's secrets are these, whatever its deck.\<close>

definition holds_secrets :: "('p, 'pt, 'a) agent \<Rightarrow> string \<Rightarrow> 'pt deal_secrets \<Rightarrow> bool" where
  "holds_secrets a hid s \<longleftrightarrow> (\<exists>deck. agDeals a hid = Some (s\<lparr>dsDeck := deck\<rparr>))"

lemma secrets_ok_deck [simp]: "secrets_ok lib (s\<lparr>dsDeck := deck\<rparr>) = secrets_ok lib s"
  by (simp add: secrets_ok_def)

lemma agDeals_set_deck: "agDeals (set_deck hid deck a) h = (if h = hid then map_option (\<lambda>s. s\<lparr>dsDeck := deck\<rparr>) (agDeals a h) else agDeals a h)"
  by (simp add: set_deck_def)

lemma pass_moves:
  "fst (handleDealShuffle lib ps a) = a \<or> (\<exists>hid deck. fst (handleDealShuffle lib ps a) = set_deck hid deck a)"
  "fst (handleDealRemask lib ps a) = a \<or> (\<exists>hid deck. fst (handleDealRemask lib ps a) = set_deck hid deck a)"
  "fst (handleDealFinal lib ps a) = a \<or> (\<exists>hid deck. fst (handleDealFinal lib ps a) = set_deck hid deck a)"
  by (auto simp: handleDealShuffle_def handleDealRemask_def handleDealFinal_def split: handler_splits)

lemma begin_deal_result:
  "(\<exists>e. begin_deal lib draw hid n k d = (Inl e, d))
   \<or> (\<exists>s. d hid = Some s \<and> begin_deal lib draw hid n k d = (Inr s, d))
   \<or> (\<exists>s. d hid = None \<and> secrets_ok lib s \<and> begin_deal lib draw hid n k d = (Inr s, d(hid \<mapsto> s)))"
  unfolding begin_deal_def Let_def by (simp add: secrets_ok_def split: option.split sum.split)

lemma begin_deal_cases:
  obtains (none) e where "begin_deal lib draw hid n k d = (Inl e, d)"
  | (old) s where "d hid = Some s" "begin_deal lib draw hid n k d = (Inr s, d)"
  | (new) s where "d hid = None" "secrets_ok lib s" "begin_deal lib draw hid n k d = (Inr s, d(hid \<mapsto> s))"
  using begin_deal_result [of lib draw hid n k d] by blast

lemma commit_deals:
  obtains (same) "agDeals (fst (handleDealCommit lib draw ps a)) = agDeals a"
  | (fresh) hid s where "agDeals a hid = None" "secrets_ok lib s" "agDeals (fst (handleDealCommit lib draw ps a)) = (agDeals a)(hid \<mapsto> s)"
proof (cases "DecDealCommit lib ps")
  case None
  then show thesis by (intro same) (simp add: handleDealCommit_def)
next
  case (Some p)
  show thesis
  proof (cases "DcHandID p = '''' \<or> DcSeats p < 2")
    case True
    then show thesis by (intro same) (auto simp: handleDealCommit_def Some Let_def)
  next
    case False
    then show thesis
      by (cases rule: begin_deal_cases [of lib draw "DcHandID p" "if DcDeckSize p \<le> 0 then DeckSize else DcDeckSize p"
            "DcSeats p" "agDeals a"])
         (simp_all add: handleDealCommit_def Some Let_def same, rule fresh, simp_all add: handleDealCommit_def Some Let_def)
  qed
qed

lemma deal_step_cases:
  obtains (same) "agDeals (deal_step lib a e) = agDeals a"
  | (fresh) hid s where "agDeals a hid = None" "secrets_ok lib s" "agDeals (deal_step lib a e) = (agDeals a)(hid \<mapsto> s)"
  | (moved) hid deck where "deal_step lib a e = set_deck hid deck a"
proof (cases e)
  case (EvCommit draw ps)
  then show thesis by (cases rule: commit_deals [of lib draw ps a]) (auto intro: same fresh)
next
  case (EvShuffle ps)
  then show thesis using pass_moves(1) [of lib ps a] by (auto intro: same moved)
next
  case (EvRemask ps)
  then show thesis using pass_moves(2) [of lib ps a] by (auto intro: same moved)
next
  case (EvFinal ps)
  then show thesis using pass_moves(3) [of lib ps a] by (auto intro: same moved)
qed

lemma deal_step_ok:
  assumes "deals_ok lib a" shows "deals_ok lib (deal_step lib a e)"
  by (cases rule: deal_step_cases [of lib a e])
     (use assms in \<open>auto simp: deals_ok_def agDeals_set_deck split: if_splits\<close>)

interpretation deals: machine "deal_step lib" "deals_ok lib"
  by unfold_locales (rule deal_step_ok)

lemma deal_step_holds:
  assumes "holds_secrets a hid s" shows "holds_secrets (deal_step lib a e) hid s"
  by (cases rule: deal_step_cases [of lib a e])
     (use assms in \<open>auto simp: holds_secrets_def agDeals_set_deck\<close>)

lemma CommitShuffle_Inr:
  "CommitShuffle c H g perm = Inr h \<longleftrightarrow> Scalar_Valid c g \<and> perm \<noteq> [] \<and> hash_fields H (shuffle_fields g perm) = h"
  by (simp add: CommitShuffle_def)

lemma handleDealCommit_Inr:
  assumes "handleDealCommit lib draw ps a = (a', Inr r)"
  obtains p s where "DecDealCommit lib ps = Some p" "agDeals a' (DcHandID p) = Some s"
    "r = ResCommit (hex_encode (dsShuffleCommit s)) (hex_encode (dsRemaskCommit s))"
proof (cases "DecDealCommit lib ps")
  case None
  then show thesis using assms by (simp add: handleDealCommit_def)
next
  case (Some p)
  with assms have "\<not> (DcHandID p = '''' \<or> DcSeats p < 2)" by (auto simp: handleDealCommit_def Let_def split: if_splits)
  with assms Some show thesis
    by (cases rule: begin_deal_cases [of lib draw "DcHandID p" "if DcDeckSize p \<le> 0 then DeckSize else DcDeckSize p"
            "DcSeats p" "agDeals a"])
       (auto simp: handleDealCommit_def Let_def intro: that)
qed

lemma dealInput_Inr:
  "dealInput lib ps a = Inr (hid, s, deck) \<Longrightarrow> agDeals a hid = Some s"
  by (auto simp: dealInput_def split: handler_splits)

text \<open>
  C14: an agent's passes are the ones it committed to. Take any history of an agent that began with no deals, and a dealCommit
  it answers for a hand; let the table then drive any further commits and passes, for this hand or others, as it likes. Whenever
  the agent answers a shuffle or a remask of that hand's deck, the deck it sends back passes the public verification against
  the commitments it answered first: one global scalar, one permutation and one row of scalars explain them all.
\<close>

theorem deal_passes_committed:
  assumes "agDeals a0 = Map.empty"
    and "handleDealCommit lib draw cps (run (deal_step lib) a0 before) = (a1, Inr (ResCommit sc rc))"
    and "DecDealCommit lib cps = Some p"
    and "dealInput lib ps (run (deal_step lib) a1 after) = Inr (DcHandID p, s, deck)"
  shows "\<exists>g perm ss shuffled remasked. hex_decode sc = Some shuffled \<and> hex_decode rc = Some remasked
     \<and> (\<forall>a2 r. handleDealShuffle lib ps (run (deal_step lib) a1 after) = (a2, Inr r) \<longrightarrow>
          (\<exists>out. r = ResDeck (encode_hex_deck (Curve lib) out)
             \<and> VerifyShuffle (Curve lib) (Sum256 lib) deck out g perm shuffled = None))
     \<and> (\<forall>a2 r. handleDealRemask lib ps (run (deal_step lib) a1 after) = (a2, Inr r) \<longrightarrow>
          (\<exists>out. r = ResDeck (encode_hex_deck (Curve lib) out)
             \<and> VerifyRemask (Curve lib) (Sum256 lib) deck out g ss remasked = None))"
proof -
  let ?a = "run (deal_step lib) a0 before" and ?b = "run (deal_step lib) a1 after"
  from handleDealCommit_Inr [OF assms(2)] assms(3) obtain s1 where
    s1: "agDeals a1 (DcHandID p) = Some s1" "sc = hex_encode (dsShuffleCommit s1)" "rc = hex_encode (dsRemaskCommit s1)" by auto
  have "deals_ok lib a0" using assms(1) by (simp add: deals_ok_def)
  then have "deals_ok lib ?a" by (rule deals.run_inv)
  from deal_step_ok [OF this, of "EvCommit draw cps"] have ok: "deals_ok lib a1" using assms(2) by simp
  then have S: "secrets_ok lib s1" using s1(1) by (simp add: deals_ok_def)
  have "holds_secrets a1 (DcHandID p) s1" using s1(1) by (auto simp: holds_secrets_def intro: exI [of _ "dsDeck s1"])
  then have "holds_secrets ?b (DcHandID p) s1" by (rule deals.run_stable [OF ok]) (rule deal_step_holds)
  then obtain dk where "agDeals ?b (DcHandID p) = Some (s1\<lparr>dsDeck := dk\<rparr>)" by (auto simp: holds_secrets_def)
  then have s: "s = s1\<lparr>dsDeck := dk\<rparr>" using dealInput_Inr [OF assms(4)] by simp
  have "\<exists>out. r = ResDeck (encode_hex_deck (Curve lib) out)
      \<and> VerifyShuffle (Curve lib) (Sum256 lib) deck out (dsGlobal s1) (dsPerm s1) (dsShuffleCommit s1) = None"
    if "handleDealShuffle lib ps ?b = (a2, Inr r)" for a2 r
    using that S by (auto simp: handleDealShuffle_def assms(4) s secrets_ok_def VerifyShuffle_iff CommitShuffle_Inr split: sum.splits)
  moreover have "\<exists>out. r = ResDeck (encode_hex_deck (Curve lib) out)
      \<and> VerifyRemask (Curve lib) (Sum256 lib) deck out (dsGlobal s1) (dsPerPosition s1) (dsRemaskCommit s1) = None"
    if "handleDealRemask lib ps ?b = (a2, Inr r)" for a2 r
    using that S by (auto simp: handleDealRemask_def assms(4) s secrets_ok_def VerifyRemask_iff split: sum.splits)
  ultimately show ?thesis unfolding s1(2,3)
    by (intro exI [of _ "dsGlobal s1"] exI [of _ "dsPerm s1"] exI [of _ "dsPerPosition s1"] exI [of _ "dsShuffleCommit s1"]
        exI [of _ "dsRemaskCommit s1"] conjI hex_decode_encode) blast+
qed

text \<open>The agent to run, committed to its hand; a pass brings it the deck of three, in order.\<close>

definition sample_secrets :: "nat deal_secrets" where
  "sample_secrets =
     \<lparr>dsDeckSize = 3, dsGlobal = Some 3, dsPerm = [2, 0, 1], dsPerPosition = [Some 2, Some 5, Some 7],
      dsShuffleCommit = hash_fields (Sum256 sample_lib) (shuffle_fields (Some 3) [2, 0, 1]),
      dsRemaskCommit = hash_fields (Sum256 sample_lib) (remask_fields (Some 3) [Some 2, Some 5, Some 7]), dsDeck = [], dsSeats = 2\<rparr>"

definition dealt_agent :: "(byte, nat, session_approver) agent" where
  "dealt_agent = sample_agent\<lparr>agDeals := [''h'' \<mapsto> sample_secrets]\<rparr>"

lemma sample_commits:
  "CommitShuffle small_curve (Sum256 sample_lib) (Some 3) [2, 0, 1] = Inr (dsShuffleCommit sample_secrets)"
  "CommitRemask small_curve (Sum256 sample_lib) (Some 3) [Some 2, Some 5, Some 7] = Inr (dsRemaskCommit sample_secrets)"
proof -
  have "Scalar_Valid small_curve (Some 3)" "list_all (Scalar_Valid small_curve) [Some 2, Some 5, Some 7]" by code_simp+
  then show "CommitShuffle small_curve (Sum256 sample_lib) (Some 3) [2, 0, 1] = Inr (dsShuffleCommit sample_secrets)"
    "CommitRemask small_curve (Sum256 sample_lib) (Some 3) [Some 2, Some 5, Some 7] = Inr (dsRemaskCommit sample_secrets)"
    by (simp_all add: CommitShuffle_Inr CommitRemask_Inr sample_secrets_def)
qed

lemma sample_curve: "Curve sample_lib = small_curve"
  by (simp add: sample_lib_def)

lemma sample_commit_answer:
  "handleDealCommit sample_lib (fst (DrawSecrets sample_lib sample_approver)) [] sample_agent =
     (dealt_agent, Inr (ResCommit (hex_encode (dsShuffleCommit sample_secrets)) (hex_encode (dsRemaskCommit sample_secrets))))"
proof -
  have d: "fst (DrawSecrets sample_lib sample_approver)
      = \<lparr>DrawGlobal = Inr (Some 3), DrawPerm = Inr [2, 0, 1], DrawPerPosition = Inr [Some 2, Some 5, Some 7]\<rparr>"
    and p: "DecDealCommit sample_lib [] = Some \<lparr>DcHandID = ''h'', DcDeckSize = 3, DcSeats = 2\<rparr>"
    and a: "agDeals sample_agent = Map.empty"
    by (simp_all add: sample_lib_def sample_agent_def)
  have b: "begin_deal sample_lib (fst (DrawSecrets sample_lib sample_approver)) ''h'' 3 2 Map.empty = (Inr sample_secrets, [''h'' \<mapsto> sample_secrets])"
    unfolding d by (simp add: begin_deal_def sample_curve sample_commits) (simp add: sample_secrets_def Let_def)
  show ?thesis by (simp add: handleDealCommit_def p a b dealt_agent_def)
qed

lemma sample_points:
  "PointFromBytes small_curve (Point_Bytes small_curve 1) = Inr 1" "PointFromBytes small_curve (Point_Bytes small_curve 2) = Inr 2"
  "PointFromBytes small_curve (Point_Bytes small_curve 3) = Inr 3"
  by code_simp+

lemma sample_deck_input: "dealInput sample_lib [] dealt_agent = Inr (''h'', sample_secrets, [1, 2, 3])"
proof -
  have "PointFromBytes small_curve (Point_Bytes small_curve p) = Inr p" if "p \<in> set [1, 2, 3]" for p
    using that sample_points by auto
  moreover have "DeckFromPoints small_curve [1, 2, 3] = Inr [1, 2, 3]" by code_simp
  moreover have "DecDealPass sample_lib [] = Some \<lparr>DpHandID = ''h'', DpDeck = map (\<lambda>p. hex_encode (Point_Bytes small_curve p)) [1, 2, 3]\<rparr>"
    by (simp add: sample_lib_def)
  ultimately show ?thesis by (simp add: dealInput_def sample_curve dealt_agent_def sample_points sample_secrets_def del: One_nat_def)
qed

theorem deal_passes_committed_witness:
  "\<exists>shuffled out g perm. snd (handleDealCommit sample_lib (fst (DrawSecrets sample_lib sample_approver)) [] sample_agent)
        = Inr (ResCommit (hex_encode shuffled) (hex_encode (dsRemaskCommit sample_secrets)))
     \<and> snd (handleDealShuffle sample_lib [] dealt_agent) = Inr (ResDeck (encode_hex_deck small_curve out))
     \<and> VerifyShuffle small_curve (Sum256 sample_lib) [1, 2, 3] out g perm shuffled = None"
proof -
  have none: "agDeals sample_agent = Map.empty" by (simp add: sample_agent_def)
  have dec: "DecDealCommit sample_lib [] = Some \<lparr>DcHandID = ''h'', DcDeckSize = 3, DcSeats = 2\<rparr>" by (simp add: sample_lib_def)
  have "ShuffleStep small_curve [1, 2, 3] (Some 3) [2, 0, 1] = Inr [6, 9, 3]" by code_simp
  then have ans: "handleDealShuffle sample_lib [] dealt_agent
      = (set_deck ''h'' [6, 9, 3] dealt_agent, Inr (ResDeck (encode_hex_deck small_curve [6, 9, 3])))"
    by (simp add: handleDealShuffle_def sample_deck_input sample_curve sample_secrets_def)
  from deal_passes_committed [OF none, of sample_lib "fst (DrawSecrets sample_lib sample_approver)" "[]" "[]" dealt_agent
      "hex_encode (dsShuffleCommit sample_secrets)" "hex_encode (dsRemaskCommit sample_secrets)" _ "[]" "[]" sample_secrets "[1, 2, 3]"]
  obtain g perm shuffled out where "shuffled = dsShuffleCommit sample_secrets"
    "ResDeck (encode_hex_deck small_curve [6, 9, 3]) = ResDeck (encode_hex_deck small_curve out)"
    "VerifyShuffle small_curve (Sum256 sample_lib) [1, 2, 3] out g perm shuffled = None"
    using dec sample_commit_answer sample_deck_input ans by (fastforce simp: sample_curve)
  then show ?thesis using ans sample_commit_answer by auto
qed

section \<open>What a seat can read, and what the table can\<close>

lemma reveal_answers:
  assumes "agDeals a hid = Some s" "dsPerPosition s = PerPosition pl" "player_ok c n pl" "pos < n"
    and "DecDealReveal lib ps = Some \<lparr>DrHandID = hid, DrPositions = [int pos]\<rparr>"
  shows "handleDealReveal lib ps a = Inr (ResReveal [int pos] [hex_encode (Scalar_Bytes (PerPosition pl ! pos))])"
  using assms by (simp add: handleDealReveal_def player_ok_def)

definition read_scalar :: "'pt curve \<Rightarrow> string \<Rightarrow> scalar" where
  "read_scalar c h = (case hex_decode h of None \<Rightarrow> None | Some b \<Rightarrow> (case ScalarFromBytes c b of Inl e \<Rightarrow> None | Inr s \<Rightarrow> s))"

lemma read_scalar_sent: "curve_laws c \<Longrightarrow> Scalar_Valid c s \<Longrightarrow> read_scalar c (hex_encode (Scalar_Bytes s)) = s"
  by (simp add: read_scalar_def ScalarFromBytes_Bytes)

lemma read_disclosures_ok:
  assumes "curve_laws (Curve lib)" "\<forall>d \<in> set ds. \<exists>s. Scalar_Valid (Curve lib) s \<and> snd d = hex_encode (Scalar_Bytes s)"
  shows "read_disclosures lib ds = Inr (map (\<lambda>d. read_scalar (Curve lib) (snd d)) ds)"
  using assms(2)
proof (induction ds)
  case (Cons d ds)
  obtain seat h where d: "d = (seat, h)" by (cases d)
  with Cons.prems obtain s where s: "Scalar_Valid (Curve lib) s" "h = hex_encode (Scalar_Bytes s)" by auto
  show ?case using Cons s read_scalar_sent [OF assms(1) s(1)] ScalarFromBytes_Bytes [OF assms(1) s(1)] by (simp add: d)
qed simp

lemma FromIndex_ok: "k < 52 \<Longrightarrow> \<exists>cd. FromIndex (int k) = Inr cd"
  by (simp add: FromIndex_def DeckSize_def)

text \<open>The disclosures of every other seat, in whatever order they come, leave with the seat's own scalar all of the position's.\<close>

lemma other_disclosures:
  assumes L: "curve_laws (Curve lib)" and ok: "\<forall>s \<in> set ss. Scalar_Valid (Curve lib) s" and i: "i < length ss"
    and ds: "mset (map snd ds) = mset (map (\<lambda>s. hex_encode (Scalar_Bytes s)) ss) - {# hex_encode (Scalar_Bytes (ss ! i)) #}"
  shows "\<exists>scs. read_disclosures lib ds = Inr scs \<and> mset (ss ! i # scs) = mset ss"
proof -
  let ?h = "\<lambda>s. hex_encode (Scalar_Bytes s)" and ?r = "read_scalar (Curve lib)"
  have "\<exists>s. Scalar_Valid (Curve lib) s \<and> snd d = ?h s" if "d \<in> set ds" for d
  proof -
    have "snd d \<in># mset (map snd ds)" using that by simp
    then have "snd d \<in># mset (map ?h ss)" unfolding ds by (rule in_diffD)
    then obtain s where "s \<in> set ss" "snd d = ?h s" by auto
    with ok show ?thesis by blast
  qed
  then have "\<forall>d \<in> set ds. \<exists>s. Scalar_Valid (Curve lib) s \<and> snd d = ?h s" by blast
  from read_disclosures_ok [OF L this] have R: "read_disclosures lib ds = Inr (map (\<lambda>d. ?r (snd d)) ds)" .
  have "map (?r \<circ> ?h) ss = ss" using read_scalar_sent [OF L] ok by (simp add: map_idI)
  then have decoded: "image_mset ?r (mset (map ?h ss)) = mset ss" by (metis map_map mset_map)
  have "mset (map (\<lambda>d. ?r (snd d)) ds) = image_mset ?r (mset (map snd ds))"
    by (simp only: mset_map [symmetric] map_map comp_def)
  also have "\<dots> = image_mset ?r (mset (map ?h ss)) - {# ?r (?h (ss ! i)) #}"
    unfolding ds by (subst image_mset_Diff) (use i in auto)
  also have "\<dots> = mset ss - {# ss ! i #}" unfolding decoded using read_scalar_sent [OF L] ok i by simp
  finally show ?thesis using R i by simp
qed

text \<open>The agents of a finished deal: agent \<open>j\<close> holds for the hand what player \<open>j\<close> drew, and the final deck.\<close>

definition finished_deal ::
  "string \<Rightarrow> nat \<Rightarrow> mp_player list \<Rightarrow> 'pt list \<Rightarrow> ('p, 'pt, 'a) agent list \<Rightarrow> bool" where
  "finished_deal hid n pls e as \<longleftrightarrow> length as = length pls
     \<and> (\<forall>j < length pls. \<exists>s. agDeals (as ! j) hid = Some s \<and> dsPerPosition s = PerPosition (pls ! j)
          \<and> dsDeck s = e \<and> dsDeckSize s = int n)"

text \<open>
  C13: what reading a position takes. Take a finished deal of at most 52 positions between agents whose players drew valid
  secrets. Every agent answers a dealReveal for a position, whoever is granted the call; an agent that is handed the other agents'
  answers, in any order, answers dealCard with the card that lies there; and whoever has all the answers reads the
  same position from the final deck without any agent's help, as the table can that is granted dealReveal at every seat.
\<close>

theorem agents_read_dealt_card:
  assumes "curve_laws (Curve lib)" and "0 < n" "n \<le> 52" "n < CurveN (Curve lib)" and "list_all (player_ok (Curve lib) n) pls"
    and "BaseDeck (Curve lib) (int n) = Inr base" "shuffle_all (Curve lib) base pls = Inr d" "remask_all (Curve lib) d pls = Inr e"
    and "finished_deal hid n pls e as" and "pos < n"
    and "DecDealReveal lib rps = Some \<lparr>DrHandID = hid, DrPositions = [int pos]\<rparr>"
  shows "\<exists>hs k cd. length hs = length pls \<and> k < n \<and> FromIndex (int k) = Inr cd
     \<and> (\<forall>j < length pls. handleDealReveal lib rps (as ! j) = Inr (ResReveal [int pos] [hs ! j]))
     \<and> (\<forall>i < length pls. \<forall>cps ds. DecDealCard lib cps = Some \<lparr>DkHandID = hid, DkPosition = int pos, DkDisclosures = ds\<rparr>
            \<and> mset (map snd ds) = mset hs - {# hs ! i #} \<longrightarrow>
          handleDealCard lib cps (as ! i) = Inr (ResCard (Card_String cd)))
     \<and> (\<exists>pt. Deck_Unmask (Curve lib) e (int pos) (map (read_scalar (Curve lib)) hs) = Inr pt
          \<and> CardIndexOf (Curve lib) pt (int n) = Inr k)"
proof -
  let ?c = "Curve lib" and ?ss = "position_scalars pls pos" and ?h = "\<lambda>s. hex_encode (Scalar_Bytes s)"
  note L = assms(1)
  from dealt_reads [OF assms(1,2,4,5)] assms(6-8) obtain ord where
    ord: "length e = n" "mset ord = mset [0..<n]"
    and reads: "\<And>ss. mset ss = mset ?ss \<Longrightarrow> \<exists>pt. Deck_Unmask ?c e (int pos) ss = Inr pt \<and> CardIndexOf ?c pt (int n) = Inr (ord ! pos)"
    using assms(10) by fastforce
  have k: "ord ! pos < n" using mset_eq_setD [OF ord(2)] mset_eq_length [OF ord(2)] assms(10) by auto
  then obtain cd where cd: "FromIndex (int (ord ! pos)) = Inr cd" using FromIndex_ok [of "ord ! pos"] assms(3) by auto
  have ok: "\<forall>s \<in> set ?ss. Scalar_Valid ?c s" using position_scalars_ok [OF assms(5,10)] .
  have player: "player_ok ?c n (pls ! j)" if "j < length pls" for j using assms(5) that by (simp add: list_all_length)
  have reveals: "handleDealReveal lib rps (as ! j) = Inr (ResReveal [int pos] [map ?h ?ss ! j])" if j: "j < length pls" for j
    using reveal_answers [OF _ _ player [OF j] assms(10,11)] assms(9) j by (auto simp: finished_deal_def position_scalars_def)
  have card: "handleDealCard lib cps (as ! i) = Inr (ResCard (Card_String cd))"
    if i: "i < length pls" and dec: "DecDealCard lib cps = Some \<lparr>DkHandID = hid, DkPosition = int pos, DkDisclosures = ds\<rparr>"
      and ds: "mset (map snd ds) = mset (map ?h ?ss) - {# map ?h ?ss ! i #}" for i cps ds
  proof -
    have il: "i < length ?ss" using i by (simp add: position_scalars_def)
    obtain s where s: "agDeals (as ! i) hid = Some s" "dsPerPosition s = PerPosition (pls ! i)" "dsDeck s = e" "dsDeckSize s = int n"
      using assms(9) i by (auto simp: finished_deal_def)
    obtain scs where scs: "read_disclosures lib ds = Inr scs" "mset (?ss ! i # scs) = mset ?ss"
      using other_disclosures [OF L ok il] ds il by auto
    obtain pt where "Deck_Unmask ?c e (int pos) (?ss ! i # scs) = Inr pt" "CardIndexOf ?c pt (int n) = Inr (ord ! pos)"
      using reads [OF scs(2)] by blast
    moreover have "?ss ! i = dsPerPosition s ! pos" "length (dsPerPosition s) = n" "dsDeck s \<noteq> []"
      using i s(2,3) player [OF i] ord(1) assms(2) by (auto simp: position_scalars_def player_ok_def)
    ultimately show ?thesis using assms(10) by (simp add: handleDealCard_def dec s scs(1) cd)
  qed
  have "map (read_scalar ?c) (map ?h ?ss) = ?ss" using read_scalar_sent [OF L] ok by (simp add: map_idI)
  then have "\<exists>pt. Deck_Unmask ?c e (int pos) (map (read_scalar ?c) (map ?h ?ss)) = Inr pt \<and> CardIndexOf ?c pt (int n) = Inr (ord ! pos)"
    using reads [of ?ss] by simp
  with reveals card k cd show ?thesis
    by (intro exI [of _ "map ?h ?ss"] exI [of _ "ord ! pos"] exI [of _ cd]) (simp add: position_scalars_def)
qed

definition card_lib :: "(bytes, byte, byte, session_approver, nat) deal_lib" where
  "card_lib = sample_lib\<lparr>DecDealCard :=
     (\<lambda>b. Some \<lparr>DkHandID = ''h'', DkPosition = 1, DkDisclosures = [(''1'', hex_encode (Scalar_Bytes (Some 9)))]\<rparr>)\<rparr>"

definition reader :: "nat \<Rightarrow> (byte, nat, session_approver) agent" where
  "reader j = sample_agent\<lparr>agDeals := [''h'' \<mapsto> sample_secrets\<lparr>dsPerPosition := PerPosition (players_ex ! j), dsDeck := [2, 2, 9]\<rparr>]\<rparr>"

theorem agents_read_dealt_card_witness:
  "\<exists>cd. handleDealReveal card_lib [] (reader 1) = Inr (ResReveal [1] [hex_encode (Scalar_Bytes (Some 9))])
     \<and> handleDealCard card_lib [] (reader 0) = Inr (ResCard (Card_String cd))"
proof -
  have c: "Curve card_lib = small_curve" by (simp add: card_lib_def sample_curve)
  have n: "0 < (3::nat)" "3 \<le> (52::nat)" "3 < CurveN (Curve card_lib)" by (simp_all add: c) (simp add: small_curve_def)
  have ok: "list_all (player_ok small_curve 3) players_ex" by code_simp
  have deck: "BaseDeck small_curve (int 3) = Inr [1, 2, 3]" "shuffle_all small_curve [1, 2, 3] players_ex = Inr [6, 4, 2]"
    "remask_all small_curve [6, 4, 2] players_ex = Inr [2, 2, 9]" by code_simp+
  have fin: "finished_deal ''h'' 3 players_ex [2, 2, 9] [reader 0, reader 1]"
    by (simp add: finished_deal_def players_ex_def reader_def sample_secrets_def less_Suc_eq_0_disj all_conj_distrib numeral_2_eq_2)
  have dec: "DecDealReveal card_lib [] = Some \<lparr>DrHandID = ''h'', DrPositions = [int 1]\<rparr>"
    by (simp add: card_lib_def sample_lib_def)
  have got: "handleDealReveal card_lib [] (reader 1) = Inr (ResReveal [1] [hex_encode (Scalar_Bytes (Some 9))])"
    by (simp add: handleDealReveal_def dec reader_def players_ex_def)
  have p: "1 < (3::nat)" "length players_ex = 2" by (simp_all add: players_ex_def)
  from agents_read_dealt_card [OF small_laws [folded c] n ok [folded c] deck [folded c] fin p(1) dec]
  obtain hs k cd where hs: "length hs = 2"
    "\<forall>j < 2. handleDealReveal card_lib [] ([reader 0, reader 1] ! j) = Inr (ResReveal [int 1] [hs ! j])"
    and card: "\<forall>i < 2. \<forall>cps ds. DecDealCard card_lib cps = Some \<lparr>DkHandID = ''h'', DkPosition = int 1, DkDisclosures = ds\<rparr>
            \<and> mset (map snd ds) = mset hs - {# hs ! i #} \<longrightarrow>
          handleDealCard card_lib cps ([reader 0, reader 1] ! i) = Inr (ResCard (Card_String cd))"
    unfolding p(2) by blast
  have "hs ! 1 = hex_encode (Scalar_Bytes (Some 9))" using hs(2) [rule_format, of 1] got by simp
  then have "mset (map snd [(''1'', hex_encode (Scalar_Bytes (Some 9)))]) = mset hs - {# hs ! 0 #}"
    using hs(1) by (auto simp: numeral_2_eq_2 length_Suc_conv)
  with card [rule_format, of 0 "[]" "[(''1'', hex_encode (Scalar_Bytes (Some 9)))]"] got show ?thesis
    by (auto simp: card_lib_def)
qed

end
