(* ===== verification/Relay.thy ===== *)
theory Relay
  imports Poker_Prelude
begin

text \<open>
  The relay of \<^verbatim>\<open>internal/webui/relay.go\<close>: the table parks a signed request for a seat's wallet, the seat's browser
  collects it and posts the wallet's reply back. Each section of the code under the mutex is one operation. \<open>Do\<close> blocks
  between two of them: \<open>Do_park\<close> registers the request, \<open>Do_finish\<close> is what happens when the wait ends, with the reply in the
  channel (capacity one) or, when the context is done first, without. The clock is an argument.
\<close>

section \<open>State\<close>

record relay_reply =
  ReplyBody :: bytes
  ReplyErr :: "string option"

record relay_call =
  CallIdentityKey :: string
  CallBody :: bytes
  reply_chan :: "relay_reply option"
  CallDeadline :: int

record relay =
  pending :: "string \<rightharpoonup> relay_call"
  queued :: "string \<rightharpoonup> string list"

definition RelayURL :: string where "RelayURL = ''relay:browser''"

definition NewRelay :: relay where
  "NewRelay = \<lparr>pending = Map.empty, queued = Map.empty\<rparr>"

datatype relay_error = RelayNeedsSeatAndNonce | NonceInFlight string | RelayTimeout string | WalletUnreachable string

section \<open>Operations\<close>

definition relayTimeout :: int where "relayTimeout = 60 * 1000000000"

definition Do_park ::
  "string \<Rightarrow> string \<Rightarrow> bytes \<Rightarrow> int option \<Rightarrow> int \<Rightarrow> relay \<Rightarrow> (relay_error, relay) outcome" where
  "Do_park identityKey nonce body deadline now r =
     (if identityKey = '''' \<or> nonce = '''' then (Some RelayNeedsSeatAndNonce, r)
      else if pending r nonce \<noteq> None then (Some (NonceInFlight nonce), r)
      else (None, r\<lparr>pending := (pending r)(nonce \<mapsto>
                     \<lparr>CallIdentityKey = identityKey, CallBody = body, reply_chan = None,
                      CallDeadline = (case deadline of Some d \<Rightarrow> d | None \<Rightarrow> now + relayTimeout)\<rparr>),
                   queued := (queued r)(identityKey \<mapsto> (case queued r identityKey of None \<Rightarrow> [] | Some q \<Rightarrow> q) @ [nonce])\<rparr>))"

definition Do_finish :: "string \<Rightarrow> string \<Rightarrow> relay \<Rightarrow> (relay_error, bytes) res \<times> relay" where
  "Do_finish identityKey nonce r =
     ((case Option.bind (pending r nonce) reply_chan of
         None \<Rightarrow> Inl (RelayTimeout identityKey)
       | Some reply \<Rightarrow> (case ReplyErr reply of None \<Rightarrow> Inr (ReplyBody reply) | Some m \<Rightarrow> Inl (WalletUnreachable m))),
      r\<lparr>pending := (pending r)(nonce := None)\<rparr>)"

definition Collect :: "string \<Rightarrow> relay \<Rightarrow> (string \<times> bytes) list \<times> relay" where
  "Collect identityKey r =
     (case queued r identityKey of
        None \<Rightarrow> ([], r)
      | Some [] \<Rightarrow> ([], r)
      | Some nonces \<Rightarrow>
          (List.map_filter (\<lambda>n. map_option (\<lambda>c. (n, CallBody c)) (pending r n)) nonces,
           r\<lparr>queued := (queued r)(identityKey := None)\<rparr>))"

text \<open>\<open>Some\<close> is the error for a seat the request was not addressed to; a nonce nobody waits for is no error.\<close>

definition Deliver :: "string \<Rightarrow> string \<Rightarrow> bytes \<Rightarrow> string \<Rightarrow> relay \<Rightarrow> (string, relay) outcome" where
  "Deliver identityKey nonce body relayErr r =
     (case pending r nonce of
        None \<Rightarrow> (None, r)
      | Some c \<Rightarrow>
          if CallIdentityKey c \<noteq> identityKey then (Some ''webui: this seat is not the one that request was addressed to'', r)
          else case reply_chan c of
                 Some reply \<Rightarrow> (None, r)
               | None \<Rightarrow> (None, r\<lparr>pending := (pending r)(nonce \<mapsto> c\<lparr>reply_chan :=
                     Some \<lparr>ReplyBody = body, ReplyErr = (if relayErr = '''' then None else Some relayErr)\<rparr>\<rparr>)\<rparr>))"

definition Relay_Pending :: "relay \<Rightarrow> nat" where
  "Relay_Pending r = card (dom (pending r))"

section \<open>What a relay carries\<close>

text \<open>
  The calls on a relay, in the order the mutex admits them. \<open>Finish\<close> ends the wait of the \<open>Do\<close> that parked the nonce. Beside
  the relay the state keeps what went in and out: the requests parked, the items handed to browsers, the replies
  posted without an error, and the replies \<open>Do\<close> returned.
\<close>

datatype relay_op = Park string string bytes "int option" int | Fetch string | Post string string bytes string | Finish string string

record relay_log =
  parked :: "(string \<times> string \<times> bytes) list"
  handed :: "(string \<times> string \<times> bytes) list"
  posted :: "(string \<times> string \<times> bytes) list"
  returned :: "(string \<times> string \<times> bytes) list"

fun relay_step :: "relay \<times> relay_log \<Rightarrow> relay_op \<Rightarrow> relay \<times> relay_log" where
  "relay_step (r, l) (Park key nonce body deadline now) =
     (case Do_park key nonce body deadline now r of
        (Some e, r) \<Rightarrow> (r, l)
      | (None, r) \<Rightarrow> (r, l\<lparr>parked := parked l @ [(key, nonce, body)]\<rparr>))"
| "relay_step (r, l) (Fetch key) =
     (case Collect key r of (items, r) \<Rightarrow> (r, l\<lparr>handed := handed l @ map (\<lambda>(n, b). (key, n, b)) items\<rparr>))"
| "relay_step (r, l) (Post key nonce body err) =
     (case Deliver key nonce body err r of
        (Some e, r) \<Rightarrow> (r, l)
      | (None, r) \<Rightarrow> (r, l\<lparr>posted := posted l @ [(key, nonce, body)]\<rparr>))"
| "relay_step (r, l) (Finish key nonce) =
     (case pending r nonce of
        None \<Rightarrow> (r, l)
      | Some c \<Rightarrow>
          if CallIdentityKey c \<noteq> key then (r, l)
          else case Do_finish key nonce r of
                 (Inl e, r) \<Rightarrow> (r, l)
               | (Inr body, r) \<Rightarrow> (r, l\<lparr>returned := returned l @ [(key, nonce, body)]\<rparr>))"

definition relay_fresh :: "relay \<times> relay_log" where
  "relay_fresh = (NewRelay, \<lparr>parked = [], handed = [], posted = [], returned = []\<rparr>)"


definition nonce_of :: "string \<times> string \<times> bytes \<Rightarrow> string" where
  "nonce_of e = fst (snd e)"

lemma nonce_of_simp [simp]: "nonce_of (k, n, b) = n"
  by (simp add: nonce_of_def)

definition relay_ok :: "relay \<times> relay_log \<Rightarrow> bool" where
  "relay_ok rl \<longleftrightarrow> (case rl of (r, l) \<Rightarrow>
     (\<forall>n c. pending r n = Some c \<longrightarrow> (CallIdentityKey c, n, CallBody c) \<in> set (parked l)
        \<and> (\<forall>rep. reply_chan c = Some rep \<longrightarrow> (CallIdentityKey c, n, ReplyBody rep) \<in> set (posted l)))
   \<and> (\<forall>key q. queued r key = Some q \<longrightarrow> (\<forall>n \<in> set q. \<exists>b. (key, n, b) \<in> set (parked l)))
   \<and> (\<forall>(k, n, b) \<in> set (returned l). (k, n, b) \<in> set (posted l) \<and> (\<exists>b'. (k, n, b') \<in> set (parked l)))
   \<and> (distinct (map nonce_of (parked l)) \<longrightarrow>
        set (handed l) \<subseteq> set (parked l) \<and> distinct (map nonce_of (handed l))
      \<and> (\<forall>key q. queued r key = Some q \<longrightarrow> distinct q \<and> (\<forall>n \<in> set q. n \<notin> nonce_of ` set (handed l)))))"

text \<open>Where nonces are parked once, a nonce determines its entry.\<close>

lemma parked_unique:
  "distinct (map nonce_of xs) \<Longrightarrow> (k, n, b) \<in> set xs \<Longrightarrow> (k', n, b') \<in> set xs \<Longrightarrow> k = k' \<and> b = b'"
  unfolding distinct_map by (metis inj_onD nonce_of_simp prod.inject)

lemma distinct_map_filter: "distinct ns \<Longrightarrow> (\<And>n x. f n = Some x \<Longrightarrow> g x = n) \<Longrightarrow> distinct (map g (List.map_filter f ns))"
  by (induction ns) (auto simp: map_filter_simps map_filter_def split: option.splits)

lemma relay_ok_park:
  assumes ok: "relay_ok (r, l)" shows "relay_ok (relay_step (r, l) (Park key nonce body deadline now))"
proof (cases "key = '''' \<or> nonce = '''' \<or> pending r nonce \<noteq> None")
  case True
  with ok show ?thesis by (auto simp: Do_park_def)
next
  case False
  let ?c = "\<lparr>CallIdentityKey = key, CallBody = body, reply_chan = None,
      CallDeadline = (case deadline of Some d \<Rightarrow> d | None \<Rightarrow> now + relayTimeout)\<rparr>"
  define q' where "q' = (case queued r key of None \<Rightarrow> [] | Some q \<Rightarrow> q) @ [nonce]"
  have step: "relay_step (r, l) (Park key nonce body deadline now)
      = (r\<lparr>pending := (pending r)(nonce \<mapsto> ?c), queued := (queued r)(key \<mapsto> q')\<rparr>, l\<lparr>parked := parked l @ [(key, nonce, body)]\<rparr>)"
    using False by (simp add: Do_park_def q'_def)
  have q: "\<exists>b. n = nonce \<and> b = body \<or> (key, n, b) \<in> set (parked l)" if n: "n \<in> set q'" for n
  proof (cases "n = nonce")
    case False
    then obtain a where "queued r key = Some a" "n \<in> set a" using n by (cases "queued r key") (simp_all add: q'_def)
    then have "\<exists>b. (key, n, b) \<in> set (parked l)" using ok by (simp add: relay_ok_def)
    then show ?thesis by blast
  qed auto
  have d: "distinct q' \<and> (\<forall>n \<in> set q'. n \<notin> nonce_of ` set (handed l))"
    if new: "distinct (map nonce_of (parked l))" "nonce \<notin> nonce_of ` set (parked l)"
  proof -
    have h: "set (handed l) \<subseteq> set (parked l)" using ok new(1) by (simp add: relay_ok_def)
    then have n: "nonce \<notin> nonce_of ` set (handed l)" using new(2) by blast
    show ?thesis
    proof (cases "queued r key")
      case None
      with n show ?thesis by (simp add: q'_def)
    next
      case (Some a)
      then have a: "distinct a \<and> (\<forall>n \<in> set a. n \<notin> nonce_of ` set (handed l))" "\<forall>n \<in> set a. \<exists>b. (key, n, b) \<in> set (parked l)"
        using ok new(1) by (simp_all add: relay_ok_def)
      have "nonce \<notin> set a"
      proof
        assume "nonce \<in> set a"
        then obtain b where "(key, nonce, b) \<in> set (parked l)" using a(2) by blast
        then show False using new(2) by (metis imageI nonce_of_simp)
      qed
      with a n Some show ?thesis by (simp add: q'_def)
    qed
  qed
  show ?thesis unfolding step using ok q d by (auto simp: relay_ok_def)
qed

lemma relay_ok_fetch:
  assumes ok: "relay_ok (r, l)" shows "relay_ok (relay_step (r, l) (Fetch key))"
proof (cases "queued r key = None \<or> queued r key = Some []")
  case True
  with ok show ?thesis by (auto simp: Collect_def)
next
  case False
  then obtain q where q: "queued r key = Some q" "q \<noteq> []" by auto
  define items where "items = map (\<lambda>(n, b). (key, n, b)) (List.map_filter (\<lambda>n. map_option (\<lambda>c. (n, CallBody c)) (pending r n)) q)"
  have step: "relay_step (r, l) (Fetch key) = (r\<lparr>queued := (queued r)(key := None)\<rparr>, l\<lparr>handed := handed l @ items\<rparr>)"
    using q by (cases q) (simp_all add: Collect_def items_def)
  have in_items: "x \<in> set items \<longleftrightarrow> (\<exists>n \<in> set q. \<exists>c. pending r n = Some c \<and> x = (key, n, CallBody c))" for x
    by (fastforce simp: items_def map_filter_def image_iff)
  have ns: "map nonce_of items = filter (\<lambda>n. pending r n \<noteq> None) q"
    unfolding items_def by (induction q) (auto simp: map_filter_def)
  show ?thesis
  proof (cases "distinct (map nonce_of (parked l))")
    case True
    have "x \<in> set (parked l)" if x: "x \<in> set items" for x
    proof -
      obtain n c where n: "n \<in> set q" "pending r n = Some c" "x = (key, n, CallBody c)" using x in_items by auto
      obtain b where "(key, n, b) \<in> set (parked l)" using ok n(1) q(1) unfolding relay_ok_def by fastforce
      moreover have "(CallIdentityKey c, n, CallBody c) \<in> set (parked l)" using ok n(2) unfolding relay_ok_def by fastforce
      ultimately show ?thesis using parked_unique [OF True] n(3) by blast
    qed
    moreover have "distinct (map nonce_of items)" unfolding ns using ok True q(1) by (simp add: relay_ok_def)
    moreover have "nonce_of ` set items \<inter> nonce_of ` set (handed l) = {}"
      unfolding set_map [symmetric] ns using ok True q(1) by (fastforce simp: relay_ok_def image_iff)
    moreover have "n \<notin> nonce_of ` set items" if other: "queued r k = Some q'" "n \<in> set q'" "k \<noteq> key" for k q' n
    proof
      assume "n \<in> nonce_of ` set items"
      then have "n \<in> set q" unfolding set_map [symmetric] ns by simp
      then obtain b b' where "(key, n, b) \<in> set (parked l)" "(k, n, b') \<in> set (parked l)"
        using ok q(1) other(1,2) unfolding relay_ok_def by fastforce
      then show False using parked_unique [OF True] other(3) by blast
    qed
    ultimately show ?thesis unfolding step using ok True by (auto simp: relay_ok_def image_Un)
  next
    case False
    with ok show ?thesis unfolding step by (auto simp: relay_ok_def)
  qed
qed

lemma relay_ok_post: "relay_ok (r, l) \<Longrightarrow> relay_ok (relay_step (r, l) (Post key nonce body err))"
  by (auto simp: relay_ok_def Deliver_def split: option.splits if_splits)

lemma relay_ok_finish: "relay_ok (r, l) \<Longrightarrow> relay_ok (relay_step (r, l) (Finish key nonce))"
  by (auto simp: relay_ok_def Do_finish_def split: option.splits if_splits sum.splits)

interpretation relaying: machine relay_step relay_ok
proof unfold_locales
  fix s e assume ok: "relay_ok s"
  obtain r l where s: "s = (r, l)" by (cases s)
  show "relay_ok (relay_step s e)"
    by (cases e) (use ok relay_ok_park relay_ok_fetch relay_ok_post relay_ok_finish in \<open>simp_all only: s\<close>)
qed

text \<open>
  C23: the browser is a pipe. Over any calls on a fresh relay, a reply \<open>Do\<close> returns was posted for its nonce by the browser of
  the seat the request was parked for, never by another seat's; and, where no nonce is parked twice, what browsers are handed are
  parked requests, byte for byte, each to the seat it was parked for and at most once.
\<close>

theorem relay_is_a_pipe:
  assumes "run relay_step relay_fresh ops = (r, l)"
  shows "(\<forall>(key, nonce, body) \<in> set (returned l). (key, nonce, body) \<in> set (posted l) \<and> (\<exists>b. (key, nonce, b) \<in> set (parked l)))
     \<and> (distinct (map nonce_of (parked l)) \<longrightarrow> set (handed l) \<subseteq> set (parked l) \<and> distinct (map nonce_of (handed l)))"
proof -
  have "relay_ok relay_fresh" by (simp add: relay_ok_def relay_fresh_def NewRelay_def)
  then have "relay_ok (run relay_step relay_fresh ops)" by (rule relaying.run_inv)
  then show ?thesis unfolding assms by (simp add: relay_ok_def)
qed

text \<open>Two seats' requests are parked and collected; one seat's browser answers the other's nonce in vain, then its own.\<close>

definition relay_script :: "relay_op list" where
  "relay_script = [Park ''a'' ''1'' [7] None 0, Park ''b'' ''2'' [8] None 0, Fetch ''a'', Post ''a'' ''2'' [9] '''', Post ''a'' ''1'' [5] '''',
     Fetch ''a'', Finish ''a'' ''1'', Finish ''b'' ''2'']"

theorem relay_is_a_pipe_witness:
  "returned (snd (run relay_step relay_fresh relay_script)) = [(''a'', ''1'', [5])]
   \<and> handed (snd (run relay_step relay_fresh relay_script)) = [(''a'', ''1'', [7])]
   \<and> (''a'', ''1'', [5]) \<in> set (posted (snd (run relay_step relay_fresh relay_script)))"
proof -
  have c: "returned (snd (run relay_step relay_fresh relay_script)) = [(''a'', ''1'', [5])]"
    "handed (snd (run relay_step relay_fresh relay_script)) = [(''a'', ''1'', [7])]" by code_simp+
  have "run relay_step relay_fresh relay_script
      = (fst (run relay_step relay_fresh relay_script), snd (run relay_step relay_fresh relay_script))" by simp
  from relay_is_a_pipe [OF this] c show ?thesis by auto
qed

end
