(* ===== verification/Coordinator.thy ===== *)
theory Coordinator
  imports Agent_Deal Relay "HOL-Library.AList"
begin

text \<open>
  The coordinator of \<^verbatim>\<open>internal/webui/dealer.go\<close>: how the table calls a seat's agent, and the deal it drives across all of them.
  The outside world, with the agents behind it, is a state \<open>'w\<close> that the transports of \<open>coord_lib\<close> act on: the HTTP client and the
  relay's \<open>Do\<close> as this caller sees it. The JSON of requests, parameters and results is a parameter too; parameters are the records
  the agent decodes. A result that is absent leaves the caller's variable as it was. A Go map of disclosures is the list of its
  entries in insertion order, and writing to a nil map or reading past a slice is a panic.
\<close>

section \<open>Acts on the world\<close>

text \<open>A computation that calls out may fail, and what it did to the world stays done. A loop stops at the first failure.\<close>

type_synonym ('w, 'e, 'a) act = "'w \<Rightarrow> 'w \<times> ('e, 'a) res"

definition and_then :: "('w, 'e, 'a) act \<Rightarrow> ('a \<Rightarrow> ('w, 'e, 'b) act) \<Rightarrow> ('w, 'e, 'b) act" where
  "and_then m f w = (case m w of (w', Inl e) \<Rightarrow> (w', Inl e) | (w', Inr x) \<Rightarrow> f x w')"

definition give :: "('e, 'a) res \<Rightarrow> ('w, 'e, 'a) act" where
  "give r w = (w, r)"

definition otherwise :: "('e \<Rightarrow> 'f) \<Rightarrow> ('w, 'e, 'a) act \<Rightarrow> ('w, 'f, 'a) act" where
  "otherwise h m w = (case m w of (w', Inl e) \<Rightarrow> (w', Inl (h e)) | (w', Inr x) \<Rightarrow> (w', Inr x))"

fun for_each :: "('x \<Rightarrow> 's \<Rightarrow> ('w, 'e, 's) act) \<Rightarrow> 'x list \<Rightarrow> 's \<Rightarrow> ('w, 'e, 's) act" where
  "for_each f [] s w = (w, Inr s)"
| "for_each f (x # xs) s w = (case f x s w of (w', Inl e) \<Rightarrow> (w', Inl e) | (w', Inr s') \<Rightarrow> for_each f xs s' w')"

section \<open>Calling an agent\<close>

record agent_endpoint =
  EpSeat :: int
  EpIdentityKey :: string
  EpURL :: string

record 'p coordinator =
  coCaller :: 'p
  coOriginator :: string
  coRelay :: bool

definition NewCoordinator :: "'p option \<Rightarrow> string \<Rightarrow> (string, 'p coordinator) res" where
  "NewCoordinator caller originator =
     (case caller of
        None \<Rightarrow> Inl ''webui: a caller key is required to authenticate to agents''
      | Some k \<Rightarrow>
          if originator = '''' then Inl ''webui: an originator is required''
          else Inr \<lparr>coCaller = k, coOriginator = originator, coRelay = False\<rparr>)"

definition UseRelay :: "'p coordinator \<Rightarrow> 'p coordinator" where
  "UseRelay c = c\<lparr>coRelay := True\<rparr>"

datatype call_params = CallCommit deal_commit_params | CallPass deal_pass_params | CallReveal deal_reveal_params
  | CallCard deal_card_params | CallSignPot sign_pot_params | CallSignRefund sign_refund_params

datatype call_error = ParamsUnencodable | CallUnsigned auth_error | CallUnencodable | NoRelayConfigured
  | CallUndelivered string | ReplyUndecodable | AgentSaid wire_error | ReplyNotAuthentic auth_error | AnswerUndecodable

record ('s, 'k, 'p, 'w) coord_lib = "('s, 'k, 'p) wire_lib" +
  EncParams :: "call_params \<Rightarrow> bytes option"
  EncRequest :: "request \<Rightarrow> bytes option"
  DecResponse :: "bytes \<Rightarrow> response option"
  RelayDo :: "string \<Rightarrow> string \<Rightarrow> bytes \<Rightarrow> ('w, string, bytes) act"
  HttpDo :: "string \<Rightarrow> bytes \<Rightarrow> ('w, string, bytes) act"
  Entropy :: "'w \<Rightarrow> 'w \<times> bytes option \<times> 64 word"
  DecCommitment :: "bytes \<Rightarrow> (string \<times> string) option"
  DecDeck :: "bytes \<Rightarrow> string list option"
  DecReveal :: "bytes \<Rightarrow> (int list \<times> string list) option"
  DecCard :: "bytes \<Rightarrow> string option"
  DecOk :: "bytes \<Rightarrow> unit option"
  DecSignature :: "bytes \<Rightarrow> (int \<times> string) option"

definition blank_request :: "wire_method \<Rightarrow> string \<Rightarrow> bytes \<Rightarrow> request" where
  "blank_request m originator raw =
     \<lparr>RqVersion = '''', RqMethod = m, RqOriginator = originator, RqParams = raw, RqIdentityKey = '''', RqNonce = '''',
      RqTimestamp = 0, RqAudience = '''', RqSignature = ''''\<rparr>"

definition carry ::
  "('s, 'k, 'p, 'w) coord_lib \<Rightarrow> 'p coordinator \<Rightarrow> agent_endpoint \<Rightarrow> string \<Rightarrow> bytes \<Rightarrow> ('w, call_error, bytes) act" where
  "carry lib co ag nonce body =
     (if EpURL ag = RelayURL
      then if \<not> coRelay co then give (Inl NoRelayConfigured)
           else otherwise CallUndelivered (RelayDo lib (EpIdentityKey ag) nonce body)
      else otherwise CallUndelivered (HttpDo lib (EpURL ag) body))"

definition read_reply ::
  "('s, 'k, 'p, 'w) coord_lib \<Rightarrow> agent_endpoint \<Rightarrow> string \<Rightarrow> bytes \<Rightarrow> (call_error, bytes) res" where
  "read_reply lib ag nonce reply =
     (case DecResponse lib reply of
        None \<Rightarrow> Inl ReplyUndecodable
      | Some env \<Rightarrow>
     (case RsError env of
        Some e \<Rightarrow> Inl (AgentSaid e)
      | None \<Rightarrow>
     (case VerifyResponse (key_lib.truncate lib) (Render lib) env (EpIdentityKey ag) nonce of
        Some e \<Rightarrow> Inl (ReplyNotAuthentic e)
      | None \<Rightarrow> Inr (RsResult env))))"

text \<open>The call up to the result's JSON, and the call with its result read into a variable that held \<open>zero\<close>.\<close>

definition raw_call ::
  "('s, 'k, 'p, 'w) coord_lib \<Rightarrow> 'p coordinator \<Rightarrow> agent_endpoint \<Rightarrow> wire_method \<Rightarrow> call_params \<Rightarrow> ('w, call_error, bytes) act" where
  "raw_call lib co ag m ps w =
     (case EncParams lib ps of
        None \<Rightarrow> (w, Inl ParamsUnencodable)
      | Some raw \<Rightarrow>
          let (w, rnd, now) = Entropy lib w
          in case SignRequest (key_lib.truncate lib) rnd now (Some (blank_request m (coOriginator co) raw)) (Some (coCaller co))
                    (EpIdentityKey ag) of
               Inl e \<Rightarrow> (w, Inl (CallUnsigned e))
             | Inr req \<Rightarrow>
                 (case EncRequest lib req of
                    None \<Rightarrow> (w, Inl CallUnencodable)
                  | Some body \<Rightarrow>
                      and_then (carry lib co ag (RqNonce req) body) (\<lambda>reply. give (read_reply lib ag (RqNonce req) reply)) w))"

definition agent_call ::
  "('s, 'k, 'p, 'w) coord_lib \<Rightarrow> 'p coordinator \<Rightarrow> agent_endpoint \<Rightarrow> wire_method \<Rightarrow> call_params
     \<Rightarrow> (bytes \<Rightarrow> 'a option) \<Rightarrow> 'a \<Rightarrow> ('w, call_error, 'a) act" where
  "agent_call lib co ag m ps dec zero =
     and_then (raw_call lib co ag m ps)
       (\<lambda>result. give (if result = [] then Inr zero else case dec result of None \<Rightarrow> Inl AnswerUndecodable | Some x \<Rightarrow> Inr x))"

section \<open>The deal\<close>

record dealt_hand =
  dhFinalDeck :: "string list"
  dhHole :: "int \<rightharpoonup> card list"
  dhBoard :: "card list"
  dhHolePositions :: "int \<rightharpoonup> int list"
  dhBoardPositions :: "int list"

datatype deal_error = DealPanic | DealTooFewSeats nat | WouldNotCommit int call_error | CommitmentEmpty int | BaseFailed mp_error
  | WouldNotShuffle int call_error | ShuffleLength int nat | WouldNotRemask int call_error | WouldNotAcceptFinal int call_error
  | WouldNotDisclose int int call_error | DisclosureMismatch int | CouldNotReadOwn int int call_error | CardUnreadable parse_error
  | WouldNotDiscloseBoard int call_error | CouldNotReadBoard int int call_error | SeatsDisagree int string string

definition positions_of :: "int \<Rightarrow> int \<Rightarrow> int list" where
  "positions_of holeCards s = map (\<lambda>i. s * holeCards + i) [0..holeCards - 1]"

definition holeAndBoard :: "int \<Rightarrow> int \<Rightarrow> (int \<rightharpoonup> int list) \<times> int list" where
  "holeAndBoard seats holeCards =
     ((\<lambda>s. if 0 \<le> s \<and> s < seats \<and> 0 < holeCards then Some (positions_of holeCards s) else None),
      map (\<lambda>i. seats * max 0 holeCards + i) [0..4])"

definition commit_seat ::
  "('s, 'k, 'p, 'w) coord_lib \<Rightarrow> 'p coordinator \<Rightarrow> string \<Rightarrow> int \<Rightarrow> agent_endpoint \<Rightarrow> unit \<Rightarrow> ('w, deal_error, unit) act" where
  "commit_seat lib co hid seats ag u =
     and_then (otherwise (WouldNotCommit (EpSeat ag))
        (agent_call lib co ag MethodDealCommit (CallCommit \<lparr>DcHandID = hid, DcDeckSize = DeckSize, DcSeats = seats\<rparr>)
           (DecCommitment lib) ('''', '''')))
       (\<lambda>(sc, rc). give (if sc = '''' \<or> rc = '''' then Inl (CommitmentEmpty (EpSeat ag)) else Inr ()))"

definition shuffle_seat ::
  "('s, 'k, 'p, 'w) coord_lib \<Rightarrow> 'p coordinator \<Rightarrow> string \<Rightarrow> agent_endpoint \<Rightarrow> string list \<Rightarrow> ('w, deal_error, string list) act" where
  "shuffle_seat lib co hid ag deck =
     and_then (otherwise (WouldNotShuffle (EpSeat ag))
        (agent_call lib co ag MethodDealShuffle (CallPass \<lparr>DpHandID = hid, DpDeck = deck\<rparr>) (DecDeck lib) []))
       (\<lambda>out. give (if int (length out) \<noteq> DeckSize then Inl (ShuffleLength (EpSeat ag) (length out)) else Inr out))"

definition remask_seat ::
  "('s, 'k, 'p, 'w) coord_lib \<Rightarrow> 'p coordinator \<Rightarrow> string \<Rightarrow> agent_endpoint \<Rightarrow> string list \<Rightarrow> ('w, deal_error, string list) act" where
  "remask_seat lib co hid ag deck =
     otherwise (WouldNotRemask (EpSeat ag))
       (agent_call lib co ag MethodDealRemask (CallPass \<lparr>DpHandID = hid, DpDeck = deck\<rparr>) (DecDeck lib) [])"

definition final_seat ::
  "('s, 'k, 'p, 'w) coord_lib \<Rightarrow> 'p coordinator \<Rightarrow> string \<Rightarrow> string list \<Rightarrow> agent_endpoint \<Rightarrow> unit \<Rightarrow> ('w, deal_error, unit) act" where
  "final_seat lib co hid deck ag u =
     otherwise (WouldNotAcceptFinal (EpSeat ag))
       (agent_call lib co ag MethodDealFinal (CallPass \<lparr>DpHandID = hid, DpDeck = deck\<rparr>) (DecOk lib) ())"

text \<open>Entering a seat's scalars under the positions it names: \<open>None\<close> is the panic.\<close>

type_synonym disclosures = "int \<rightharpoonup> (string \<times> string) list"

fun enter_scalars :: "int \<Rightarrow> int list \<Rightarrow> string list \<Rightarrow> disclosures \<Rightarrow> disclosures option" where
  "enter_scalars seat [] ss d = Some d"
| "enter_scalars seat (p # ps) [] d = None"
| "enter_scalars seat (p # ps) (s # ss) d =
     (case d p of
        None \<Rightarrow> None
      | Some m \<Rightarrow> enter_scalars seat ps ss (d(p \<mapsto> AList.update (Sprint_int seat) s m)))"

definition no_disclosures :: "int list \<Rightarrow> disclosures" where
  "no_disclosures ps = (\<lambda>p. if List.member ps p then Some [] else None)"

definition disclose_seat ::
  "('s, 'k, 'p, 'w) coord_lib \<Rightarrow> 'p coordinator \<Rightarrow> string \<Rightarrow> int \<Rightarrow> int list \<Rightarrow> agent_endpoint \<Rightarrow> disclosures
     \<Rightarrow> ('w, deal_error, disclosures) act" where
  "disclose_seat lib co hid recipient positions ag d =
     (if EpSeat ag = recipient then give (Inr d)
      else and_then (otherwise (WouldNotDisclose (EpSeat ag) recipient)
             (agent_call lib co ag MethodDealReveal (CallReveal \<lparr>DrHandID = hid, DrPositions = positions\<rparr>) (DecReveal lib) ([], [])))
         (\<lambda>(ps, ss). give
            (if length ps \<noteq> length ss then Inl (DisclosureMismatch (EpSeat ag))
             else case enter_scalars (EpSeat ag) ps ss d of None \<Rightarrow> Inl DealPanic | Some d' \<Rightarrow> Inr d')))"

definition map_at :: "disclosures \<Rightarrow> int \<Rightarrow> (string \<times> string) list" where
  "map_at d p = (case d p of None \<Rightarrow> [] | Some m \<Rightarrow> m)"

definition read_own ::
  "('s, 'k, 'p, 'w) coord_lib \<Rightarrow> 'p coordinator \<Rightarrow> string \<Rightarrow> disclosures \<Rightarrow> agent_endpoint \<Rightarrow> int \<Rightarrow> card list
     \<Rightarrow> ('w, deal_error, card list) act" where
  "read_own lib co hid d ag p cs =
     and_then (otherwise (CouldNotReadOwn (EpSeat ag) p)
        (agent_call lib co ag MethodDealCard (CallCard \<lparr>DkHandID = hid, DkPosition = p, DkDisclosures = map_at d p\<rparr>) (DecCard lib) ''''))
       (\<lambda>s. give (case parseCard s of Inl e \<Rightarrow> Inl (CardUnreadable e) | Inr c \<Rightarrow> Inr (cs @ [c])))"

definition slice_at :: "(int \<rightharpoonup> 'x list) \<Rightarrow> int \<Rightarrow> 'x list" where
  "slice_at m s = (case m s of None \<Rightarrow> [] | Some xs \<Rightarrow> xs)"

definition deal_to ::
  "('s, 'k, 'p, 'w) coord_lib \<Rightarrow> 'p coordinator \<Rightarrow> string \<Rightarrow> agent_endpoint list \<Rightarrow> (int \<rightharpoonup> int list) \<Rightarrow> agent_endpoint
     \<Rightarrow> (int \<rightharpoonup> card list) \<Rightarrow> ('w, deal_error, int \<rightharpoonup> card list) act" where
  "deal_to lib co hid agents holePositions ag hole =
     (let positions = slice_at holePositions (EpSeat ag)
      in and_then (for_each (disclose_seat lib co hid (EpSeat ag) positions) agents (no_disclosures positions))
           (\<lambda>d. and_then (for_each (read_own lib co hid d ag) positions (slice_at hole (EpSeat ag)))
              (\<lambda>cs. give (Inr (if positions = [] then hole else hole(EpSeat ag \<mapsto> cs))))))"

definition disclose_board ::
  "('s, 'k, 'p, 'w) coord_lib \<Rightarrow> 'p coordinator \<Rightarrow> string \<Rightarrow> int list \<Rightarrow> agent_endpoint \<Rightarrow> disclosures \<Rightarrow> ('w, deal_error, disclosures) act" where
  "disclose_board lib co hid positions ag d =
     and_then (otherwise (WouldNotDiscloseBoard (EpSeat ag))
        (agent_call lib co ag MethodDealReveal (CallReveal \<lparr>DrHandID = hid, DrPositions = positions\<rparr>) (DecReveal lib) ([], [])))
       (\<lambda>(ps, ss). give (case enter_scalars (EpSeat ag) ps ss d of None \<Rightarrow> Inl DealPanic | Some d' \<Rightarrow> Inr d'))"

definition readBoard ::
  "('s, 'k, 'p, 'w) coord_lib \<Rightarrow> 'p coordinator \<Rightarrow> agent_endpoint \<Rightarrow> string \<Rightarrow> int \<Rightarrow> (string \<times> string) list \<Rightarrow> ('w, deal_error, string) act" where
  "readBoard lib co ag hid pos all =
     otherwise (CouldNotReadBoard (EpSeat ag) pos)
       (agent_call lib co ag MethodDealCard
          (CallCard \<lparr>DkHandID = hid, DkPosition = pos, DkDisclosures = filter (\<lambda>(k, v). k \<noteq> Sprint_int (EpSeat ag)) all\<rparr>) (DecCard lib) '''')"

definition board_card ::
  "('s, 'k, 'p, 'w) coord_lib \<Rightarrow> 'p coordinator \<Rightarrow> string \<Rightarrow> agent_endpoint \<Rightarrow> agent_endpoint \<Rightarrow> disclosures \<Rightarrow> int \<Rightarrow> card list
     \<Rightarrow> ('w, deal_error, card list) act" where
  "board_card lib co hid a0 a1 d p cs =
     and_then (readBoard lib co a0 hid p (map_at d p))
       (\<lambda>one. and_then (readBoard lib co a1 hid p (map_at d p))
          (\<lambda>two. give
             (if one \<noteq> two then Inl (SeatsDisagree p one two)
              else case parseCard one of Inl e \<Rightarrow> Inl (CardUnreadable e) | Inr c \<Rightarrow> Inr (cs @ [c]))))"

definition Coord_Deal ::
  "('s, 'k, 'p, 'w) coord_lib \<Rightarrow> 'pt curve \<Rightarrow> 'p coordinator \<Rightarrow> string \<Rightarrow> agent_endpoint list \<Rightarrow> int \<Rightarrow> ('w, deal_error, dealt_hand) act" where
  "Coord_Deal lib c co hid agents holeCards =
     (if length agents < 2 then give (Inl (DealTooFewSeats (length agents)))
      else let seats = int (length agents); (holePositions, boardPositions) = holeAndBoard seats holeCards
        in and_then (for_each (commit_seat lib co hid seats) agents ())
       (\<lambda>u. and_then (give (case BaseDeck c DeckSize of Inl e \<Rightarrow> Inl (BaseFailed e) | Inr base \<Rightarrow> Inr (encode_hex_deck c base)))
       (\<lambda>deck. and_then (for_each (shuffle_seat lib co hid) agents deck)
       (\<lambda>deck. and_then (for_each (remask_seat lib co hid) agents deck)
       (\<lambda>deck. and_then (for_each (final_seat lib co hid deck) agents ())
       (\<lambda>u. and_then (for_each (deal_to lib co hid agents holePositions) agents Map.empty)
       (\<lambda>hole. and_then (for_each (disclose_board lib co hid boardPositions) agents (no_disclosures boardPositions))
       (\<lambda>d. and_then (for_each (board_card lib co hid (agents ! 0) (agents ! 1) d) boardPositions [])
       (\<lambda>board. give (Inr \<lparr>dhFinalDeck = deck, dhHole = hole, dhBoard = board, dhHolePositions = holePositions,
                           dhBoardPositions = boardPositions\<rparr>))))))))))"

end
