(* ===== verification/Pot_Manager.thy ===== *)
theory Pot_Manager
  imports Coordinator
begin

text \<open>
  The pot manager of \<^verbatim>\<open>internal/webui/pot.go\<close>: one funded pot per session, its balances, and the refund every seat has signed for
  them. The funding wallet and the seats' agents act on the one outside state \<open>'w\<close>. A Go map from seats to satoshis is the list
  of its entries in the order the loop at hand visits them, which Go leaves open: where a function ranges over such a map, the
  order is the caller's argument. \<open>Inl PotPanic\<close> is a run-time panic.
\<close>

section \<open>State\<close>

type_synonym seat_amounts = "(int \<times> u64) list"

definition amount_at :: "seat_amounts \<Rightarrow> int \<Rightarrow> u64" where
  "amount_at m seat = (case map_of m seat of None \<Rightarrow> 0 | Some v \<Rightarrow> v)"

record ('s, 'k) live_pot =
  lpPot :: "'s funded_pot"
  lpSeats :: "'k list"
  lpBalances :: seat_amounts
  lpRefund :: "'s transaction option"
  lpLockHeight :: u32
  lpFloorHeight :: u32

definition ladderStep :: u32 where "ladderStep = 4"
definition refundFee :: u64 where "refundFee = 500"
definition settlementFee :: u64 where "settlementFee = 1200"

record ('s, 'k, 'p, 'w) pot_manager =
  pmWallet :: "('w, 's) pot_funder option"
  pmTableKey :: 'p
  pmOriginator :: string
  pmCoord :: "'p coordinator option"
  pmPots :: "string \<rightharpoonup> ('s, 'k) live_pot"
  pmArmed :: "string \<rightharpoonup> int list"

definition NewPotManager ::
  "('w, 's) pot_funder option \<Rightarrow> 'p option \<Rightarrow> string \<Rightarrow> 'p coordinator option \<Rightarrow> (string, ('s, 'k, 'p, 'w) pot_manager) res" where
  "NewPotManager wal tableKey originator coord =
     (case tableKey of
        None \<Rightarrow> Inl ''webui: a table key is required to manage pots''
      | Some k \<Rightarrow>
          if originator = '''' then Inl ''webui: an originator is required''
          else Inr \<lparr>pmWallet = wal, pmTableKey = k, pmOriginator = originator, pmCoord = coord,
                    pmPots = Map.empty, pmArmed = Map.empty\<rparr>)"

definition Pots_Enabled :: "('s, 'k, 'p, 'w) pot_manager option \<Rightarrow> bool" where
  "Pots_Enabled m \<longleftrightarrow> (case m of None \<Rightarrow> False | Some m \<Rightarrow> pmWallet m \<noteq> None)"

text \<open>The SDK's transactions, and the texts of errors other packages give, as the messages quote them.\<close>

record ('s, 'k, 'p, 'w) pot_lib = "('s, 'k, 'p, 'w) coord_lib" +
  PotSdk :: "('s, 'k) sdk"
  TxHex :: "'s transaction \<Rightarrow> string"
  HexOfScript :: "'s \<Rightarrow> string"
  CallText :: "call_error \<Rightarrow> string"

abbreviation pot_signer :: "('s, 'k, 'p, 'w) pot_lib \<Rightarrow> ('s, 'k, 'p) signer" where
  "pot_signer lib \<equiv> signer.truncate lib"

abbreviation pot_calls :: "('s, 'k, 'p, 'w) pot_lib \<Rightarrow> ('s, 'k, 'p, 'w) coord_lib" where
  "pot_calls lib \<equiv> coord_lib.truncate lib"

datatype pot_error = PotPanic | NoFundingWallet | PotNeedsTwoSeats | UnusableIdentity int | FundingFailed settle_error
  | NoPotFor string | PayoutUnderivable int settle_error | PaysNobody | SettlementUnbuilt settle_error
  | NoCoordinator | WouldNotSign int call_error | WalletTooOld int | SignatureNonHex int | SignatureBad int settle_error
  | SettlementUnsigned pot_error | SettlementIncomplete settle_error | NoBalanceToRefund | RefundUnbuilt cosign_error
  | RefundUnsigned pot_error | RefundUnassembled cosign_error | RefundUnsatisfied settle_error
  | BalancesNotPot u64 u64 | LadderExhausted u32

section \<open>Asking the seats to sign\<close>

definition str_contains :: "string \<Rightarrow> string \<Rightarrow> bool" where
  "str_contains s part \<longleftrightarrow> list_ex (\<lambda>i. take (length part) (drop i s) = part) [0..<length s + 1]"

text \<open>One seat's signature: asked for, decoded and verified against the seat's key. A refund call tells an old wallet apart.\<close>

definition ask_signature ::
  "('s, 'k, 'p, 'w) pot_lib \<Rightarrow> 'p coordinator \<Rightarrow> wire_method \<Rightarrow> (agent_endpoint \<Rightarrow> call_params) \<Rightarrow> 's transaction \<Rightarrow> int
     \<Rightarrow> agent_endpoint \<Rightarrow> signature list \<Rightarrow> ('w, pot_error, signature list) act" where
  "ask_signature lib co m params tx inputIndex s sigs =
     and_then (otherwise (\<lambda>e. if m = MethodSignRefund \<and> str_contains (CallText lib e) ''not served'' then WalletTooOld (EpSeat s)
                             else WouldNotSign (EpSeat s) e)
                (agent_call (pot_calls lib) co s m (params s) (DecSignature lib) (0, '''')))
       (\<lambda>(seat, derHex). give
          (case hex_decode derHex of
             None \<Rightarrow> Inl (SignatureNonHex (EpSeat s))
           | Some d \<Rightarrow>
               let sig = \<lparr>SigSeat = seat, SigKey = '''', DER = d\<rparr>
               in case PublicKeyFromString lib (EpIdentityKey s) of
                    None \<Rightarrow> Inl (UnusableIdentity (EpSeat s))
                  | Some pub \<Rightarrow>
                      (case VerifySignature (pot_signer lib) tx inputIndex sig (Some pub) of
                         Some e \<Rightarrow> Inl (SignatureBad (EpSeat s) e)
                       | None \<Rightarrow> Inr (sigs @ [sig]))))"

definition ask_all ::
  "('s, 'k, 'p, 'w) pot_lib \<Rightarrow> 'p coordinator option \<Rightarrow> wire_method \<Rightarrow> (agent_endpoint \<Rightarrow> call_params) \<Rightarrow> 's transaction \<Rightarrow> int
     \<Rightarrow> agent_endpoint list \<Rightarrow> ('w, pot_error, signature list) act" where
  "ask_all lib coord m params tx inputIndex seats =
     (case coord of
        None \<Rightarrow> give (Inl NoCoordinator)
      | Some co \<Rightarrow> for_each (ask_signature lib co m params tx inputIndex) seats [])"

definition collectSignatures ::
  "('s, 'k, 'p, 'w) pot_lib \<Rightarrow> 'p coordinator option \<Rightarrow> string \<Rightarrow> 's transaction \<Rightarrow> int \<Rightarrow> agent_endpoint list
     \<Rightarrow> ('w, pot_error, signature list) act" where
  "collectSignatures lib coord hid tx inputIndex seats =
     ask_all lib coord MethodSignPot
       (\<lambda>s. CallSignPot \<lparr>SpHandID = hid, SpRawTxHex = TxHex lib tx, SpPotInput = inputIndex\<rparr>) tx inputIndex seats"

definition pot_script_hex :: "('s, 'k, 'p, 'w) pot_lib \<Rightarrow> 's funded_pot \<Rightarrow> string option" where
  "pot_script_hex lib pot = map_option (HexOfScript lib) (PotScriptOf pot)"

definition collectRefundSignatures ::
  "('s, 'k, 'p, 'w) pot_lib \<Rightarrow> 'p coordinator option \<Rightarrow> string \<Rightarrow> 's transaction \<Rightarrow> int \<Rightarrow> agent_endpoint list \<Rightarrow> 's funded_pot \<Rightarrow> string
     \<Rightarrow> ('w, pot_error, signature list) act" where
  "collectRefundSignatures lib coord hid tx inputIndex seats pot beneficiary =
     (if coord = None then give (Inl NoCoordinator)
      else case pot_script_hex lib pot of
             None \<Rightarrow> give (Inl PotPanic)
           | Some potScriptHex \<Rightarrow>
               ask_all lib coord MethodSignRefund
                 (\<lambda>s. CallSignRefund
                    \<lparr>SrHandID = hid, SrRawTxHex = TxHex lib tx, SrPotInput = inputIndex, SrPotTxid = PotTxid pot, SrPotVout = PotVout pot,
                     SrPotSatoshis = PotValue pot, SrPotScriptHex = potScriptHex, SrSeat = EpSeat s, SrBalances = [],
                     SrMaxLockHeight = 0, SrBeneficiary = beneficiary, SrSeats = map EpIdentityKey seats, SrMaxFee = 400\<rparr>)
                 tx inputIndex seats)"

text \<open>
  The seats that hold a balance, each with the key kept for its place in the list; a place past the keys is a panic.
\<close>

fun funded_seats :: "'k list \<Rightarrow> seat_amounts \<Rightarrow> nat \<Rightarrow> agent_endpoint list \<Rightarrow> ('k \<times> u64) list option" where
  "funded_seats keys balances i [] = Some []"
| "funded_seats keys balances i (s # ss) =
     (if amount_at balances (EpSeat s) = 0 then funded_seats keys balances (i + 1) ss
      else if i \<ge> length keys then None
      else map_option (\<lambda>xs. (keys ! i, amount_at balances (EpSeat s)) # xs) (funded_seats keys balances (i + 1) ss))"

definition collectSharedRefundSignatures ::
  "('s, 'k, 'p, 'w) pot_lib \<Rightarrow> 'p coordinator option \<Rightarrow> string \<Rightarrow> 's transaction \<Rightarrow> int \<Rightarrow> agent_endpoint list \<Rightarrow> ('s, 'k) live_pot
     \<Rightarrow> ('w, pot_error, signature list) act" where
  "collectSharedRefundSignatures lib coord sid tx inputIndex seats lp =
     (if coord = None then give (Inl NoCoordinator)
      else case (pot_script_hex lib (lpPot lp), funded_seats (lpSeats lp) (lpBalances lp) 0 seats) of
             (Some potScriptHex, Some shares) \<Rightarrow>
               ask_all lib coord MethodSignRefund
                 (\<lambda>s. CallSignRefund
                    \<lparr>SrHandID = sid, SrRawTxHex = TxHex lib tx, SrPotInput = inputIndex, SrPotTxid = PotTxid (lpPot lp),
                     SrPotVout = PotVout (lpPot lp), SrPotSatoshis = PotValue (lpPot lp), SrPotScriptHex = potScriptHex, SrSeat = EpSeat s,
                     SrBalances = map (\<lambda>(k, v). (DERHex lib k, v)) shares, SrMaxLockHeight = LockTime tx, SrBeneficiary = '''',
                     SrSeats = [], SrMaxFee = refundFee\<rparr>)
                 tx inputIndex seats
           | _ \<Rightarrow> give (Inl PotPanic))"

section \<open>The refund of the current balances\<close>

definition resignRefund ::
  "('s, 'k, 'p, 'w) pot_lib \<Rightarrow> 'p coordinator option \<Rightarrow> string \<Rightarrow> ('s, 'k) live_pot \<Rightarrow> agent_endpoint list \<Rightarrow> u32
     \<Rightarrow> ('w, pot_error, ('s, 'k) live_pot) act" where
  "resignRefund lib coord sid lp seats lockHeight =
     (case funded_seats (lpSeats lp) (lpBalances lp) 0 seats of
        None \<Rightarrow> give (Inl PotPanic)
      | Some shares \<Rightarrow>
     if shares = [] then give (Inl NoBalanceToRefund)
     else case BuildRefund (PotSdk lib)
             \<lparr>RPot = lpPot lp, RRecipient = None, RSatoshis = 0,
              RRecipients = map (\<lambda>(k, v). \<lparr>OutRecipient = Some k, OutSatoshis = v\<rparr>) shares, RLockHeight = lockHeight, RFee = refundFee\<rparr> of
        Inl e \<Rightarrow> give (Inl (RefundUnbuilt e))
      | Inr refund \<Rightarrow>
     and_then (otherwise RefundUnsigned (collectSharedRefundSignatures lib coord sid refund 0 seats lp))
       (\<lambda>sigs. give
          (case Assemble (PotSdk lib) sigs (int (length seats)) of
             Inl e \<Rightarrow> Inl (RefundUnassembled e)
           | Inr unlock \<Rightarrow>
          (case put_unlock unlock 0 (Some refund) of
             None \<Rightarrow> Inl PotPanic
           | Some complete \<Rightarrow>
          (case VerifyScript (pot_signer lib) (Some complete) 0 (PotScriptOf (lpPot lp)) (PotValue (lpPot lp)) of
             Some e \<Rightarrow> Inl (RefundUnsatisfied e)
           | None \<Rightarrow> Inr (lp\<lparr>lpRefund := Some complete, lpLockHeight := lockHeight\<rparr>))))))"

fun seat_keys ::
  "('s, 'k, 'p, 'w) pot_lib \<Rightarrow> agent_endpoint list \<Rightarrow> (pot_error, 'k list) res" where
  "seat_keys lib [] = Inr []"
| "seat_keys lib (s # ss) =
     (case PublicKeyFromString lib (EpIdentityKey s) of
        None \<Rightarrow> Inl (UnusableIdentity (EpSeat s))
      | Some pub \<Rightarrow> (case seat_keys lib ss of Inl e \<Rightarrow> Inl e | Inr ks \<Rightarrow> Inr (pub # ks)))"

definition OpenPot ::
  "('s, 'k, 'p, 'w) pot_lib \<Rightarrow> string \<Rightarrow> agent_endpoint list \<Rightarrow> u64 \<Rightarrow> u32 \<Rightarrow> ('s, 'k, 'p, 'w) pot_manager
     \<Rightarrow> ('w, pot_error, ('s, 'k, 'p, 'w) pot_manager) act" where
  "OpenPot lib hid seats satoshis currentHeight m =
     (if pmWallet m = None then give (Inl NoFundingWallet)
      else if length seats < 2 then give (Inl PotNeedsTwoSeats)
      else and_then (give (seat_keys lib seats))
        (\<lambda>pubs. and_then (otherwise FundingFailed
             (FundPot (PotSdk lib) (pot_signer lib) (pmWallet m)
                \<lparr>FundOriginator = pmOriginator m, FundSeats = map Some pubs, FundSatoshis = satoshis, FundBasket = ''poker-pot'',
                 FundDescription = ''fund the pot for hand '' @ hid\<rparr>))
        (\<lambda>pot. let share = satoshis div of_nat (length seats); lockHeight = currentHeight + 144
           in and_then (resignRefund lib (pmCoord m) hid
                  \<lparr>lpPot = pot, lpSeats = pubs, lpBalances = fold (\<lambda>s. AList.update (EpSeat s) share) seats [],
                   lpRefund = None, lpLockHeight = lockHeight, lpFloorHeight = currentHeight + 12\<rparr> seats lockHeight)
                (\<lambda>lp. give (Inr (m\<lparr>pmPots := (pmPots m)(hid \<mapsto> lp)\<rparr>))))))"

text \<open>
  A hand's result. The pot in the map is changed before the seats are asked to sign, and what was changed stays when they do not.
\<close>

definition ApplyHand ::
  "('s, 'k, 'p, 'w) pot_lib \<Rightarrow> string \<Rightarrow> agent_endpoint list \<Rightarrow> seat_amounts \<Rightarrow> ('s, 'k, 'p, 'w) pot_manager \<Rightarrow> 'w
     \<Rightarrow> 'w \<times> (pot_error, ('s, 'k, 'p, 'w) pot_manager) outcome" where
  "ApplyHand lib sid seats balances m w =
     (case pmPots m sid of
        None \<Rightarrow> (w, Some (NoPotFor sid), m)
      | Some lp \<Rightarrow>
          let tot = sum_list (map snd balances); next_height = lpLockHeight lp - ladderStep
          in if tot \<noteq> PotValue (lpPot lp) then (w, Some (BalancesNotPot tot (PotValue (lpPot lp))), m)
             else if next_height \<le> lpFloorHeight lp then (w, Some (LadderExhausted (lpLockHeight lp)), m)
             else let lp = lp\<lparr>lpBalances := balances\<rparr>;
                      m = m\<lparr>pmPots := (pmPots m)(sid \<mapsto> lp), pmArmed := (pmArmed m)(sid := None)\<rparr>
                  in case resignRefund lib (pmCoord m) sid lp seats next_height w of
                       (w', Inl e) \<Rightarrow> (w', Some e, m)
                     | (w', Inr lp') \<Rightarrow> (w', None, m\<lparr>pmPots := (pmPots m)(sid \<mapsto> lp')\<rparr>))"

section \<open>Settling\<close>

fun largest_payout :: "seat_amounts \<Rightarrow> u64 \<Rightarrow> int \<Rightarrow> u64 \<times> int" where
  "largest_payout [] largest seat = (largest, seat)"
| "largest_payout ((s, a) # ps) largest seat = (if a > largest then largest_payout ps a s else largest_payout ps largest seat)"

definition reserveFee :: "seat_amounts \<Rightarrow> u64 \<Rightarrow> seat_amounts" where
  "reserveFee payouts fee =
     (if payouts = [] \<or> fee = 0 then payouts
      else case largest_payout payouts 0 (-1) of
             (largest, seat) \<Rightarrow>
               if seat < 0 \<or> largest \<le> fee then payouts
               else map (\<lambda>(s, a). (s, if s = seat then largest - fee else a)) payouts)"

definition payout_suffix :: "int \<Rightarrow> string" where
  "payout_suffix seat = ''seat-'' @ Sprint_int seat"

fun derive_settlement ::
  "('s, 'k, 'p, 'w) pot_lib \<Rightarrow> 'p \<Rightarrow> string \<Rightarrow> seat_amounts \<Rightarrow> agent_endpoint list \<Rightarrow> (pot_error, ('s, 'k) payout list) res" where
  "derive_settlement lib key hid payouts [] = Inr []"
| "derive_settlement lib key hid payouts (s # ss) =
     (if amount_at payouts (EpSeat s) = 0 then derive_settlement lib key hid payouts ss
      else case PublicKeyFromString lib (EpIdentityKey s) of
             None \<Rightarrow> Inl (UnusableIdentity (EpSeat s))
           | Some pub \<Rightarrow>
               (case DerivePayout (pot_signer lib) (Some key)
                       (Some \<lparr>PayRecipient = Some pub, PaySatoshis = amount_at payouts (EpSeat s), Prefix = bytes_of hid,
                              Suffix = bytes_of (payout_suffix (EpSeat s)), PayScript = None\<rparr>) of
                  Inl e \<Rightarrow> Inl (PayoutUnderivable (EpSeat s) e)
                | Inr p \<Rightarrow> (case derive_settlement lib key hid payouts ss of Inl e \<Rightarrow> Inl e | Inr ps \<Rightarrow> Inr (p # ps))))"

definition Pot_Settle ::
  "('s, 'k, 'p, 'w) pot_lib \<Rightarrow> string \<Rightarrow> agent_endpoint list \<Rightarrow> seat_amounts \<Rightarrow> ('s, 'k, 'p, 'w) pot_manager \<Rightarrow> 'w
     \<Rightarrow> 'w \<times> (pot_error, string \<times> ('s, 'k, 'p, 'w) pot_manager) res" where
  "Pot_Settle lib hid seats payouts m w =
     (if pmWallet m = None then (w, Inl NoFundingWallet)
      else case pmPots m hid of
        None \<Rightarrow> (w, Inl (NoPotFor hid))
      | Some lp \<Rightarrow>
     (case derive_settlement lib (pmTableKey m) hid (reserveFee payouts settlementFee) seats of
        Inl e \<Rightarrow> (w, Inl e)
      | Inr ps \<Rightarrow>
     if ps = [] then (w, Inl PaysNobody)
     else case BuildSettlement (PotSdk lib) (pot_signer lib) (pmWallet m)
             \<lparr>SetOriginator = pmOriginator m, SetPot = lpPot lp, SetPayouts = ps, SetSeats = int (length seats),
              SetDescription = ''settle hand '' @ hid\<rparr> w of
        (w, Inl e) \<Rightarrow> (w, Inl (SettlementUnbuilt e))
      | (w, Inr st) \<Rightarrow>
     (case STx st of
        None \<Rightarrow> (w, Inl PotPanic)
      | Some tx \<Rightarrow>
     (case collectSignatures lib (pmCoord m) hid tx (SPotInput st) seats w of
        (w, Inl e) \<Rightarrow> (case Abandon (pmWallet m) (pmOriginator m) st w of (w, aerr) \<Rightarrow> (w, Inl (SettlementUnsigned e)))
      | (w, Inr sigs) \<Rightarrow>
     (case Complete (PotSdk lib) (pot_signer lib) (pmWallet m) (pmOriginator m) st (lpPot lp) sigs (int (length seats)) w of
        (w, Inl e) \<Rightarrow> (w, Inl (SettlementIncomplete e))
      | (w, Inr txid) \<Rightarrow> (w, Inr (txid, m\<lparr>pmPots := (pmPots m)(hid := None)\<rparr>)))))))"

section \<open>What a seat is told\<close>

record stake_info =
  SiHandID :: string
  SiPotTxid :: string
  SiPotVout :: u32
  SiPotSatoshis :: u64
  SiPotScriptHex :: string
  SiSenderKey :: string
  SiMaxFee :: u64
  SiPayouts :: "stake_payout list"
  SiRefunds :: "(int \<times> string) list"

definition told_payout :: "string \<Rightarrow> seat_amounts \<Rightarrow> agent_endpoint \<Rightarrow> stake_payout" where
  "told_payout hid payouts s =
     \<lparr>RpRecipientKey = EpIdentityKey s, RpSatoshis = amount_at payouts (EpSeat s), RpPrefix = base64 (bytes_of hid),
      RpSuffix = base64 (bytes_of (payout_suffix (EpSeat s)))\<rparr>"

definition StakeFor ::
  "('s, 'k, 'p, 'w) pot_lib \<Rightarrow> string \<Rightarrow> int \<Rightarrow> agent_endpoint list \<Rightarrow> seat_amounts \<Rightarrow> ('s, 'k, 'p, 'w) pot_manager \<Rightarrow> (pot_error, stake_info option) res" where
  "StakeFor lib hid seat seats payouts m =
     (case pmPots m hid of
        None \<Rightarrow> Inr None
      | Some lp \<Rightarrow>
          if payouts = [] then Inr None
          else let payouts = reserveFee payouts settlementFee
            in case pot_script_hex lib (lpPot lp) of
                 None \<Rightarrow> Inl PotPanic
               | Some potScriptHex \<Rightarrow>
                   Inr (Some \<lparr>SiHandID = hid, SiPotTxid = PotTxid (lpPot lp), SiPotVout = PotVout (lpPot lp), SiPotSatoshis = PotValue (lpPot lp),
                      SiPotScriptHex = potScriptHex, SiSenderKey = DERHex lib (PubKey lib (pmTableKey m)), SiMaxFee = settlementFee + 200,
                      SiPayouts = map (told_payout hid payouts) (filter (\<lambda>s. amount_at payouts (EpSeat s) \<noteq> 0) seats),
                      SiRefunds = (case lpRefund lp of None \<Rightarrow> [] | Some t \<Rightarrow> [(seat, TxHex lib t)])\<rparr>))"

definition RefundFor :: "('s, 'k, 'p, 'w) pot_lib \<Rightarrow> string \<Rightarrow> ('s, 'k, 'p, 'w) pot_manager \<Rightarrow> (string \<times> u32) option" where
  "RefundFor lib sid m =
     (case pmPots m sid of
        None \<Rightarrow> None
      | Some lp \<Rightarrow> (case lpRefund lp of None \<Rightarrow> None | Some t \<Rightarrow> Some (TxHex lib t, lpLockHeight lp)))"

definition MarkArmed :: "string \<Rightarrow> int \<Rightarrow> ('s, 'k, 'p, 'w) pot_manager \<Rightarrow> ('s, 'k, 'p, 'w) pot_manager" where
  "MarkArmed hid seat m =
     m\<lparr>pmArmed := (pmArmed m)(hid \<mapsto> List.insert seat (case pmArmed m hid of None \<Rightarrow> [] | Some ss \<Rightarrow> ss))\<rparr>"

definition AllArmed :: "string \<Rightarrow> agent_endpoint list \<Rightarrow> ('s, 'k, 'p, 'w) pot_manager \<Rightarrow> bool" where
  "AllArmed hid seats m \<longleftrightarrow>
     list_all (\<lambda>s. List.member (case pmArmed m hid of None \<Rightarrow> [] | Some ss \<Rightarrow> ss) (EpSeat s)) seats \<and> seats \<noteq> []"

definition Balances_of :: "string \<Rightarrow> ('s, 'k, 'p, 'w) pot_manager \<Rightarrow> seat_amounts option" where
  "Balances_of sid m = map_option lpBalances (pmPots m sid)"

end
