(* ===== verification/Live_Table.thy ===== *)
theory Live_Table
  imports Pot_Manager Engine_Props Money
begin

text \<open>
  The table a browser plays at, \<^verbatim>\<open>internal/webui/live.go\<close>. A method that holds the lock throughout is one function on the table; a
  method that lets go of it to call out is the function that reads what it needs, the call, and the function that writes the
  result. The agents, the funding wallet, the random source and the order in which Go visits a map are drawn from the one outside
  state \<open>'w\<close>; the clock is an argument, read once per operation.
\<close>

section \<open>State\<close>

record ('s, 'k, 'p, 'w) live_table =
  ltID :: string
  ltTerms :: terms
  ltSeatOf :: "string \<rightharpoonup> nat"
  ltSeats :: "tseat list"
  ltHand :: "hand option"
  ltMoney :: tracker
  ltHole :: "int \<rightharpoonup> card list"
  ltStalledSeat :: int
  ltStallReason :: string
  ltCoord :: "'p coordinator option"
  ltAgentURL :: "string \<rightharpoonup> string"
  ltDealerless :: bool
  ltHandNo :: nat
  ltButton :: int
  ltStacks :: "int list option"
  ltSittingOut :: "nat list"
  ltPots :: "('s, 'k, 'p, 'w) pot_manager option"
  ltSettlementTxID :: string
  ltReadyToStart :: bool
  ltOpenPotHand :: string
  ltSessionID :: string

record ('s, 'k, 'p, 'w, 'pt) live_lib = "('s, 'k, 'p, 'w) pot_lib" +
  Curve :: "'pt curve"
  Draws :: "'w \<Rightarrow> 'w \<times> (nat \<Rightarrow> nat option)"
  MapOrder :: "seat_amounts \<Rightarrow> 'w \<Rightarrow> 'w \<times> seat_amounts"

abbreviation live_pots :: "('s, 'k, 'p, 'w, 'pt) live_lib \<Rightarrow> ('s, 'k, 'p, 'w) pot_lib" where
  "live_pots lib \<equiv> pot_lib.truncate lib"

abbreviation live_calls :: "('s, 'k, 'p, 'w, 'pt) live_lib \<Rightarrow> ('s, 'k, 'p, 'w) coord_lib" where
  "live_calls lib \<equiv> coord_lib.truncate lib"

datatype live_error = LiveTerms "terms_error list" | LiveMoney money_error | KeyAndURLRequired | NoSeatHeld | SeatKeyRequired
  | AllSeatsTaken int | HandStarted | HandNotStarted | HandIsOver | NotYourTurn int nat | NotAnAction string | EngineRefused engine_error
  | ShuffleFailed | DealFailed deal_error | CannotStart engine_error | PotFailed pot_error | PotNeedsWallets | StallNeedsReason
  | AwaitingSeats | NoOpenPot | NoSessionPot string

definition NewLiveTable :: "terms \<Rightarrow> int \<Rightarrow> (live_error, ('s, 'k, 'p, 'w) live_table) res" where
  "NewLiveTable t now =
     (if Terms_Validate t \<noteq> [] then Inl (LiveTerms (Terms_Validate t))
      else case NewMoneyTracker (TermsSeats t) (BuyInSatoshis t) (BuyInSatoshis t * word_of_int (TermsSeats t)) (RefundLockHeight t) now of
             Inl e \<Rightarrow> Inl (LiveMoney e)
           | Inr money \<Rightarrow>
               Inr \<lparr>ltID = TermsTableID t, ltTerms = t, ltSeatOf = Map.empty, ltSeats = [], ltHand = None,
                    ltMoney = SetHand money now (TermsTableID t), ltHole = Map.empty, ltStalledSeat = -1, ltStallReason = '''',
                    ltCoord = None, ltAgentURL = Map.empty, ltDealerless = False, ltHandNo = 0, ltButton = 0, ltStacks = None,
                    ltSittingOut = [], ltPots = None, ltSettlementTxID = '''', ltReadyToStart = False, ltOpenPotHand = '''',
                    ltSessionID = ''''\<rparr>)"

definition SetPotManager :: "('s, 'k, 'p, 'w) pot_manager option \<Rightarrow> ('s, 'k, 'p, 'w) live_table \<Rightarrow> ('s, 'k, 'p, 'w) live_table" where
  "SetPotManager m l = l\<lparr>ltPots := m\<rparr>"

definition SetCoordinator :: "'p coordinator option \<Rightarrow> ('s, 'k, 'p, 'w) live_table \<Rightarrow> ('s, 'k, 'p, 'w) live_table" where
  "SetCoordinator c l = l\<lparr>ltCoord := c\<rparr>"

definition ForValue :: "('s, 'k, 'p, 'w) live_table \<Rightarrow> bool" where
  "ForValue l \<longleftrightarrow> Pots_Enabled (ltPots l)"

section \<open>Taking a seat\<close>

definition RegisterAgent ::
  "('s, 'k, 'p, 'w) live_table \<Rightarrow> string \<Rightarrow> string \<Rightarrow> (live_error, ('s, 'k, 'p, 'w) live_table) outcome" where
  "RegisterAgent l identityKey url =
     (let key = norm_key identityKey
      in if key = '''' \<or> url = '''' then (Some KeyAndURLRequired, l)
         else if ltSeatOf l key = None then (Some NoSeatHeld, l)
         else (None, l\<lparr>ltAgentURL := (ltAgentURL l)(key \<mapsto> url)\<rparr>))"

definition Live_Join ::
  "('s, 'k, 'p, 'w) live_table \<Rightarrow> int \<Rightarrow> string \<Rightarrow> (live_error, nat) res \<times> ('s, 'k, 'p, 'w) live_table" where
  "Live_Join l now identityKey =
     (let key = norm_key identityKey
      in if key = '''' then (Inl SeatKeyRequired, l)
         else case ltSeatOf l key of
                Some seat \<Rightarrow> (Inr seat, l)
              | None \<Rightarrow>
                  if int (length (ltSeats l)) \<ge> TermsSeats (ltTerms l) then (Inl (AllSeatsTaken (TermsSeats (ltTerms l))), l)
                  else if ltHand l \<noteq> None then (Inl HandStarted, l)
                  else let seat = length (ltSeats l)
                    in (Inr seat, l\<lparr>ltSeatOf := (ltSeatOf l)(key \<mapsto> seat),
                                    ltSeats := ltSeats l @ [\<lparr>TIndex = seat, IdentityKey = key, Funded = False, RefundHeld = False,
                                                             JoinedAt = now, LastSeen = now\<rparr>]\<rparr>))"

definition Live_SeatOf :: "('s, 'k, 'p, 'w) live_table \<Rightarrow> string \<Rightarrow> int" where
  "Live_SeatOf l identityKey = (case ltSeatOf l (norm_key identityKey) of Some seat \<Rightarrow> int seat | None \<Rightarrow> -1)"

fun endpoints_of :: "(string \<rightharpoonup> string) \<Rightarrow> tseat list \<Rightarrow> agent_endpoint list option" where
  "endpoints_of urls [] = Some []"
| "endpoints_of urls (s # ss) =
     (case urls (IdentityKey s) of
        None \<Rightarrow> None
      | Some url \<Rightarrow> map_option (\<lambda>es. \<lparr>EpSeat = int (TIndex s), EpIdentityKey = IdentityKey s, EpURL = url\<rparr> # es) (endpoints_of urls ss))"

definition endpointsLocked :: "('s, 'k, 'p, 'w) live_table \<Rightarrow> agent_endpoint list" where
  "endpointsLocked l = (case endpoints_of (ltAgentURL l) (ltSeats l) of None \<Rightarrow> [] | Some es \<Rightarrow> es)"

section \<open>Dealing\<close>

definition handIDLocked :: "('s, 'k, 'p, 'w) live_table \<Rightarrow> string" where
  "handIDLocked l = ltID l @ ''-h'' @ decimal (ltHandNo l)"

text \<open>The deck, whether it was dealt without a dealer, and what each seat read.\<close>

definition buildDeckLocked ::
  "('s, 'k, 'p, 'w, 'pt) live_lib \<Rightarrow> ('s, 'k, 'p, 'w) live_table \<Rightarrow> ('w, live_error, card list \<times> bool \<times> (int \<rightharpoonup> card list)) act" where
  "buildDeckLocked lib l w =
     (let endpoints = endpointsLocked l
      in case (if length endpoints \<noteq> length (ltSeats l) then None else ltCoord l) of
           None \<Rightarrow>
             (case Draws lib w of
                (w, rnd) \<Rightarrow> (w, case Shuffled rnd of None \<Rightarrow> Inl ShuffleFailed | Some d \<Rightarrow> Inr (d, False, Map.empty)))
         | Some co \<Rightarrow>
             (case Coord_Deal (live_calls lib) (Curve lib) co (handIDLocked l) endpoints 2 w of
                (w, Inl e) \<Rightarrow> (w, Inl (DealFailed e))
              | (w, Inr dealt) \<Rightarrow>
                  (w, Inr (concat (map (\<lambda>seat. slice_at (dhHole dealt) (int seat)) [0..<length (ltSeats l)]) @ dhBoard dealt,
                           True, dhHole dealt))))"

definition int64_of :: "u64 \<Rightarrow> int" where
  "int64_of v = sint v"

definition carried_stacks :: "('s, 'k, 'p, 'w) live_table \<Rightarrow> int list" where
  "carried_stacks l =
     (case ltStacks l of Some xs \<Rightarrow> xs | None \<Rightarrow> replicate (length (ltSeats l)) (int64_of (BuyInSatoshis (ltTerms l))))"

definition deal_config :: "('s, 'k, 'p, 'w) live_table \<Rightarrow> card list \<Rightarrow> config" where
  "deal_config l d =
     \<lparr>cfgStacks = carried_stacks l, cfgButton = ltButton l, cfgSmallBlind = int64_of (TermsSmallBlind (ltTerms l)),
      cfgBigBlind = int64_of (TermsBigBlind (ltTerms l)), cfgDeck = d, cfgHoleCards = 0, cfgUseHole = 0, cfgDeferReveal = False\<rparr>"

definition engine_holes :: "hand \<Rightarrow> int \<rightharpoonup> card list" where
  "engine_holes st = (\<lambda>i. if 0 \<le> i \<and> i < int (length (Seats st)) then Some (Hole (Seats st ! nat i)) else None)"

definition start_dealt ::
  "card list \<times> bool \<times> (int \<rightharpoonup> card list) \<Rightarrow> ('s, 'k, 'p, 'w) live_table \<Rightarrow> (live_error, ('s, 'k, 'p, 'w) live_table) outcome" where
  "start_dealt deal l =
     (case deal of (d, dealerless, hole) \<Rightarrow>
        (case New (deal_config l d) of
           Inl e \<Rightarrow> (Some (CannotStart e), l)
         | Inr st \<Rightarrow>
             (None, l\<lparr>ltHand := Some st, ltDealerless := dealerless,
                      ltHole := ltHole l ++ (if dealerless then hole else engine_holes st)\<rparr>)))"

definition dealLocked ::
  "('s, 'k, 'p, 'w, 'pt) live_lib \<Rightarrow> ('s, 'k, 'p, 'w) live_table \<Rightarrow> 'w \<Rightarrow> 'w \<times> (live_error, ('s, 'k, 'p, 'w) live_table) outcome" where
  "dealLocked lib l w =
     (let l = l\<lparr>ltStacks := Some (carried_stacks l)\<rparr>
      in case buildDeckLocked lib l w of
           (w, Inl e) \<Rightarrow> (w, Some e, l)
         | (w, Inr deal) \<Rightarrow> (w, start_dealt deal l))"

section \<open>Committing\<close>

definition mark_ready :: "nat \<Rightarrow> ('s, 'k, 'p, 'w) live_table \<Rightarrow> ('s, 'k, 'p, 'w) live_table" where
  "mark_ready seat l = l\<lparr>ltSeats := (ltSeats l)[seat := (ltSeats l ! seat)\<lparr>RefundHeld := True, Funded := True\<rparr>]\<rparr>"

definition Ready ::
  "('s, 'k, 'p, 'w, 'pt) live_lib \<Rightarrow> int \<Rightarrow> string \<Rightarrow> ('s, 'k, 'p, 'w) live_table \<Rightarrow> 'w
     \<Rightarrow> 'w \<times> (live_error, ('s, 'k, 'p, 'w) live_table) outcome" where
  "Ready lib now identityKey l w =
     (case ltSeatOf l (norm_key identityKey) of
        None \<Rightarrow> (w, Some NoSeatHeld, l)
      | Some seat \<Rightarrow>
          let l = mark_ready seat l
          in case Money_RefundHeld (ltMoney l) now (int seat) of
               (Some e, mo) \<Rightarrow> (w, Some (LiveMoney e), l\<lparr>ltMoney := mo\<rparr>)
             | (None, mo) \<Rightarrow>
                 (case Committed mo now (int seat) of
                    (Some e, mo) \<Rightarrow> (w, Some (LiveMoney e), l\<lparr>ltMoney := mo\<rparr>)
                  | (None, mo) \<Rightarrow>
                      let l = l\<lparr>ltMoney := mo\<rparr>
                      in if ltHand l \<noteq> None \<or> int (length (ltSeats l)) < TermsSeats (ltTerms l) then (w, None, l)
                         else if \<not> list_all Funded (ltSeats l) then (w, None, l)
                         else if Pots_Enabled (ltPots l) then (w, None, l\<lparr>ltReadyToStart := True\<rparr>)
                         else dealLocked lib l w))"

definition PendingStart :: "('s, 'k, 'p, 'w) live_table \<Rightarrow> bool" where
  "PendingStart l \<longleftrightarrow> ltReadyToStart l \<and> ltHand l = None"

section \<open>Playing\<close>

definition parseAction :: "string \<Rightarrow> (live_error, action_kind) res" where
  "parseAction a =
     (let k = norm_key a
      in if k = ''fold'' then Inr Fold
         else if k = ''check'' then Inr Check
         else if k = ''call'' then Inr Call
         else if k = ''bet'' then Inr Bet
         else if k = ''raise'' then Inr Raise
         else Inl (NotAnAction a))"

definition satoshis_of :: "(nat \<rightharpoonup> int) \<Rightarrow> int \<rightharpoonup> u64" where
  "satoshis_of won = (\<lambda>i. if i < 0 then None else map_option word_of_int (won (nat i)))"

definition finishHandLocked :: "hand \<Rightarrow> ('s, 'k, 'p, 'w) live_table \<Rightarrow> ('s, 'k, 'p, 'w) live_table" where
  "finishHandLocked st l =
     l\<lparr>ltStacks := Some (map Stack (Seats st)), ltHandNo := ltHandNo l + 1,
       ltButton := (if ltSeats l = [] then ltButton l else (ltButton l + 1) mod int (length (ltSeats l)))\<rparr>"

definition touch :: "nat \<Rightarrow> int \<Rightarrow> ('s, 'k, 'p, 'w) live_table \<Rightarrow> ('s, 'k, 'p, 'w) live_table" where
  "touch seat now l = l\<lparr>ltSeats := (ltSeats l)[seat := (ltSeats l ! seat)\<lparr>LastSeen := now\<rparr>]\<rparr>"

text \<open>The engine is changed in place, also by an action it goes on to report an error for.\<close>

definition Live_Act ::
  "('s, 'k, 'p, 'w) live_table \<Rightarrow> int \<Rightarrow> string \<Rightarrow> string \<Rightarrow> int \<Rightarrow> (live_error, ('s, 'k, 'p, 'w) live_table) outcome" where
  "Live_Act l now identityKey act to =
     (case ltSeatOf l (norm_key identityKey) of
        None \<Rightarrow> (Some NoSeatHeld, l)
      | Some seat \<Rightarrow>
     (case ltHand l of
        None \<Rightarrow> (Some HandNotStarted, l)
      | Some st \<Rightarrow>
     if Done st then (Some HandIsOver, l)
     else if ToAct st \<noteq> int seat then (Some (NotYourTurn (ToAct st) seat), l)
     else case parseAction act of
        Inl e \<Rightarrow> (Some e, l)
      | Inr k \<Rightarrow>
          (case Apply st \<lparr>Kind = k, ActSeat = int seat, To = to\<rparr> of
             (Some e, st') \<Rightarrow> (Some (EngineRefused e), l\<lparr>ltHand := Some st'\<rparr>)
           | (None, st') \<Rightarrow>
               let l = touch seat now (l\<lparr>ltHand := Some st'\<rparr>)
               in (None, if Done st'
                         then finishHandLocked st' (l\<lparr>ltMoney := Settled (ltMoney l) now (ltSettlementTxID l) (satoshis_of (Payouts st'))\<rparr>)
                         else l))))"

definition HandOver :: "('s, 'k, 'p, 'w) live_table \<Rightarrow> bool" where
  "HandOver l \<longleftrightarrow> (case ltHand l of None \<Rightarrow> False | Some st \<Rightarrow> Done st)"

definition SitOut ::
  "('s, 'k, 'p, 'w) live_table \<Rightarrow> string \<Rightarrow> (live_error, ('s, 'k, 'p, 'w) live_table) outcome" where
  "SitOut l identityKey =
     (case ltSeatOf l (norm_key identityKey) of
        None \<Rightarrow> (Some NoSeatHeld, l)
      | Some seat \<Rightarrow> (None, l\<lparr>ltSittingOut := List.insert seat (ltSittingOut l)\<rparr>))"

definition SittingOut :: "('s, 'k, 'p, 'w) live_table \<Rightarrow> nat \<Rightarrow> bool" where
  "SittingOut l seat \<longleftrightarrow> List.member (ltSittingOut l) seat"

section \<open>The next hand\<close>

definition session_over :: "('s, 'k, 'p, 'w) live_table \<Rightarrow> bool" where
  "session_over l \<longleftrightarrow> ltSittingOut l \<noteq> []
     \<or> list_ex (\<lambda>stack. stack < int64_of (TermsBigBlind (ltTerms l))) (case ltStacks l of None \<Rightarrow> [] | Some xs \<Rightarrow> xs)"

definition clear_hand :: "int \<Rightarrow> ('s, 'k, 'p, 'w) live_table \<Rightarrow> ('s, 'k, 'p, 'w) live_table" where
  "clear_hand now l = l\<lparr>ltMoney := SetHand (ltMoney l) now (handIDLocked l), ltHole := Map.empty, ltHand := None\<rparr>"

definition NextHand ::
  "('s, 'k, 'p, 'w, 'pt) live_lib \<Rightarrow> int \<Rightarrow> ('s, 'k, 'p, 'w) live_table \<Rightarrow> 'w
     \<Rightarrow> 'w \<times> (live_error, bool) res \<times> ('s, 'k, 'p, 'w) live_table" where
  "NextHand lib now l w =
     (if \<not> HandOver l then (w, Inr False, l)
      else if session_over l then (w, Inr False, l)
      else case dealLocked lib (clear_hand now l) w of
             (w, Some e, l) \<Rightarrow> (w, Inl e, l)
           | (w, None, l) \<Rightarrow> (w, Inr True, l))"

definition PrepareNextHand :: "('s, 'k, 'p, 'w) live_table \<Rightarrow> int \<Rightarrow> bool \<times> ('s, 'k, 'p, 'w) live_table" where
  "PrepareNextHand l now =
     (if \<not> HandOver l then (False, l)
      else if session_over l then (False, l)
      else (True, (clear_hand now l)\<lparr>ltReadyToStart := True\<rparr>))"

section \<open>Stalls\<close>

definition Live_Stall :: "('s, 'k, 'p, 'w) live_table \<Rightarrow> int \<Rightarrow> int \<Rightarrow> string \<Rightarrow> (live_error, ('s, 'k, 'p, 'w) live_table) outcome" where
  "Live_Stall l now seat reason =
     (if reason = '''' then (Some StallNeedsReason, l)
      else case Stalled (ltMoney l) now seat reason of
             (e, mo) \<Rightarrow> (map_option LiveMoney e, l\<lparr>ltStalledSeat := seat, ltStallReason := reason, ltMoney := mo\<rparr>))"

definition recordStall :: "string \<Rightarrow> ('s, 'k, 'p, 'w) live_table \<Rightarrow> ('s, 'k, 'p, 'w) live_table" where
  "recordStall reason l = l\<lparr>ltStallReason := reason, ltReadyToStart := False\<rparr>"

end
