(* ===== verification/Live_Session.thy ===== *)
theory Live_Session
  imports Live_Table
begin

text \<open>
  What puts value behind the hands of a live table, and the loop that plays a session, \<^verbatim>\<open>internal/webui/live.go\<close>: opening the session's
  pot, carrying each finished hand into it, cashing out, and one turn of \<open>RunHands\<close> and of \<open>settleSessionOnExit\<close>. Each operation is
  given for the case that no other call on the table comes between its parts; \<open>ErrorText\<close> is the text of an error.
\<close>

record ('s, 'k, 'p, 'w, 'pt) session_lib = "('s, 'k, 'p, 'w, 'pt) live_lib" +
  ErrorText :: "live_error \<Rightarrow> string"

abbreviation session_live :: "('s, 'k, 'p, 'w, 'pt) session_lib \<Rightarrow> ('s, 'k, 'p, 'w, 'pt) live_lib" where
  "session_live lib \<equiv> live_lib.truncate lib"

abbreviation session_pots :: "('s, 'k, 'p, 'w, 'pt) session_lib \<Rightarrow> ('s, 'k, 'p, 'w) pot_lib" where
  "session_pots lib \<equiv> pot_lib.truncate lib"

definition enabled_pots :: "('s, 'k, 'p, 'w) live_table \<Rightarrow> ('s, 'k, 'p, 'w) pot_manager option" where
  "enabled_pots l = (if Pots_Enabled (ltPots l) then ltPots l else None)"

section \<open>The session's pot\<close>

fun mark_each ::
  "(tracker \<Rightarrow> int \<Rightarrow> int \<Rightarrow> (money_error, tracker) outcome) \<Rightarrow> int \<Rightarrow> agent_endpoint list \<Rightarrow> tracker \<Rightarrow> (money_error, tracker) outcome" where
  "mark_each f now [] mo = (None, mo)"
| "mark_each f now (s # ss) mo =
     (case f mo now (EpSeat s) of (Some e, mo) \<Rightarrow> (Some e, mo) | (None, mo) \<Rightarrow> mark_each f now ss mo)"

definition pot_opened ::
  "int \<Rightarrow> u32 \<Rightarrow> string \<Rightarrow> agent_endpoint list \<Rightarrow> ('s, 'k, 'p, 'w) live_table \<Rightarrow> (live_error, ('s, 'k, 'p, 'w) live_table) outcome" where
  "pot_opened now height sid seats l =
     (let l = l\<lparr>ltOpenPotHand := sid\<rparr>
      in case mark_each Money_RefundHeld now seats (SetHeight (ltMoney l) height) of
           (Some e, mo) \<Rightarrow> (Some (LiveMoney e), l\<lparr>ltMoney := mo\<rparr>)
         | (None, mo) \<Rightarrow>
             (case mark_each Committed now seats mo of
                (Some e, mo) \<Rightarrow> (Some (LiveMoney e), l\<lparr>ltMoney := mo\<rparr>)
              | (None, mo) \<Rightarrow> (None, l\<lparr>ltMoney := mo, ltSettlementTxID := ''''\<rparr>)))"

definition OpenPotForHand ::
  "('s, 'k, 'p, 'w, 'pt) session_lib \<Rightarrow> int \<Rightarrow> u32 \<Rightarrow> ('s, 'k, 'p, 'w) live_table \<Rightarrow> 'w
     \<Rightarrow> 'w \<times> (live_error, ('s, 'k, 'p, 'w) live_table) outcome" where
  "OpenPotForHand lib now height l w =
     (case enabled_pots l of
        None \<Rightarrow> (w, None, l)
      | Some m \<Rightarrow>
          let sid = ltID l @ ''-session''; l = l\<lparr>ltSessionID := sid\<rparr>; seats = endpointsLocked l;
              pot = BuyInSatoshis (ltTerms l) * of_nat (length (ltSeats l))
          in if length seats < 2 then (w, Some PotNeedsWallets, l)
             else case OpenPot (session_pots lib) sid seats pot height m w of
                    (w, Inl e) \<Rightarrow> (w, Some (PotFailed e), l)
                  | (w, Inr m) \<Rightarrow> (w, pot_opened now height sid seats (l\<lparr>ltPots := Some m\<rparr>)))"

definition StartFundedHand ::
  "('s, 'k, 'p, 'w, 'pt) session_lib \<Rightarrow> int \<Rightarrow> u32 \<Rightarrow> ('s, 'k, 'p, 'w) live_table \<Rightarrow> 'w
     \<Rightarrow> 'w \<times> (live_error, ('s, 'k, 'p, 'w) live_table) outcome" where
  "StartFundedHand lib now height l w =
     (case (if ltOpenPotHand l = '''' then OpenPotForHand lib now height l w else (w, None, l)) of
        (w, Some e, l) \<Rightarrow> (w, Some e, l)
      | (w, None, l) \<Rightarrow>
          let l = l\<lparr>ltReadyToStart := False\<rparr>
          in if ltHand l \<noteq> None then (w, None, l) else dealLocked (session_live lib) l w)"

text \<open>A finished hand's stacks, as the balances of the pot: a seat without chips has no entry.\<close>

definition hand_balances :: "hand \<Rightarrow> seat_amounts" where
  "hand_balances st =
     map (\<lambda>i. (int i, word_of_int (Stack (Seats st ! i)))) (filter (\<lambda>i. 0 < Stack (Seats st ! i)) [0..<length (Seats st)])"

definition ApplyHandBalances ::
  "('s, 'k, 'p, 'w, 'pt) session_lib \<Rightarrow> int \<Rightarrow> ('s, 'k, 'p, 'w) live_table \<Rightarrow> 'w
     \<Rightarrow> 'w \<times> (live_error, ('s, 'k, 'p, 'w) live_table) outcome" where
  "ApplyHandBalances lib now l w =
     (case (enabled_pots l, ltHand l) of
        (Some m, Some st) \<Rightarrow>
          if \<not> Done st \<or> ltOpenPotHand l = '''' then (w, None, l)
          else let seats = endpointsLocked l; balances = hand_balances st
            in if seats = [] \<or> balances = [] then (w, None, l)
               else (case ApplyHand (session_pots lib) (ltOpenPotHand l) seats balances m w of
                       (w, Some e, m) \<Rightarrow> (w, Some (PotFailed e), l\<lparr>ltPots := Some m\<rparr>)
                     | (w, None, m) \<Rightarrow>
                         (w, None, l\<lparr>ltPots := Some m, ltMoney := Settled (ltMoney l) now '''' (map_of balances)\<rparr>))
      | _ \<Rightarrow> (w, None, l))"

section \<open>What a seat is told, and arming\<close>

definition StakeForSeat ::
  "('s, 'k, 'p, 'w, 'pt) session_lib \<Rightarrow> ('s, 'k, 'p, 'w) live_table \<Rightarrow> int \<Rightarrow> ('w, live_error, stake_info option) act" where
  "StakeForSeat lib l seat w =
     (case (enabled_pots l, ltHand l) of
        (Some m, Some st) \<Rightarrow>
          (case Balances_of (ltOpenPotHand l) m of
             None \<Rightarrow> (w, Inr None)
           | Some balances \<Rightarrow>
               (case MapOrder lib balances w of
                  (w, balances) \<Rightarrow>
                    otherwise PotFailed (give (StakeFor (session_pots lib) (ltOpenPotHand l) seat (endpointsLocked l) balances m)) w))
      | _ \<Rightarrow> (w, Inr None))"

definition MarkSeatArmed :: "int \<Rightarrow> ('s, 'k, 'p, 'w) live_table \<Rightarrow> ('s, 'k, 'p, 'w) live_table" where
  "MarkSeatArmed seat l =
     (case ltPots l of
        None \<Rightarrow> l
      | Some m \<Rightarrow> if ltOpenPotHand l = '''' then l else l\<lparr>ltPots := Some (MarkArmed (ltOpenPotHand l) seat m)\<rparr>)"

section \<open>Settling on chain\<close>

definition settle_with ::
  "('s, 'k, 'p, 'w, 'pt) session_lib \<Rightarrow> int \<Rightarrow> ('s, 'k, 'p, 'w) pot_manager \<Rightarrow> agent_endpoint list \<Rightarrow> seat_amounts
     \<Rightarrow> ('s, 'k, 'p, 'w) live_table \<Rightarrow> 'w \<Rightarrow> 'w \<times> (live_error, string) res \<times> ('s, 'k, 'p, 'w) live_table" where
  "settle_with lib now m seats payouts l w =
     (case MapOrder lib payouts w of
        (w, ordered) \<Rightarrow>
     (case Pot_Settle (session_pots lib) (ltOpenPotHand l) seats ordered m w of
        (w, Inl e) \<Rightarrow> (w, Inl (PotFailed e), l\<lparr>ltStallReason := ErrorText lib (PotFailed e)\<rparr>)
      | (w, Inr (txid, m)) \<Rightarrow>
          (w, Inr txid, l\<lparr>ltPots := Some m, ltSettlementTxID := txid, ltOpenPotHand := '''',
                          ltMoney := Settled (ltMoney l) now txid (map_of payouts)\<rparr>)))"

definition hand_payouts :: "hand \<Rightarrow> seat_amounts" where
  "hand_payouts st =
     map (\<lambda>i. (int i, word_of_int (payout_of (Payouts st) i))) (filter (\<lambda>i. 0 < payout_of (Payouts st) i) [0..<length (Seats st)])"

definition SettleOnChain ::
  "('s, 'k, 'p, 'w, 'pt) session_lib \<Rightarrow> int \<Rightarrow> ('s, 'k, 'p, 'w) live_table \<Rightarrow> 'w
     \<Rightarrow> 'w \<times> (live_error, string) res \<times> ('s, 'k, 'p, 'w) live_table" where
  "SettleOnChain lib now l w =
     (case (enabled_pots l, ltHand l) of
        (Some m, Some st) \<Rightarrow>
          let seats = endpointsLocked l; payouts = hand_payouts st
          in if \<not> Done st \<or> ltSettlementTxID l \<noteq> '''' then (w, Inr '''', l)
             else if \<not> AllArmed (ltOpenPotHand l) seats m then (w, Inl AwaitingSeats, l)
             else if ltOpenPotHand l = '''' then (w, Inl NoOpenPot, l)
             else if payouts = [] \<or> seats = [] then (w, Inr '''', l)
             else settle_with lib now m seats payouts l w
      | _ \<Rightarrow> (w, Inr '''', l))"

definition CashOut ::
  "('s, 'k, 'p, 'w, 'pt) session_lib \<Rightarrow> int \<Rightarrow> ('s, 'k, 'p, 'w) live_table \<Rightarrow> 'w
     \<Rightarrow> 'w \<times> (live_error, string) res \<times> ('s, 'k, 'p, 'w) live_table" where
  "CashOut lib now l w =
     (case enabled_pots l of
        None \<Rightarrow> (w, Inr '''', l)
      | Some m \<Rightarrow>
          if ltOpenPotHand l = '''' \<or> ltSettlementTxID l \<noteq> '''' then (w, Inr '''', l)
          else let seats = endpointsLocked l
            in case Balances_of (ltOpenPotHand l) m of
                 None \<Rightarrow> (w, Inl (NoSessionPot (ltOpenPotHand l)), l)
               | Some balances \<Rightarrow>
                   if \<not> AllArmed (ltOpenPotHand l) seats m then (w, Inl AwaitingSeats, l)
                   else settle_with lib now m seats balances l w)"

section \<open>The session loop\<close>

text \<open>
  One turn of a loop, after its pause: it goes round again, it goes on to the exit loop, or it returns. A turn is handed what the
  height source answers, should it ask.
\<close>

datatype turn = Again | Leaving | Ended

definition RunHands ::
  "('s, 'k, 'p, 'w, 'pt) session_lib \<Rightarrow> int \<Rightarrow> (string, u32) res \<Rightarrow> ('s, 'k, 'p, 'w) live_table \<Rightarrow> 'w
     \<Rightarrow> 'w \<times> turn \<times> ('s, 'k, 'p, 'w) live_table" where
  "RunHands lib now height l w =
     (if PendingStart l
      then case height of
             Inl e \<Rightarrow> (w, Ended, recordStall (''the table could not read the chain height: '' @ e) l)
           | Inr h \<Rightarrow>
               (case StartFundedHand lib now h l w of
                  (w, Some e, l) \<Rightarrow> (w, Ended, recordStall (ErrorText lib e) l)
                | (w, None, l) \<Rightarrow> (w, Again, l))
      else if \<not> HandOver l then (w, Again, l)
      else case (if ForValue l then ApplyHandBalances lib now l w else (w, None, l)) of
             (w, Some e, l) \<Rightarrow> (w, Ended, recordStall (ErrorText lib e) l)
           | (w, None, l) \<Rightarrow>
               if ForValue l
               then (case PrepareNextHand l now of (ok, l) \<Rightarrow> (w, if ok then Again else Leaving, l))
               else (case NextHand (session_live lib) now l w of
                       (w, Inl e, l) \<Rightarrow> (w, Ended, l)
                     | (w, Inr dealt, l) \<Rightarrow> (w, if dealt then Again else Leaving, l)))"

definition never_armed :: string where
  "never_armed = ''webui: a seat never recorded its stake, so the session could not settle. Every seat holds a refund paying its own balance''"

definition settleSessionOnExit ::
  "('s, 'k, 'p, 'w, 'pt) session_lib \<Rightarrow> int \<Rightarrow> int \<Rightarrow> ('s, 'k, 'p, 'w) live_table \<Rightarrow> 'w
     \<Rightarrow> 'w \<times> turn \<times> ('s, 'k, 'p, 'w) live_table" where
  "settleSessionOnExit lib deadline now l w =
     (case CashOut lib now l w of
        (w, Inr txid, l) \<Rightarrow> (w, Ended, l)
      | (w, Inl e, l) \<Rightarrow>
          if e \<noteq> AwaitingSeats then (w, Ended, recordStall (ErrorText lib e) l)
          else if deadline < now then (w, Ended, recordStall never_armed l)
          else (w, Leaving, l))"

end
