(* ===== verification/Live_View.thy ===== *)
theory Live_View
  imports Live_Session "HOL-Library.Char_ord" "HOL-Library.List_Lexorder"
begin

text \<open>
  What a browser is shown: the views of \<^verbatim>\<open>internal/webui/live.go\<close> and \<^verbatim>\<open>internal/webui/api.go\<close>, the store they are kept in, and the
  endpoints of the API as functions from the decoded request to the status, the answer and the table. Serving files, reading the
  body and writing the answer are left to the HTTP library: a body that does not decode is \<open>None\<close>.
\<close>

section \<open>Views\<close>

record player_view =
  pvSeat :: nat
  pvIdentityKey :: string
  pvStack :: int
  pvCommitted :: int
  pvFolded :: bool
  pvAllIn :: bool
  pvFunded :: bool
  pvRefundHeld :: bool
  pvHole :: "string list"
  pvMoneySummary :: string
  pvAtRisk :: bool

record table_view =
  tvTableID :: string
  tvPhase :: string
  tvSeats :: int
  tvBuyInSatoshis :: u64
  tvSmallBlind :: u64
  tvBigBlind :: u64
  tvRefundLockHeight :: u32
  tvPlayers :: "player_view list"
  tvBoard :: "string list"
  tvPot :: int
  tvToAct :: int
  tvForValue :: bool
  tvSettlementTxID :: string
  tvSessionPot :: bool
  tvStreet :: string
  tvStalledSeat :: int
  tvStallReason :: string
  tvUpdatedAt :: int

record legal_view =
  YourTurn :: bool
  lvCanFold :: bool
  lvCanCheck :: bool
  lvCanCall :: bool
  lvCanBetRaise :: bool
  lvCallAmount :: int
  lvMinTo :: int
  lvMaxTo :: int

definition LegalFor :: "('s, 'k, 'p, 'w) live_table \<Rightarrow> int \<Rightarrow> legal_view" where
  "LegalFor l seat =
     (let none = \<lparr>YourTurn = False, lvCanFold = False, lvCanCheck = False, lvCanCall = False, lvCanBetRaise = False,
                  lvCallAmount = 0, lvMinTo = 0, lvMaxTo = 0\<rparr>
      in case ltHand l of
           None \<Rightarrow> none
         | Some st \<Rightarrow>
             if Done st \<or> ToAct st \<noteq> seat then none
             else let lg = Legal st
               in \<lparr>YourTurn = True, lvCanFold = CanFold lg, lvCanCheck = CanCheck lg, lvCanCall = CanCall lg,
                   lvCanBetRaise = CanBetRaise lg, lvCallAmount = CallAmount lg, lvMinTo = MinTo lg, lvMaxTo = MaxTo lg\<rparr>)"

definition truncateKey :: "string \<Rightarrow> string" where
  "truncateKey k = (if length k \<le> 16 then k else take 16 k)"

definition cardStrings :: "card list \<Rightarrow> string list" where
  "cardStrings cs = map Card_String cs"

definition BoardStrings :: "card list \<Rightarrow> string list" where
  "BoardStrings board = map Card_String board"

definition player_row :: "hand option \<Rightarrow> tracker \<Rightarrow> tseat \<Rightarrow> player_view" where
  "player_row st money s =
     (let p = \<lparr>pvSeat = TIndex s, pvIdentityKey = truncateKey (IdentityKey s), pvStack = 0, pvCommitted = 0, pvFolded = False,
               pvAllIn = False, pvFunded = Funded s, pvRefundHeld = RefundHeld s, pvHole = [], pvMoneySummary = '''', pvAtRisk = False\<rparr>;
          p = (case st of
                 None \<Rightarrow> p
               | Some st \<Rightarrow>
                   if TIndex s < length (Seats st)
                   then let es = Seats st ! TIndex s
                     in p\<lparr>pvStack := Stack es, pvCommitted := TotalCommit es, pvFolded := Folded es, pvAllIn := AllIn es\<rparr>
                   else p)
      in case Money_State money (int (TIndex s)) of
           Inl e \<Rightarrow> p
         | Inr ms \<Rightarrow> p\<lparr>pvMoneySummary := Summary ms, pvAtRisk := AtRisk ms\<rparr>)"

definition FromEngine :: "hand option \<Rightarrow> tseat list \<Rightarrow> tracker \<Rightarrow> player_view list" where
  "FromEngine st seats money = map (player_row st money) seats"

fun Street_String :: "street \<Rightarrow> string" where
  "Street_String Preflop = ''preflop''"
| "Street_String Flop = ''flop''"
| "Street_String Turn = ''turn''"
| "Street_String River = ''river''"
| "Street_String Complete = ''complete''"

definition view_phase :: "('s, 'k, 'p, 'w) live_table \<Rightarrow> string" where
  "view_phase l =
     (if ltStallReason l \<noteq> '''' then ''stalled''
      else case ltHand l of
             None \<Rightarrow> if int (length (ltSeats l)) \<ge> TermsSeats (ltTerms l) then ''waiting for buy-ins'' else ''waiting for players''
           | Some st \<Rightarrow> if Done st then ''hand complete'' else ''in play'')"

definition show_hole :: "int \<Rightarrow> string list \<Rightarrow> player_view list \<Rightarrow> player_view list" where
  "show_hole seat hole = map (\<lambda>p. if int (pvSeat p) = seat then p\<lparr>pvHole := hole\<rparr> else p)"

definition View :: "('s, 'k, 'p, 'w) live_table \<Rightarrow> int \<Rightarrow> int \<Rightarrow> table_view" where
  "View l now seat =
     (let rows = FromEngine (ltHand l) (ltSeats l) (ltMoney l); st = ltHand l
      in \<lparr>tvTableID = ltID l, tvPhase = view_phase l, tvSeats = TermsSeats (ltTerms l), tvBuyInSatoshis = BuyInSatoshis (ltTerms l),
          tvSmallBlind = TermsSmallBlind (ltTerms l), tvBigBlind = TermsBigBlind (ltTerms l),
          tvRefundLockHeight = RefundLockHeight (ltTerms l),
          tvPlayers = (if 0 \<le> seat then (case ltHole l seat of None \<Rightarrow> rows | Some h \<Rightarrow> show_hole seat (cardStrings h) rows) else rows),
          tvBoard = (case st of None \<Rightarrow> [] | Some st \<Rightarrow> BoardStrings (Board st)),
          tvPot = (case st of None \<Rightarrow> 0 | Some st \<Rightarrow> Pot st), tvToAct = (case st of None \<Rightarrow> -1 | Some st \<Rightarrow> ToAct st),
          tvForValue = Pots_Enabled (ltPots l), tvSettlementTxID = ltSettlementTxID l, tvSessionPot = (ltOpenPotHand l \<noteq> ''''),
          tvStreet = (case st of None \<Rightarrow> '''' | Some st \<Rightarrow> Street_String (Street st)), tvStalledSeat = ltStalledSeat l,
          tvStallReason = ltStallReason l, tvUpdatedAt = now\<rparr>)"

definition Winners :: "('s, 'k, 'p, 'w) live_table \<Rightarrow> (nat \<rightharpoonup> int) option" where
  "Winners l = (case ltHand l of None \<Rightarrow> None | Some st \<Rightarrow> if Done st then Some (Payouts st) else None)"

section \<open>The store\<close>

record ('s, 'k, 'p, 'w) store =
  stTables :: "(string \<times> table_view) list"
  stHole :: "string \<rightharpoonup> (int \<rightharpoonup> string list)"
  stLive :: "('s, 'k, 'p, 'w) live_table option"
  stRelay :: relay

definition NewStore :: "('s, 'k, 'p, 'w) store" where
  "NewStore = \<lparr>stTables = [], stHole = Map.empty, stLive = None, stRelay = NewRelay\<rparr>"

definition PutTable :: "('s, 'k, 'p, 'w) store \<Rightarrow> int \<Rightarrow> table_view \<Rightarrow> (string, ('s, 'k, 'p, 'w) store) outcome" where
  "PutTable s now v =
     (if tvTableID v = '''' then (Some ''webui: a table view needs a table id'', s)
      else (None, s\<lparr>stTables := AList.update (tvTableID v) (v\<lparr>tvUpdatedAt := now\<rparr>) (stTables s)\<rparr>))"

definition SetHole :: "('s, 'k, 'p, 'w) store \<Rightarrow> string \<Rightarrow> int \<Rightarrow> card list \<Rightarrow> ('s, 'k, 'p, 'w) store" where
  "SetHole s tableID seat hole =
     s\<lparr>stHole := (stHole s)(tableID \<mapsto> (case stHole s tableID of None \<Rightarrow> Map.empty | Some m \<Rightarrow> m)(seat \<mapsto> cardStrings hole))\<rparr>"

definition strip_holes :: "table_view \<Rightarrow> table_view" where
  "strip_holes v = v\<lparr>tvPlayers := map (\<lambda>p. p\<lparr>pvHole := []\<rparr>) (tvPlayers v)\<rparr>"

definition Store_Table :: "('s, 'k, 'p, 'w) store \<Rightarrow> string \<Rightarrow> int \<Rightarrow> (string, table_view) res" where
  "Store_Table s tableID seat =
     (case map_of (stTables s) tableID of
        None \<Rightarrow> Inl (''webui: no table '' @ tableID)
      | Some v \<Rightarrow>
          let out = strip_holes v
          in if seat < 0 then Inr out
             else case stHole s tableID of
                    None \<Rightarrow> Inr out
                  | Some m \<Rightarrow>
                      (case m seat of None \<Rightarrow> Inr out | Some h \<Rightarrow> Inr (out\<lparr>tvPlayers := show_hole seat h (tvPlayers out)\<rparr>)))"

definition Tables :: "('s, 'k, 'p, 'w) store \<Rightarrow> table_view list" where
  "Tables s = sort_key tvTableID (map (strip_holes \<circ> snd) (stTables s))"

definition SetLive :: "('s, 'k, 'p, 'w) store \<Rightarrow> ('s, 'k, 'p, 'w) live_table \<Rightarrow> ('s, 'k, 'p, 'w) store" where
  "SetLive s l = s\<lparr>stLive := Some l\<rparr>"

end
