(* ===== verification/Web_Api.thy ===== *)
theory Web_Api
  imports Live_View
begin

text \<open>
  The playable endpoints of \<^verbatim>\<open>internal/webui/api.go\<close>, each as a function from the decoded body to the reply and the store. \<open>None\<close> is a
  body that is not valid JSON. An identity key is all a caller gives: the seat is looked up, never taken from the request.
\<close>

datatype api_reply = NoPlayableTable | BadBody | FieldMissing string | LiveConflict live_error | NotSeated | RelayConflict string
  | TableUnknown string | Joined nat bool bool | Accepted | StakeClosed | StakeOpen stake_info int string
  | Requests "(string \<times> bytes) list" | LiveState int table_view legal_view bool "(nat \<rightharpoonup> int) option"
  | OneTable table_view | AllTables "table_view list" | ApiPanic

fun api_status :: "api_reply \<Rightarrow> nat" where
  "api_status NoPlayableTable = 503"
| "api_status BadBody = 400"
| "api_status (FieldMissing f) = 400"
| "api_status (LiveConflict e) = 409"
| "api_status NotSeated = 409"
| "api_status (RelayConflict e) = 409"
| "api_status (TableUnknown e) = 404"
| "api_status ApiPanic = 500"
| "api_status _ = 200"

definition with_live ::
  "('s, 'k, 'p, 'w) store \<Rightarrow> 'r option \<Rightarrow> ('r \<Rightarrow> ('s, 'k, 'p, 'w) live_table \<Rightarrow> api_reply \<times> ('s, 'k, 'p, 'w) live_table)
     \<Rightarrow> api_reply \<times> ('s, 'k, 'p, 'w) store" where
  "with_live s req f =
     (case stLive s of
        None \<Rightarrow> (NoPlayableTable, s)
      | Some l \<Rightarrow>
          (case req of
             None \<Rightarrow> (BadBody, s)
           | Some r \<Rightarrow> (case f r l of (reply, l') \<Rightarrow> (reply, s\<lparr>stLive := Some l'\<rparr>))))"

record join_request =
  JrIdentityKey :: string
  JrAgentURL :: string
  JrRelay :: bool

definition join_seat ::
  "int \<Rightarrow> join_request \<Rightarrow> ('s, 'k, 'p, 'w) live_table \<Rightarrow> api_reply \<times> ('s, 'k, 'p, 'w) live_table" where
  "join_seat now r l =
     (case Live_Join l now (JrIdentityKey r) of
        (Inl e, l) \<Rightarrow> (LiveConflict e, l)
      | (Inr seat, l) \<Rightarrow>
          let url = (if JrRelay r then RelayURL else JrAgentURL r)
          in case (if url = '''' then (None, l) else RegisterAgent l (JrIdentityKey r) url) of
               (Some e, l) \<Rightarrow> (LiveConflict e, l)
             | (None, l) \<Rightarrow> (Joined seat (url \<noteq> '''') (url = RelayURL), l))"

definition api_join :: "('s, 'k, 'p, 'w) store \<Rightarrow> int \<Rightarrow> join_request option \<Rightarrow> api_reply \<times> ('s, 'k, 'p, 'w) store" where
  "api_join s now req = with_live s req (join_seat now)"

definition answered :: "(live_error, 'a) outcome \<Rightarrow> api_reply \<times> 'a" where
  "answered r = (case r of (Some e, l) \<Rightarrow> (LiveConflict e, l) | (None, l) \<Rightarrow> (Accepted, l))"

definition api_ready ::
  "('s, 'k, 'p, 'w, 'pt) live_lib \<Rightarrow> ('s, 'k, 'p, 'w) store \<Rightarrow> int \<Rightarrow> string option \<Rightarrow> 'w \<Rightarrow> 'w \<times> api_reply \<times> ('s, 'k, 'p, 'w) store" where
  "api_ready lib s now req w =
     (case (stLive s, req) of
        (None, _) \<Rightarrow> (w, NoPlayableTable, s)
      | (Some l, None) \<Rightarrow> (w, BadBody, s)
      | (Some l, Some key) \<Rightarrow>
          (case Ready lib now key l w of
             (w, Some e, l) \<Rightarrow> (w, LiveConflict e, s\<lparr>stLive := Some l\<rparr>)
           | (w, None, l) \<Rightarrow> (w, Accepted, s\<lparr>stLive := Some l\<rparr>)))"

definition api_sitout :: "('s, 'k, 'p, 'w) store \<Rightarrow> string option \<Rightarrow> api_reply \<times> ('s, 'k, 'p, 'w) store" where
  "api_sitout s req = with_live s req (\<lambda>key l. answered (SitOut l key))"

record act_request =
  ArIdentityKey :: string
  ArAction :: string
  ArTo :: int

definition api_act :: "('s, 'k, 'p, 'w) store \<Rightarrow> int \<Rightarrow> act_request option \<Rightarrow> api_reply \<times> ('s, 'k, 'p, 'w) store" where
  "api_act s now req = with_live s req (\<lambda>r l. answered (Live_Act l now (ArIdentityKey r) (ArAction r) (ArTo r)))"

definition api_armed :: "('s, 'k, 'p, 'w) store \<Rightarrow> string option \<Rightarrow> api_reply \<times> ('s, 'k, 'p, 'w) store" where
  "api_armed s req = with_live s req
     (\<lambda>key l. let seat = Live_SeatOf l key in if seat < 0 then (NotSeated, l) else (Accepted, MarkSeatArmed seat l))"

definition api_stake ::
  "('s, 'k, 'p, 'w, 'pt) session_lib \<Rightarrow> ('s, 'k, 'p, 'w) store \<Rightarrow> string option \<Rightarrow> 'w \<Rightarrow> 'w \<times> api_reply" where
  "api_stake lib s req w =
     (case (stLive s, req) of
        (None, _) \<Rightarrow> (w, NoPlayableTable)
      | (Some l, None) \<Rightarrow> (w, BadBody)
      | (Some l, Some key) \<Rightarrow>
          let seat = Live_SeatOf l key
          in if seat < 0 then (w, NotSeated)
             else case StakeForSeat lib l seat w of
                    (w, Inl e) \<Rightarrow> (w, ApiPanic)
                  | (w, Inr None) \<Rightarrow> (w, StakeClosed)
                  | (w, Inr (Some info)) \<Rightarrow>
                      (w, StakeOpen info seat (case map_of (SiRefunds info) seat of None \<Rightarrow> '''' | Some t \<Rightarrow> t)))"

definition api_poll :: "('s, 'k, 'p, 'w) store \<Rightarrow> string option \<Rightarrow> api_reply \<times> ('s, 'k, 'p, 'w) store" where
  "api_poll s req =
     (case req of
        None \<Rightarrow> (BadBody, s)
      | Some key \<Rightarrow>
          if key = '''' then (FieldMissing ''identityKey is required'', s)
          else case Collect key (stRelay s) of (out, r) \<Rightarrow> (Requests out, s\<lparr>stRelay := r\<rparr>))"

record reply_request =
  RrIdentityKey :: string
  RrNonce :: string
  RrBody :: bytes
  RrError :: string

definition api_reply_in :: "('s, 'k, 'p, 'w) store \<Rightarrow> reply_request option \<Rightarrow> api_reply \<times> ('s, 'k, 'p, 'w) store" where
  "api_reply_in s req =
     (case req of
        None \<Rightarrow> (BadBody, s)
      | Some q \<Rightarrow>
          if RrIdentityKey q = '''' \<or> RrNonce q = '''' then (FieldMissing ''identityKey and nonce are required'', s)
          else case Deliver (RrIdentityKey q) (RrNonce q) (RrBody q) (RrError q) (stRelay s) of
                 (Some e, r) \<Rightarrow> (RelayConflict e, s\<lparr>stRelay := r\<rparr>)
               | (None, r) \<Rightarrow> (Accepted, s\<lparr>stRelay := r\<rparr>))"

definition api_live :: "('s, 'k, 'p, 'w) store \<Rightarrow> int \<Rightarrow> string \<Rightarrow> api_reply" where
  "api_live s now key =
     (case stLive s of
        None \<Rightarrow> NoPlayableTable
      | Some l \<Rightarrow> let seat = Live_SeatOf l key in LiveState seat (View l now seat) (LegalFor l seat) (ltDealerless l) (Winners l))"

text \<open>The seat of a spectator's link is \<open>None\<close> where the query has none or it is no number.\<close>

definition api_table :: "('s, 'k, 'p, 'w) store \<Rightarrow> string \<Rightarrow> int option \<Rightarrow> api_reply" where
  "api_table s tid seat =
     (if tid = '''' then FieldMissing ''id is required''
      else case Store_Table s tid (case seat of None \<Rightarrow> -1 | Some i \<Rightarrow> i) of
             Inl e \<Rightarrow> TableUnknown e
           | Inr v \<Rightarrow> OneTable v)"

definition api_tables :: "('s, 'k, 'p, 'w) store \<Rightarrow> api_reply" where
  "api_tables s = AllTables (Tables s)"

end
