(* ===== verification/Pot_Props.thy ===== *)
theory Pot_Props
  imports Pot_Manager
begin

text \<open>
  What the pot manager promises the seats: the refund they hold is always for the balances of the last hand it accepted, its lock
  height goes down by a fixed step and the ladder of refunds has a fixed number of rungs, a settlement carries one verified
  signature of every seat, and what a seat is told to expect is what the settlement derives.
\<close>

section \<open>Acts\<close>

lemma and_then_Inr:
  assumes "and_then m f w = (w', Inr y)"
  obtains w1 x where "m w = (w1, Inr x)" "f x w1 = (w', Inr y)"
  using assms by (auto simp: and_then_def split: prod.splits sum.splits)

lemma otherwise_Inr: "otherwise h m w = (w', Inr x) \<longleftrightarrow> m w = (w', Inr x)"
  by (auto simp: otherwise_def split: prod.splits sum.splits)

lemma give_Inr: "give r w = (w', Inr x) \<longleftrightarrow> w' = w \<and> r = Inr x"
  by (auto simp: give_def)

lemmas act_simps = otherwise_Inr give_Inr

text \<open>A loop that adds one result for each element, each with a property of its element.\<close>

lemma for_each_collects:
  assumes "for_each f xs ys w = (w', Inr zs)"
    and "\<And>x ys w w' zs. f x ys w = (w', Inr zs) \<Longrightarrow> \<exists>y. zs = ys @ [y] \<and> P x y"
  shows "\<exists>rs. zs = ys @ rs \<and> list_all2 P xs rs"
  using assms(1)
proof (induction xs arbitrary: ys w)
  case (Cons x xs)
  then obtain w1 ys1 where f: "f x ys w = (w1, Inr ys1)" and r: "for_each f xs ys1 w1 = (w', Inr zs)"
    by (auto split: prod.splits sum.splits)
  from assms(2) [OF f] obtain y where "ys1 = ys @ [y]" "P x y" by blast
  with Cons.IH [OF r] show ?case by (metis append.assoc append_Cons append_Nil list.rel_intros(2))
qed simp

section \<open>Signatures\<close>

definition signed_by ::
  "('s, 'k, 'p, 'w) pot_lib \<Rightarrow> 's transaction \<Rightarrow> int \<Rightarrow> agent_endpoint \<Rightarrow> signature \<Rightarrow> bool" where
  "signed_by lib tx inputIndex s sig \<longleftrightarrow>
     (\<exists>pub. PublicKeyFromString lib (EpIdentityKey s) = Some pub \<and> VerifySignature (pot_signer lib) tx inputIndex sig (Some pub) = None)"

lemma ask_signature_signed:
  assumes "ask_signature lib co m params tx i s sigs w = (w', Inr sigs')"
  shows "\<exists>sig. sigs' = sigs @ [sig] \<and> signed_by lib tx i s sig"
  using assms unfolding ask_signature_def signed_by_def
  by (elim and_then_Inr) (auto simp: act_simps Let_def split: option.splits)

lemma ask_all_signed:
  assumes "ask_all lib coord m params tx i seats w = (w', Inr sigs)"
  shows "list_all2 (signed_by lib tx i) seats sigs"
proof -
  from assms obtain co where "for_each (ask_signature lib co m params tx i) seats [] w = (w', Inr sigs)"
    by (auto simp: ask_all_def give_def split: option.splits)
  from for_each_collects [OF this ask_signature_signed] show ?thesis by simp
qed

section \<open>The refund of the current balances\<close>

definition refund_args_of :: "('s, 'k) live_pot \<Rightarrow> ('k \<times> u64) list \<Rightarrow> u32 \<Rightarrow> ('s, 'k) refund_args" where
  "refund_args_of lp shares lockHeight =
     \<lparr>RPot = lpPot lp, RRecipient = None, RSatoshis = 0,
      RRecipients = map (\<lambda>(k, v). \<lparr>OutRecipient = Some k, OutSatoshis = v\<rparr>) shares, RLockHeight = lockHeight, RFee = refundFee\<rparr>"

text \<open>
  The refund on record is the one built for the balances on record, signed by every seat, and it satisfies the pot's script; it
  matures at the height on record.
\<close>

definition refund_current :: "('s, 'k, 'p, 'w) pot_lib \<Rightarrow> agent_endpoint list \<Rightarrow> ('s, 'k) live_pot \<Rightarrow> bool" where
  "refund_current lib seats lp \<longleftrightarrow>
     (\<exists>shares built sigs unlock tx. funded_seats (lpSeats lp) (lpBalances lp) 0 seats = Some shares \<and> shares \<noteq> []
        \<and> buildSharedRefund (PotSdk lib) (refund_args_of lp shares (lpLockHeight lp)) = Inr built \<and> LockTime built = lpLockHeight lp
        \<and> list_all2 (signed_by lib built 0) seats sigs \<and> Assemble (PotSdk lib) sigs (int (length seats)) = Inr unlock
        \<and> put_unlock unlock 0 (Some built) = Some tx \<and> lpRefund lp = Some tx
        \<and> VerifyScript (pot_signer lib) (Some tx) 0 (PotScriptOf (lpPot lp)) (PotValue (lpPot lp)) = None)"

lemma built_lock: "buildSharedRefund sdk args = Inr tx \<Longrightarrow> LockTime tx = RLockHeight args"
  by (auto simp: buildSharedRefund_def split: if_splits sum.splits option.splits prod.splits)

lemma resignRefund_Inr:
  assumes "resignRefund lib coord sid lp seats h w = (w', Inr lp')"
  shows "refund_current lib seats lp' \<and> (\<exists>tx. lp' = lp\<lparr>lpRefund := Some tx, lpLockHeight := h\<rparr>)"
proof -
  from assms obtain shares where sh: "funded_seats (lpSeats lp) (lpBalances lp) 0 seats = Some shares" "shares \<noteq> []"
    by (auto simp: resignRefund_def give_def split: option.splits if_splits)
  with assms obtain refund where built: "buildSharedRefund (PotSdk lib) (refund_args_of lp shares h) = Inr refund"
    by (auto simp: resignRefund_def give_def refund_args_of_def BuildRefund_def split: sum.splits)
  from assms sh built obtain sigs w1 where
    c: "collectSharedRefundSignatures lib coord sid refund 0 seats lp w = (w1, Inr sigs)"
    and r: "(case Assemble (PotSdk lib) sigs (int (length seats)) of
             Inl e \<Rightarrow> Inl (RefundUnassembled e)
           | Inr unlock \<Rightarrow>
               (case put_unlock unlock 0 (Some refund) of
                  None \<Rightarrow> Inl PotPanic
                | Some complete \<Rightarrow>
                    (case VerifyScript (pot_signer lib) (Some complete) 0 (PotScriptOf (lpPot lp)) (PotValue (lpPot lp)) of
                       Some e \<Rightarrow> Inl (RefundUnsatisfied e)
                     | None \<Rightarrow> Inr (lp\<lparr>lpRefund := Some complete, lpLockHeight := h\<rparr>)))) = Inr lp'"
    by (auto simp: resignRefund_def refund_args_of_def BuildRefund_def act_simps elim!: and_then_Inr)
  from c have "list_all2 (signed_by lib refund 0) seats sigs"
    by (auto simp: collectSharedRefundSignatures_def give_def split: if_splits option.splits dest: ask_all_signed)
  moreover have "LockTime refund = h" using built_lock [OF built] by (simp add: refund_args_of_def)
  moreover from r obtain unlock complete where "Assemble (PotSdk lib) sigs (int (length seats)) = Inr unlock"
    "put_unlock unlock 0 (Some refund) = Some complete" "lp' = lp\<lparr>lpRefund := Some complete, lpLockHeight := h\<rparr>"
    "VerifyScript (pot_signer lib) (Some complete) 0 (PotScriptOf (lpPot lp)) (PotValue (lpPot lp)) = None"
    by (auto split: sum.splits option.splits)
  ultimately show ?thesis using sh built unfolding refund_current_def
    by (intro conjI exI [of _ shares] exI [of _ refund] exI [of _ sigs] exI [of _ unlock] exI [of _ complete])
      (simp_all add: refund_args_of_def)
qed

lemma resign_errors:
  assumes "resignRefund lib co sid lp seats h w = (w', Inl e)"
  shows "e \<noteq> LadderExhausted x \<and> e \<noteq> BalancesNotPot y z"
proof (rule ccontr)
  assume "\<not> ?thesis"
  then have e: "e = LadderExhausted x \<or> e = BalancesNotPot y z" by simp
  from assms e obtain shares where sh: "funded_seats (lpSeats lp) (lpBalances lp) 0 seats = Some shares" "shares \<noteq> []"
    by (auto simp: resignRefund_def give_def split: option.splits if_splits)
  with assms e obtain refund where built: "BuildRefund (PotSdk lib) (refund_args_of lp shares h) = Inr refund"
    by (auto simp: resignRefund_def give_def refund_args_of_def split: sum.splits)
  obtain w1 r where c: "collectSharedRefundSignatures lib co sid refund 0 seats lp w = (w1, r)" by fastforce
  show False
    using assms sh built c e
    by (cases r) (auto simp: resignRefund_def refund_args_of_def and_then_def otherwise_def give_def split: sum.splits option.splits)
qed

lemma ApplyHand_cases:
  obtains (refused) e where "ApplyHand lib sid seats balances m w = (w, Some e, m)"
      "e = NoPotFor sid \<and> pmPots m sid = None
       \<or> (\<exists>lp. pmPots m sid = Some lp \<and> (e = BalancesNotPot (sum_list (map snd balances)) (PotValue (lpPot lp))
              \<and> sum_list (map snd balances) \<noteq> PotValue (lpPot lp)
            \<or> e = LadderExhausted (lpLockHeight lp) \<and> lpLockHeight lp - ladderStep \<le> lpFloorHeight lp))"
  | (unsigned) lp w' e where "pmPots m sid = Some lp" "sum_list (map snd balances) = PotValue (lpPot lp)"
      "lpFloorHeight lp < lpLockHeight lp - ladderStep" "\<forall>x y z. e \<noteq> LadderExhausted x \<and> e \<noteq> BalancesNotPot y z"
      "ApplyHand lib sid seats balances m w = (w', Some e, m\<lparr>pmPots := (pmPots m)(sid \<mapsto> lp\<lparr>lpBalances := balances\<rparr>), pmArmed := (pmArmed m)(sid := None)\<rparr>)"
  | (applied) lp w' tx lp' where "pmPots m sid = Some lp" "sum_list (map snd balances) = PotValue (lpPot lp)"
      "lpFloorHeight lp < lpLockHeight lp - ladderStep"
      "lp' = lp\<lparr>lpBalances := balances, lpRefund := Some tx, lpLockHeight := lpLockHeight lp - ladderStep\<rparr>" "refund_current lib seats lp'"
      "ApplyHand lib sid seats balances m w = (w', None, m\<lparr>pmPots := (pmPots m)(sid \<mapsto> lp'), pmArmed := (pmArmed m)(sid := None)\<rparr>)"
proof (cases "pmPots m sid")
  case None
  then show ?thesis by (intro refused [of "NoPotFor sid"]) (simp_all add: ApplyHand_def)
next
  case (Some lp)
  let ?lp = "lp\<lparr>lpBalances := balances\<rparr>" and ?h = "lpLockHeight lp - ladderStep"
  show ?thesis
  proof (cases "sum_list (map snd balances) \<noteq> PotValue (lpPot lp) \<or> ?h \<le> lpFloorHeight lp")
    case True
    show ?thesis
    proof (cases "sum_list (map snd balances) = PotValue (lpPot lp)")
      case False
      with Some show ?thesis
        by (intro refused [of "BalancesNotPot (sum_list (map snd balances)) (PotValue (lpPot lp))"]) (simp_all add: ApplyHand_def Let_def)
    next
      case eq: True
      with Some True show ?thesis by (intro refused [of "LadderExhausted (lpLockHeight lp)"]) (simp_all add: ApplyHand_def Let_def)
    qed
  next
    case False
    obtain w' r where r: "resignRefund lib (pmCoord m) sid ?lp seats ?h w = (w', r)" by fastforce
    show ?thesis
    proof (cases r)
      case (Inl e)
      with Some False r show ?thesis by (intro unsigned [of lp e w']) (auto simp: ApplyHand_def Let_def not_le dest: resign_errors)
    next
      case (Inr lp')
      from resignRefund_Inr [OF r [unfolded Inr]] obtain tx where
        lp': "refund_current lib seats lp'" "lp' = ?lp\<lparr>lpRefund := Some tx, lpLockHeight := ?h\<rparr>" by blast
      with Some False r Inr show ?thesis by (intro applied [of lp lp' tx w']) (simp_all add: ApplyHand_def Let_def not_le)
    qed
  qed
qed

lemma funded_pot_of:
  "FundPot sdk sg wallet args w = (w', Inr pot) \<Longrightarrow> PotValue pot = FundSatoshis args"
  by (auto simp: FundPot_def split: option.splits if_splits sum.splits prod.splits)

lemma OpenPot_Inr:
  assumes "OpenPot lib hid seats satoshis h m w = (w', Inr m')"
  obtains lp where "m' = m\<lparr>pmPots := (pmPots m)(hid \<mapsto> lp)\<rparr>" "PotValue (lpPot lp) = satoshis" "refund_current lib seats lp"
    "lpLockHeight lp = h + 144" "lpFloorHeight lp = h + 12" "2 \<le> length seats"
    "lpBalances lp = fold (\<lambda>s. AList.update (EpSeat s) (satoshis div of_nat (length seats))) seats []"
proof -
  from assms have n: "2 \<le> length seats" by (auto simp: OpenPot_def give_def split: if_splits)
  from assms obtain lp0 lp w1 w2 where r: "resignRefund lib (pmCoord m) hid lp0 seats (h + 144) w1 = (w2, Inr lp)"
    and lp0: "PotValue (lpPot lp0) = satoshis" "lpFloorHeight lp0 = h + 12" "m' = m\<lparr>pmPots := (pmPots m)(hid \<mapsto> lp)\<rparr>"
      "lpBalances lp0 = fold (\<lambda>s. AList.update (EpSeat s) (satoshis div of_nat (length seats))) seats []"
    by (auto simp: OpenPot_def act_simps Let_def give_def split: if_splits elim!: and_then_Inr dest!: funded_pot_of)
  from resignRefund_Inr [OF r] lp0 n show ?thesis by (intro that [of lp]) auto
qed

section \<open>Properties\<close>


text \<open>A session of hands whose results are all taken.\<close>

fun play_hands ::
  "('s, 'k, 'p, 'w) pot_lib \<Rightarrow> string \<Rightarrow> agent_endpoint list \<Rightarrow> seat_amounts list \<Rightarrow> ('s, 'k, 'p, 'w) pot_manager \<Rightarrow> 'w
     \<Rightarrow> ('w \<times> ('s, 'k, 'p, 'w) pot_manager) option" where
  "play_hands lib sid seats [] m w = Some (w, m)"
| "play_hands lib sid seats (b # bs) m w =
     (case ApplyHand lib sid seats b m w of (w', Some e, m') \<Rightarrow> None | (w', None, m') \<Rightarrow> play_hands lib sid seats bs m' w')"

lemma ladder_rung:
  assumes "unat h + 144 < 2 ^ 32" "k \<le> 32"
  shows "h + 144 - 4 * of_nat k - ladderStep \<le> h + (12 :: u32) \<longleftrightarrow> k = 32"
proof -
  have four: "unat (4 * of_nat k :: u32) = 4 * k"
    using assms(2) by (simp add: unat_word_ariths unat_of_nat)
  have up: "unat (h + 144) = unat h + 144" "unat (h + 12) = unat h + 12"
    using assms(1) by (simp_all add: unat_word_ariths)
  have "unat (h + 144 - 4 * of_nat k) = unat h + 144 - 4 * k"
    using up four assms(2) by (subst unat_sub) (simp_all add: word_le_nat_alt)
  then have "unat (h + 144 - 4 * of_nat k - ladderStep) = unat h + 144 - 4 * k - 4"
    using assms(2) by (subst unat_sub) (simp_all add: word_le_nat_alt ladderStep_def)
  then show ?thesis using assms(2) up by (simp add: word_le_nat_alt) linarith
qed

lemma play_hands_ladder:
  assumes "play_hands lib sid seats bs m w = Some (w', m')" "pmPots m sid = Some lp" "unat h + 144 < 2 ^ 32"
    and "lpLockHeight lp = h + 144 - 4 * of_nat k" "lpFloorHeight lp = h + 12" "k \<le> 32"
  shows "k + length bs \<le> 32 \<and> (\<exists>lp'. pmPots m' sid = Some lp' \<and> lpLockHeight lp' = h + 144 - 4 * of_nat (k + length bs)
           \<and> lpFloorHeight lp' = h + 12 \<and> lpPot lp' = lpPot lp)"
  using assms
proof (induction bs arbitrary: m w lp k)
  case (Cons b bs)
  from Cons.prems(1) obtain w1 m1 where a: "ApplyHand lib sid seats b m w = (w1, None, m1)"
    and r: "play_hands lib sid seats bs m1 w1 = Some (w', m')"
    by (auto split: prod.splits option.splits)
  from a show ?case
  proof (cases rule: ApplyHand_cases [of lib sid seats b m w])
    case (applied lp0 w2 tx lp')
    have lp0: "lp0 = lp" using applied(1) Cons.prems(2) by simp
    have "k \<noteq> 32" using ladder_rung [OF Cons.prems(3,6)] applied(3) Cons.prems(4,5) by (auto simp: lp0)
    then have k: "Suc k \<le> 32" using Cons.prems(6) by simp
    have "pmPots m1 sid = Some lp'" "lpLockHeight lp' = h + 144 - 4 * of_nat (Suc k)" "lpFloorHeight lp' = h + 12" "lpPot lp' = lpPot lp"
      using a applied Cons.prems(4,5) by (auto simp: lp0 ladderStep_def)
    from Cons.IH [OF r this(1) Cons.prems(3) this(2,3) k] this(4) show ?thesis by simp
  qed (use a in auto)
qed auto

text \<open>
  C33: the ladder of refunds has thirty-two rungs. In a session opened at a height that leaves room for the first lock, every hand taken
  lowers the refund's height by four; no more than 32 hands are taken, and the one after the 32nd is turned away whatever it
  pays, with everything as it was.
\<close>

theorem ladder_has_32_rungs:
  assumes "OpenPot lib sid seats satoshis h m0 w0 = (w1, Inr m1)" and "unat h + 144 < 2 ^ 32"
    and "play_hands lib sid seats bs m1 w1 = Some (w2, m2)"
  shows "length bs \<le> 32
     \<and> (\<exists>lp. pmPots m2 sid = Some lp \<and> lpLockHeight lp = h + 144 - 4 * of_nat (length bs) \<and> PotValue (lpPot lp) = satoshis)
     \<and> (sum_list (map snd b) = satoshis \<longrightarrow>
          (length bs = 32 \<longleftrightarrow> ApplyHand lib sid seats b m2 w2 = (w2, Some (LadderExhausted (h + 16)), m2)))"
proof -
  obtain lp0 where m1: "m1 = m0\<lparr>pmPots := (pmPots m0)(sid \<mapsto> lp0)\<rparr>"
    and o': "lpLockHeight lp0 = h + 144" "lpFloorHeight lp0 = h + 12" "PotValue (lpPot lp0) = satoshis"
    by (rule OpenPot_Inr [OF assms(1)])
  then have o: "pmPots m1 sid = Some lp0" "lpLockHeight lp0 = h + 144 - 4 * of_nat 0" "lpFloorHeight lp0 = h + 12" by simp_all
  from play_hands_ladder [OF assms(3) o(1) assms(2) o(2,3)] o' obtain lp where
    lp: "length bs \<le> 32" "pmPots m2 sid = Some lp" "lpLockHeight lp = h + 144 - 4 * of_nat (length bs)" "lpFloorHeight lp = h + 12"
      "PotValue (lpPot lp) = satoshis" by auto
  note rung = ladder_rung [OF assms(2) lp(1)]
  have "length bs = 32 \<longleftrightarrow> ApplyHand lib sid seats b m2 w2 = (w2, Some (LadderExhausted (h + 16)), m2)"
    if "sum_list (map snd b) = satoshis"
  proof (cases rule: ApplyHand_cases [of lib sid seats b m2 w2])
    case (refused e)
    with lp that rung show ?thesis by (auto simp: ladderStep_def)
  next
    case (unsigned lp' e w3)
    with lp rung show ?thesis by auto
  next
    case (applied lp' lp'' tx w3)
    with lp rung show ?thesis by auto
  qed
  with lp show ?thesis by blast
qed

section \<open>Settling\<close>

lemma settle_outputs_total:
  "settle_outputs i ps t outs = Inr (tot, outs') \<Longrightarrow> tot = t + sum_list (map PaySatoshis ps)"
proof (induction ps arbitrary: i t outs)
  case (Cons p ps)
  then obtain x where "settle_outputs (i + 1) ps (t + PaySatoshis p) (outs @ [\<lparr>ActScript = x, ActSatoshis = PaySatoshis p, ActBasket = ''''\<rparr>])
      = Inr (tot, outs')"
    by (auto split: option.splits)
  from Cons.IH [OF this] show ?case by (simp add: add.assoc)
qed simp

lemma BuildSettlement_pays:
  assumes "BuildSettlement sdk sg wallet args w = (w', Inr s)"
  shows "sum_list (map PaySatoshis (SetPayouts args)) \<le> PotValue (SetPot args)"
  using assms
  by (auto simp: BuildSettlement_def Let_def not_less dest!: settle_outputs_total split: option.splits if_splits sum.splits prod.splits)

definition settle_args_of ::
  "('s, 'k, 'p, 'w) pot_manager \<Rightarrow> string \<Rightarrow> agent_endpoint list \<Rightarrow> ('s, 'k) live_pot \<Rightarrow> ('s, 'k) payout list \<Rightarrow> ('s, 'k) settle_args" where
  "settle_args_of m hid seats lp ps =
     \<lparr>SetOriginator = pmOriginator m, SetPot = lpPot lp, SetPayouts = ps, SetSeats = int (length seats), SetDescription = ''settle hand '' @ hid\<rparr>"

text \<open>How far \<open>Pot_Settle\<close> gets: it stops before anything is built, the signatures are not all there, or it goes to \<open>Complete\<close>.\<close>

lemma Pot_Settle_cases:
  assumes "Pot_Settle lib hid seats payouts m w = (w', r)"
  obtains (early) e where "r = Inl e" "\<forall>e'. e \<noteq> SettlementUnsigned e'"
  | (signing) lp ps st tx w1 w2 sigs where "pmPots m hid = Some lp"
      "derive_settlement lib (pmTableKey m) hid (reserveFee payouts settlementFee) seats = Inr ps" "ps \<noteq> []"
      "BuildSettlement (PotSdk lib) (pot_signer lib) (pmWallet m) (settle_args_of m hid seats lp ps) w = (w1, Inr st)" "STx st = Some tx"
      "collectSignatures lib (pmCoord m) hid tx (SPotInput st) seats w1 = (w2, sigs)"
      "case sigs of
         Inl e \<Rightarrow> r = Inl (SettlementUnsigned e) \<and> (\<exists>aerr. Abandon (pmWallet m) (pmOriginator m) st w2 = (w', aerr))
       | Inr ss \<Rightarrow> (case Complete (PotSdk lib) (pot_signer lib) (pmWallet m) (pmOriginator m) st (lpPot lp) ss (int (length seats)) w2 of
           (w3, Inl e) \<Rightarrow> w' = w3 \<and> r = Inl (SettlementIncomplete e)
         | (w3, Inr txid) \<Rightarrow> w' = w3 \<and> r = Inr (txid, m\<lparr>pmPots := (pmPots m)(hid := None)\<rparr>))"
proof (cases "pmWallet m = None \<or> pmPots m hid = None")
  case True
  with assms have "r = Inl NoFundingWallet \<or> r = Inl (NoPotFor hid)" by (auto simp: Pot_Settle_def split: if_splits)
  then show ?thesis using early by auto
next
  case False
  then obtain lp where lp: "pmWallet m \<noteq> None" "pmPots m hid = Some lp" by auto
  show ?thesis
  proof (cases "derive_settlement lib (pmTableKey m) hid (reserveFee payouts settlementFee) seats")
    case (Inl e)
    have "e \<noteq> SettlementUnsigned e'" for e'
      using Inl by (induction seats) (auto split: if_splits option.splits sum.splits)
    with assms lp Inl show ?thesis by (intro early [of e]) (auto simp: Pot_Settle_def)
  next
    case ps: (Inr ps)
    obtain w1 b where b: "BuildSettlement (PotSdk lib) (pot_signer lib) (pmWallet m) (settle_args_of m hid seats lp ps) w = (w1, b)"
      by fastforce
    show ?thesis
    proof (cases "ps = [] \<or> isl b \<or> STx (projr b) = None")
      case True
      have "\<exists>e. r = Inl e \<and> (\<forall>e'. e \<noteq> SettlementUnsigned e')"
        using assms lp ps b [unfolded settle_args_of_def] True by (cases b) (auto simp: Pot_Settle_def split: if_splits)
      then show ?thesis using early by blast
    next
      case False
      then obtain st tx where st: "ps \<noteq> []" "b = Inr st" "STx st = Some tx" by (cases b) auto
      obtain w2 sigs where c: "collectSignatures lib (pmCoord m) hid tx (SPotInput st) seats w1 = (w2, sigs)" by fastforce
      show ?thesis
        by (rule signing [OF lp(2) ps st(1) b [unfolded st(2)] st(3) c])
          (use assms lp ps st b [unfolded settle_args_of_def] c in
            \<open>auto simp: Pot_Settle_def split: sum.splits prod.splits\<close>)
    qed
  qed
qed


section \<open>What a seat is told\<close>

definition told_alike :: "('s, 'k, 'p, 'w) pot_lib \<Rightarrow> ('s, 'k) payout \<Rightarrow> stake_payout \<Rightarrow> bool" where
  "told_alike lib p t \<longleftrightarrow> PayRecipient p = PublicKeyFromString lib (RpRecipientKey t) \<and> PaySatoshis p = RpSatoshis t
     \<and> base64 (Prefix p) = RpPrefix t \<and> base64 (Suffix p) = RpSuffix t"

lemma derived_as_told:
  "derive_settlement lib key hid payouts seats = Inr ps \<Longrightarrow>
     list_all2 (told_alike lib) ps (map (told_payout hid payouts) (filter (\<lambda>s. amount_at payouts (EpSeat s) \<noteq> 0) seats))"
proof (induction seats arbitrary: ps)
  case (Cons s ss)
  have keep: "DerivePayout sg k (Some p) = Inr q \<Longrightarrow> \<exists>l. q = p\<lparr>PayScript := Some l\<rparr>" for sg k p q
    by (auto simp: DerivePayout_def split: option.splits if_splits)
  from Cons show ?case
    by (auto simp: told_alike_def told_payout_def split: if_splits option.splits sum.splits dest!: keep)
qed simp

text \<open>
  C32: what a seat is told is what the settlement pays. Where the shares are visited in the same order, the payouts \<open>StakeFor\<close>
  describes are, one for one, those \<open>Pot_Settle\<close> derives: the same recipients, amounts, prefixes and suffixes, for the same pot.
\<close>

theorem told_stake_matches:
  assumes "StakeFor lib hid seat seats payouts m = Inr (Some info)" and "Pot_Settle lib hid seats payouts m w = (w', Inr (txid, m'))"
  shows "\<exists>lp ps. pmPots m hid = Some lp \<and> derive_settlement lib (pmTableKey m) hid (reserveFee payouts settlementFee) seats = Inr ps
     \<and> list_all2 (told_alike lib) ps (SiPayouts info)
     \<and> SiPotTxid info = PotTxid (lpPot lp) \<and> SiPotVout info = PotVout (lpPot lp) \<and> SiPotSatoshis info = PotValue (lpPot lp)"
  using assms(2)
proof (cases rule: Pot_Settle_cases)
  case (signing lp ps st tx w1 w2 sigs)
  with assms(1) derived_as_told [OF signing(2)] show ?thesis
    by (auto simp: StakeFor_def Let_def split: if_splits option.splits)
qed simp

section \<open>The reserved fee\<close>

lemma largest_payout_max:
  assumes "largest_payout ps l i = (l', i')"
  shows "l \<le> l' \<and> (\<forall>(s, a) \<in> set ps. a \<le> l') \<and> (i' = i \<and> l' = l \<or> l < l' \<and> (i', l') \<in> set ps)"
  using assms
proof (induction ps arbitrary: l i)
  case (Cons p ps)
  obtain s a where p: "p = (s, a)" by fastforce
  show ?case
  proof (cases "a > l")
    case True
    with Cons.prems Cons.IH [of a s] show ?thesis by (auto simp: p)
  next
    case False
    with Cons.prems Cons.IH [of l i] show ?thesis by (auto simp: p not_less)
  qed
qed simp

lemma largest_payout_from_0:
  assumes "largest_payout ps 0 (-1) = (l, i)" "\<forall>(s, a) \<in> set ps. 0 \<le> s"
  shows "i < 0 \<longleftrightarrow> (\<forall>(s, a) \<in> set ps. a = 0)" "0 \<le> i \<Longrightarrow> (i, l) \<in> set ps" "\<forall>(s, a) \<in> set ps. a \<le> l"
  using largest_payout_max [OF assms(1)] assms(2) by fastforce+

lemma update_as_map:
  "distinct (map fst xs) \<Longrightarrow> (i, a) \<in> set xs \<Longrightarrow> AList.update i v xs = map (\<lambda>(s, a). (s, if s = i then v else a)) xs"
proof (induction xs)
  case (Cons x xs)
  show ?case
  proof (cases "fst x = i")
    case True
    then have "i \<notin> fst ` set xs" using Cons.prems(1) by auto
    then have "map (\<lambda>(s, a). (s, if s = i then v else a)) xs = xs"
      by (intro map_idI) (force split: prod.split)
    with True show ?thesis by (cases x) simp
  next
    case False
    with Cons show ?thesis by (cases x) auto
  qed
qed simp

lemma reserveFee_cases [consumes 2, case_names none one]:
  assumes "distinct (map fst ps)" "\<forall>(s, a) \<in> set ps. 0 \<le> s"
  obtains (none) "\<forall>(s, a) \<in> set ps. a \<le> fee" "reserveFee ps fee = ps"
  | (one) i l where "(i, l) \<in> set ps" "fee < l" "\<forall>(s, a) \<in> set ps. a \<le> l"
      "reserveFee ps fee = (if fee = 0 then ps else map (\<lambda>(s, a). (s, if s = i then l - fee else a)) ps)"
proof -
  obtain l i where L: "largest_payout ps 0 (-1) = (l, i)" by fastforce
  note M = largest_payout_from_0 [OF L assms(2)]
  show ?thesis
  proof (cases "i < 0 \<or> l \<le> fee")
    case True
    have "\<forall>(s, a) \<in> set ps. a \<le> fee"
    proof (cases "i < 0")
      case True
      with M(1) show ?thesis by fastforce
    next
      case False
      with True M(3) show ?thesis by fastforce
    qed
    moreover have "reserveFee ps fee = ps" using True L by (simp add: reserveFee_def)
    ultimately show ?thesis by (rule none)
  next
    case False
    then have "(i, l) \<in> set ps" using M(2) by simp
    then show ?thesis using False M(3) L by (intro one [of i l]) (auto simp: reserveFee_def not_le)
  qed
qed

lemma reserveFee_perm:
  assumes d: "distinct (map fst ps)" "\<forall>(s, a) \<in> set ps. 0 \<le> s" and p: "mset other = mset ps"
    and top: "(i, l) \<in> set ps" "\<forall>(s, a) \<in> set ps. s \<noteq> i \<longrightarrow> a < l"
  shows "map_of (reserveFee other fee) = map_of (reserveFee ps fee)"
proof -
  have S: "set other = set ps" using p by (rule mset_eq_setD)
  have D: "distinct (map fst other)" using p d(1) by (metis distinct_count_atmost_1 mset_map set_map S)
  have d2: "\<forall>(s, a) \<in> set other. 0 \<le> s" using d(2) S by simp
  have unique: "j = i \<and> k = l" if "(j, k) \<in> set ps" "\<forall>(s, a) \<in> set ps. a \<le> k" for j k
  proof -
    have "l \<le> k" using that(2) top(1) by auto
    then have "j = i" using that(1) top(2) by fastforce
    moreover from this have "k = l" using that(1) top(1) d(1) by (metis eq_key_imp_eq_value)
    ultimately show ?thesis by simp
  qed
  have img: "map fst (map (\<lambda>(s, a). (s, f s a)) xs) = map fst xs" for f :: "int \<Rightarrow> u64 \<Rightarrow> u64" and xs
    by (simp add: comp_def case_prod_unfold)
  have "set (reserveFee other fee) = set (reserveFee ps fee) \<and> distinct (map fst (reserveFee other fee))
      \<and> distinct (map fst (reserveFee ps fee))"
    using d
  proof (cases rule: reserveFee_cases [where fee = fee])
    case none
    have "reserveFee other fee = other"
      using D d2
    proof (cases rule: reserveFee_cases [where fee = fee])
      case (one j k)
      with none(1) S not_le show ?thesis by fastforce
    qed
    with none(2) S D d show ?thesis by simp
  next
    case (one j k)
    with unique have jk: "j = i" "k = l" by simp_all
    have "reserveFee other fee = (if fee = 0 then other else map (\<lambda>(s, a). (s, if s = i then l - fee else a)) other)"
      using D d2
    proof (cases rule: reserveFee_cases [where fee = fee])
      case none
      then show ?thesis using one(1,2) S not_le by fastforce
    next
      case (one j k)
      then have "j = i" "k = l" using unique [of j k] S by simp_all
      with one(4) show ?thesis by blast
    qed
    with one(4) [unfolded jk] S D d img [of "\<lambda>s a. if s = i then l - fee else a"] show ?thesis
      by (simp only: set_map split: if_split) simp
  qed
  then show ?thesis by (simp add: map_of_inject_set)
qed

text \<open>
  the fee comes out of one share. With the seats' shares listed once each, \<open>reserveFee\<close> either leaves all of them alone, when none
  is above the fee, or takes exactly the fee from one seat with a largest share and leaves the rest; it never leaves a seat
  with nothing that had something. Where only one seat has the largest share, the order of the list does not matter.
\<close>

theorem fee_from_one_seat:
  assumes "distinct (map fst payouts)" and "\<forall>(s, a) \<in> set payouts. 0 \<le> s" and "0 < fee"
  shows "(if \<forall>(s, a) \<in> set payouts. a \<le> fee then reserveFee payouts fee = payouts
          else \<exists>i l. (i, l) \<in> set payouts \<and> fee < l \<and> (\<forall>(s, a) \<in> set payouts. a \<le> l)
            \<and> reserveFee payouts fee = AList.update i (l - fee) payouts \<and> 0 < l - fee)
     \<and> (\<forall>i l. (i, l) \<in> set payouts \<and> (\<forall>(s, a) \<in> set payouts. s \<noteq> i \<longrightarrow> a < l) \<longrightarrow>
          (\<forall>other. mset other = mset payouts \<longrightarrow> map_of (reserveFee other fee) = map_of (reserveFee payouts fee)))"
proof (rule conjI)
  show "if \<forall>(s, a) \<in> set payouts. a \<le> fee then reserveFee payouts fee = payouts
          else \<exists>i l. (i, l) \<in> set payouts \<and> fee < l \<and> (\<forall>(s, a) \<in> set payouts. a \<le> l)
            \<and> reserveFee payouts fee = AList.update i (l - fee) payouts \<and> 0 < l - fee"
    using assms(1,2)
  proof (cases rule: reserveFee_cases [where fee = fee])
    case (one i l)
    have "\<not> (\<forall>(s, a) \<in> set payouts. a \<le> fee)" using one(1,2) not_le by fastforce
    moreover have "0 < l - fee" using one(2) by (simp add: word_gt_0)
    moreover have "reserveFee payouts fee = AList.update i (l - fee) payouts"
      using one(4) assms(3) update_as_map [OF assms(1) one(1), of "l - fee"] by (simp add: word_gt_0)
    ultimately show ?thesis using one(1-3) by (simp only: if_False) blast
  qed simp
  show "\<forall>i l. (i, l) \<in> set payouts \<and> (\<forall>(s, a) \<in> set payouts. s \<noteq> i \<longrightarrow> a < l) \<longrightarrow>
          (\<forall>other. mset other = mset payouts \<longrightarrow> map_of (reserveFee other fee) = map_of (reserveFee payouts fee))"
    using reserveFee_perm [OF assms(1,2)] by blast
qed

text \<open>With two seats level, the one visited first pays the fee: the settlement and what a seat was told can part ways.\<close>

lemma tied_fee_depends_on_order:
  "reserveFee [(0, 5000), (1, 5000)] settlementFee = [(0, 3800), (1, 5000)]"
  "reserveFee [(1, 5000), (0, 5000)] settlementFee = [(1, 3800), (0, 5000)]"
  by code_simp+

section \<open>A sample session\<close>

text \<open>
  Two seats whose agents sign what they are asked to, one-byte keys, signatures that are the key, and a wallet that logs its calls.
\<close>

definition duo :: "agent_endpoint list" where
  "duo = [\<lparr>EpSeat = 0, EpIdentityKey = ''0'', EpURL = ''0''\<rparr>, \<lparr>EpSeat = 1, EpIdentityKey = ''1'', EpURL = ''1''\<rparr>]"

definition duo_script :: string where
  "duo_script = (case PotScript byte_sdk [Some 48, Some 49] of Inr s \<Rightarrow> s | Inl e \<Rightarrow> '''')"

definition duo_beef :: "bytes \<Rightarrow> string transaction option" where
  "duo_beef b = Some
     (if b = [] then \<lparr>Inputs = [], Outputs = [\<lparr>Satoshis = 10000, LockingScript = Some duo_script\<rparr>], LockTime = 0\<rparr>
      else \<lparr>Inputs = [\<lparr>SourceTXID = Some ''p'', SourceTxOutIndex = 0, SequenceNumber = 0, SourceTxOutput = None, UnlockingScript = None\<rparr>],
            Outputs = [], LockTime = 0\<rparr>)"

definition duo_reply :: "bytes \<Rightarrow> response option" where
  "duo_reply b =
     (case b of
        [] \<Rightarrow> None
      | k # n \<Rightarrow> Some \<lparr>RsVersion = Version, RsRequestNonce = map (char_of \<circ> unat) n, RsResult = [k], RsError = None,
                        RsIdentityKey = [char_of (unat k)], RsSignature = hex_encode [k]\<rparr>)"

definition duo_lib :: "(string, byte, byte, string list) pot_lib" where
  "duo_lib = \<lparr>AllForkID = 0x41, SigHash = (\<lambda>tx i fl. Some [1]), Sign = (\<lambda>k h. Some [k]), PubKey = (\<lambda>k. k),
     DERHex = (\<lambda>k. [char_of (unat k)]), ParseDER = Some, VerifySig = (\<lambda>s h k. s = [k]), Execute = (\<lambda>tx i out. True),
     KeyIDValid = (\<lambda>a b. True), LockForCounterparty = (\<lambda>k a b r. Some [char_of (unat r)]), ParseBEEF = duo_beef, ScriptFromHex = Some,
     PublicKeyFromString = (\<lambda>s. case s of [c] \<Rightarrow> Some (of_char c) | _ \<Rightarrow> None), Sum256 = (\<lambda>b. b),
     UnmarshalRequest = (\<lambda>b. None), MarshalResponse = (\<lambda>r. None), Render = (\<lambda>r. ''''),
     EncParams = (\<lambda>ps. Some []), EncRequest = (\<lambda>r. Some (bytes_of (RqNonce r))), DecResponse = duo_reply,
     RelayDo = (\<lambda>key nonce body w. (w, Inl ''no relay'')), HttpDo = (\<lambda>url body w. (w, Inr (bytes_of url @ body))),
     Entropy = (\<lambda>w. (w, Some [5], 1000)), DecCommitment = (\<lambda>b. None), DecDeck = (\<lambda>b. None), DecReveal = (\<lambda>b. None),
     DecCard = (\<lambda>b. None), DecOk = (\<lambda>b. None),
     DecSignature = (\<lambda>b. case b of [k] \<Rightarrow> Some (uint k - 48, hex_encode [k, 0x41]) | _ \<Rightarrow> None),
     PotSdk = byte_sdk, TxHex = (\<lambda>t. ''''), HexOfScript = (\<lambda>s. s), CallText = (\<lambda>e. '''')\<rparr>"

definition duo_manager :: "(string, byte, byte, string list) pot_manager" where
  "duo_manager = \<lparr>pmWallet = Some log_wallet, pmTableKey = 7, pmOriginator = ''poker'',
     pmCoord = Some \<lparr>coCaller = 7, coOriginator = ''poker'', coRelay = False\<rparr>, pmPots = Map.empty, pmArmed = Map.empty\<rparr>"

definition duo_sig :: "agent_endpoint \<Rightarrow> signature" where
  "duo_sig s = \<lparr>SigSeat = EpSeat s, SigKey = '''', DER = [of_char (hd (EpIdentityKey s)), 0x41]\<rparr>"

lemma duo_in: "s \<in> set duo \<longleftrightarrow> s = duo ! 0 \<or> s = duo ! 1"
  by (auto simp: duo_def)

lemma duo_digits:
  "char_of (48 :: nat) = CHR ''0''" "char_of (49 :: nat) = CHR ''1''" "char_of (53 :: nat) = CHR ''5''" "hex_encode [5] = ''05''"
  "map (char_of \<circ> unat \<circ> (of_char :: char \<Rightarrow> byte)) ''05'' = ''05''"
  by code_simp+

lemma duo_raw:
  assumes "s \<in> set duo"
  shows "raw_call (pot_calls duo_lib) co s m ps w = (w, Inr [of_char (hd (EpIdentityKey s))])"
  using assms
  by (auto simp: duo_in duo_def raw_call_def duo_lib_def coord_lib.defs key_lib.defs SignRequest_def NewNonce_def Let_def blank_request_def
      and_then_def give_def carry_def otherwise_def RelayURL_def read_reply_def duo_reply_def VerifyResponse_def bytes_of_def duo_digits)

lemma duo_asked:
  assumes "s \<in> set duo"
  shows "ask_signature duo_lib co m params tx i s sigs w = (w, Inr (sigs @ [duo_sig s]))"
proof -
  have "PublicKeyFromString duo_lib (EpIdentityKey s) = Some (of_char (hd (EpIdentityKey s)))"
    "uint (of_char (hd (EpIdentityKey s)) :: byte) - 48 = EpSeat s"
    using assms by (auto simp: duo_lib_def duo_in duo_def)
  moreover have "VerifySignature (pot_signer duo_lib) tx i (duo_sig s) (Some (of_char (hd (EpIdentityKey s)))) = None"
    by (simp add: VerifySignature_def duo_sig_def duo_lib_def signer.defs SigHashFlag_def)
  ultimately show ?thesis
    using assms
    by (simp add: ask_signature_def agent_call_def and_then_def otherwise_def give_def duo_raw
        duo_lib_def [THEN arg_cong [where f = DecSignature]] Let_def duo_sig_def)
qed

lemma duo_asks_all: "ask_all duo_lib (Some co) m params tx i duo w = (w, Inr (map duo_sig duo))"
proof -
  have "for_each (ask_signature duo_lib co m params tx i) xs sigs w = (w, Inr (sigs @ map duo_sig xs))" if "set xs \<subseteq> set duo" for xs sigs
    using that by (induction xs arbitrary: sigs) (auto simp: duo_asked)
  from this [of duo "[]"] show ?thesis by (simp add: ask_all_def)
qed

text \<open>With such agents re-signing and settling touch nothing outside, so what they give can be computed.\<close>

definition duo_resigned :: "(string, byte) live_pot \<Rightarrow> u32 \<Rightarrow> (string, byte) live_pot option" where
  "duo_resigned lp h =
     (case funded_seats (lpSeats lp) (lpBalances lp) 0 duo of
        None \<Rightarrow> None
      | Some shares \<Rightarrow>
     (case buildSharedRefund byte_sdk (refund_args_of lp shares h) of
        Inl e \<Rightarrow> None
      | Inr refund \<Rightarrow>
     (case Assemble byte_sdk (map duo_sig duo) 2 of
        Inl e \<Rightarrow> None
      | Inr unlock \<Rightarrow>
          (case put_unlock unlock 0 (Some refund) of
             None \<Rightarrow> None
           | Some t \<Rightarrow> if shares = [] then None else Some (lp\<lparr>lpRefund := Some t, lpLockHeight := h\<rparr>)))))"

lemma duo_resigns:
  assumes "duo_resigned lp h = Some lp'"
  shows "resignRefund duo_lib (Some co) sid lp duo h w = (w, Inr lp')"
proof -
  from assms obtain shares refund unlock t where
    c: "funded_seats (lpSeats lp) (lpBalances lp) 0 duo = Some shares" "shares \<noteq> []"
      "buildSharedRefund byte_sdk (refund_args_of lp shares h) = Inr refund" "Assemble byte_sdk (map duo_sig duo) 2 = Inr unlock"
      "put_unlock unlock 0 (Some refund) = Some t" "lp' = lp\<lparr>lpRefund := Some t, lpLockHeight := h\<rparr>"
    by (auto simp: duo_resigned_def split: option.splits sum.splits if_splits)
  have "PotScriptOf (lpPot lp) \<noteq> None" using c(3) by (auto simp: buildSharedRefund_def refund_args_of_def split: if_splits)
  then obtain sc where sc: "PotScriptOf (lpPot lp) = Some sc" by blast
  have n: "int (length duo) = 2" "PotSdk duo_lib = byte_sdk" by (simp_all add: duo_def duo_lib_def)
  have V: "VerifyScript (pot_signer duo_lib) (Some t) 0 (Some sc) v = None" for v
    using c(5) by (auto simp: VerifyScript_def put_unlock_def duo_lib_def signer.defs split: if_splits)
  have "collectSharedRefundSignatures duo_lib (Some co) sid refund 0 duo lp w = (w, Inr (map duo_sig duo))"
    by (simp add: collectSharedRefundSignatures_def pot_script_hex_def sc c(1) duo_asks_all)
  with c sc V n show ?thesis
    by (simp add: resignRefund_def BuildRefund_def refund_args_of_def and_then_def otherwise_def give_def)
qed

definition duo_pot :: "(string, byte) live_pot" where
  "duo_pot = \<lparr>lpPot = \<lparr>PotTxid = ''p'', PotVout = 0, PotScriptOf = Some duo_script, PotValue = 10000, PotBEEF = []\<rparr>, lpSeats = [48, 49],
     lpBalances = [(0, 5000), (1, 5000)], lpRefund = None, lpLockHeight = 944, lpFloorHeight = 812\<rparr>"

definition duo_signed :: "(string, byte) live_pot \<Rightarrow> u32 \<Rightarrow> (string, byte) live_pot" where
  "duo_signed lp h = (case duo_resigned lp h of Some lp' \<Rightarrow> lp' | None \<Rightarrow> lp)"

abbreviation duo_open :: "(string, byte, byte, string list) pot_manager" where
  "duo_open \<equiv> duo_manager\<lparr>pmPots := [''s'' \<mapsto> duo_signed duo_pot 944]\<rparr>"

lemma duo_signs: "duo_resigned duo_pot 944 = Some (duo_signed duo_pot 944)"
proof -
  have "duo_resigned duo_pot 944 \<noteq> None" by code_simp
  then show ?thesis by (auto simp: duo_signed_def)
qed

abbreviation duo_caller :: "byte coordinator" where
  "duo_caller \<equiv> \<lparr>coCaller = 7, coOriginator = ''poker'', coRelay = False\<rparr>"

lemma duo_funds:
  "FundPot byte_sdk (pot_signer duo_lib) (Some log_wallet)
      \<lparr>FundOriginator = ''poker'', FundSeats = [Some 48, Some 49], FundSatoshis = 10000, FundBasket = ''poker-pot'',
       FundDescription = ''fund the pot for hand '' @ hid\<rparr> w = (w @ [''create''], Inr (lpPot duo_pot))"
proof -
  have P: "PotScript byte_sdk [Some 48, Some 49] = Inr duo_script"
  proof -
    have "\<not> isl (PotScript byte_sdk [Some 48, Some 49])" by code_simp
    then show ?thesis unfolding duo_script_def by (cases "PotScript byte_sdk [Some 48, Some 49]") auto
  qed
  have "pays_script byte_sdk duo_script \<lparr>Satoshis = 10000, LockingScript = Some duo_script\<rparr>" by (simp add: pays_script_def)
  then show ?thesis
    by (simp add: FundPot_def P log_wallet_def duo_lib_def signer.defs duo_beef_def duo_pot_def)
qed

lemma duo_opens_any:
  "OpenPot duo_lib hid duo 10000 800 duo_manager w = (w @ [''create''], Inr (duo_manager\<lparr>pmPots := [hid \<mapsto> duo_signed duo_pot 944]\<rparr>))"
proof -
  have K: "seat_keys duo_lib duo = Inr [48, 49]" by (simp add: duo_def duo_lib_def)
  have P: "PotSdk duo_lib = byte_sdk" by (simp add: duo_lib_def)
  have "duo_pot = \<lparr>lpPot = lpPot duo_pot, lpSeats = [48, 49], lpBalances = [(0, 5000), (1, 5000)], lpRefund = None, lpLockHeight = 944, lpFloorHeight = 812\<rparr>"
    by (simp add: duo_pot_def)
  then show ?thesis
    using duo_resigns [OF duo_signs, of duo_caller hid "w @ [''create'']"] duo_funds [of hid w]
    by (simp add: OpenPot_def duo_manager_def and_then_def otherwise_def give_def K P Let_def) (simp add: duo_def)
qed

lemma duo_opens: "OpenPot duo_lib ''s'' duo 10000 800 duo_manager [] = ([''create''], Inr duo_open)"
  using duo_opens_any [of "''s''" "[]"] by simp

section \<open>Witnesses\<close>

definition duo_won :: seat_amounts where "duo_won = [(0, 4000), (1, 6000)]"

abbreviation duo_next :: "(string, byte) live_pot" where
  "duo_next \<equiv> duo_signed ((duo_signed duo_pot 944)\<lparr>lpBalances := duo_won\<rparr>) 940"

abbreviation duo_played :: "(string, byte, byte, string list) pot_manager" where
  "duo_played \<equiv> duo_manager\<lparr>pmPots := [''s'' \<mapsto> duo_next]\<rparr>"

lemma duo_heights:
  "lpLockHeight (duo_signed duo_pot 944) = 944" "lpFloorHeight (duo_signed duo_pot 944) = 812" "lpPot (duo_signed duo_pot 944) = lpPot duo_pot"
  by code_simp+

lemma duo_next_signs: "duo_resigned ((duo_signed duo_pot 944)\<lparr>lpBalances := duo_won\<rparr>) 940 = Some duo_next"
proof -
  have "duo_resigned ((duo_signed duo_pot 944)\<lparr>lpBalances := duo_won\<rparr>) 940 \<noteq> None" by code_simp
  then show ?thesis by (auto simp: duo_signed_def)
qed

lemma duo_plays: "ApplyHand duo_lib ''s'' duo duo_won duo_open w = (w, None, duo_played)"
  using duo_resigns [OF duo_next_signs, of "\<lparr>coCaller = 7, coOriginator = ''poker'', coRelay = False\<rparr>" "''s''" w]
  by (simp add: ApplyHand_def Let_def duo_heights duo_won_def ladderStep_def) (simp add: duo_pot_def duo_manager_def)


theorem ladder_has_32_rungs_witness:
  "\<exists>lp. pmPots duo_played ''s'' = Some lp \<and> lpLockHeight lp = 940 \<and> PotValue (lpPot lp) = 10000"
proof -
  have P: "play_hands duo_lib ''s'' duo [duo_won] duo_open [''create''] = Some ([''create''], duo_played)"
    by (simp add: duo_plays)
  show ?thesis using ladder_has_32_rungs [OF duo_opens _ P] by simp
qed

lemma duo_fee: "reserveFee duo_won settlementFee = [(0, 4000), (1, 4800)]"
  by code_simp

lemma duo_settles:
  "Pot_Settle duo_lib ''s'' duo duo_won duo_open [] = ([''create'', ''sign''], Inr (''txid'', duo_manager))"
proof -
  let ?lp = "duo_signed duo_pot 944"
  define ps :: "(string, byte) payout list" where "ps =
    [\<lparr>PayRecipient = Some 48, PaySatoshis = 4000, Prefix = bytes_of ''s'', Suffix = bytes_of (payout_suffix 0), PayScript = Some ''0''\<rparr>,
     \<lparr>PayRecipient = Some 49, PaySatoshis = 4800, Prefix = bytes_of ''s'', Suffix = bytes_of (payout_suffix 1), PayScript = Some ''1''\<rparr>]"
  have D: "derive_settlement duo_lib 7 ''s'' (reserveFee duo_won settlementFee) duo = Inr ps"
    by (simp add: duo_fee duo_def amount_at_def ps_def DerivePayout_def duo_lib_def signer.defs bytes_of_def payout_suffix_def duo_digits)
  have ne: "ps \<noteq> []" by (simp add: ps_def)
  define st where "st = (case BuildSettlement byte_sdk (pot_signer duo_lib) (Some log_wallet) (settle_args_of duo_manager ''s'' duo duo_pot ps) []
     of (w, Inr st) \<Rightarrow> st | _ \<Rightarrow> \<lparr>STx = None, SPotInput = 0, SReference = []\<rparr>)"
  have B: "BuildSettlement byte_sdk (pot_signer duo_lib) (Some log_wallet) (settle_args_of duo_manager ''s'' duo duo_pot ps) []
     = ([''create''], Inr st)"
  proof -
    have "fst (BuildSettlement byte_sdk (pot_signer duo_lib) (Some log_wallet) (settle_args_of duo_manager ''s'' duo duo_pot ps) []) = [''create'']
        \<and> \<not> isl (snd (BuildSettlement byte_sdk (pot_signer duo_lib) (Some log_wallet) (settle_args_of duo_manager ''s'' duo duo_pot ps) []))"
      unfolding ps_def by code_simp
    then show ?thesis unfolding st_def
      by (cases "BuildSettlement byte_sdk (pot_signer duo_lib) (Some log_wallet) (settle_args_of duo_manager ''s'' duo duo_pot ps) []";
          cases "snd (BuildSettlement byte_sdk (pot_signer duo_lib) (Some log_wallet) (settle_args_of duo_manager ''s'' duo duo_pot ps) [])") auto
  qed
  obtain tx where tx: "STx st = Some tx" using BuildSettlement_Inr [OF B] by blast
  have C: "Complete byte_sdk (pot_signer duo_lib) (Some log_wallet) ''poker'' st (lpPot duo_pot) (map duo_sig duo) 2 [''create'']
      = ([''create'', ''sign''], Inr ''txid'')"
    unfolding st_def ps_def by code_simp
  have m: "pmWallet duo_manager = Some log_wallet" "pmTableKey duo_manager = 7" "pmOriginator duo_manager = ''poker''"
    "pmCoord duo_manager = Some \<lparr>coCaller = 7, coOriginator = ''poker'', coRelay = False\<rparr>" "PotSdk duo_lib = byte_sdk" "int (length duo) = 2"
    "duo_manager\<lparr>pmPots := \<lambda>x. None\<rparr> = duo_manager"
    by (simp_all add: duo_manager_def duo_lib_def duo_def)
  show ?thesis
    using D ne B tx C
    by (simp add: Pot_Settle_def m settle_args_of_def collectSignatures_def duo_asks_all duo_heights)
qed


theorem told_stake_matches_witness:
  "\<exists>info (ps :: (string, byte) payout list). StakeFor duo_lib ''s'' 0 duo duo_won duo_open = Inr (Some info) \<and> list_all2 (told_alike duo_lib) ps (SiPayouts info)
     \<and> map RpSatoshis (SiPayouts info) = [4000, 4800]"
proof -
  have "PotScriptOf (lpPot duo_pot) = Some duo_script" "duo_won \<noteq> []" by (simp_all add: duo_pot_def duo_won_def)
  then obtain info where i: "StakeFor duo_lib ''s'' 0 duo duo_won duo_open = Inr (Some info)" "map RpSatoshis (SiPayouts info) = [4000, 4800]"
    by (simp add: StakeFor_def Let_def duo_heights pot_script_hex_def duo_fee)
      (simp add: duo_def told_payout_def amount_at_def)
  from told_stake_matches [OF i(1) duo_settles] obtain ps where "list_all2 (told_alike duo_lib) ps (SiPayouts info)" by auto
  with i show ?thesis by (intro exI conjI) auto
qed

theorem fee_from_one_seat_witness:
  "reserveFee duo_won settlementFee = AList.update 1 4800 duo_won \<and> map_of (reserveFee (rev duo_won) settlementFee) = map_of (reserveFee duo_won settlementFee)"
proof -
  have d: "distinct (map fst duo_won)" "\<forall>(s, a) \<in> set duo_won. 0 \<le> s" "0 < settlementFee"
    by (simp_all add: duo_won_def settlementFee_def)
  have "(1, 6000) \<in> set duo_won \<and> (\<forall>(s, a) \<in> set duo_won. s \<noteq> 1 \<longrightarrow> a < 6000)" by (simp add: duo_won_def)
  with fee_from_one_seat [OF d] have "map_of (reserveFee (rev duo_won) settlementFee) = map_of (reserveFee duo_won settlementFee)"
    by (metis mset_rev)
  moreover have "reserveFee duo_won settlementFee = AList.update 1 4800 duo_won" by code_simp
  ultimately show ?thesis by simp
qed

end
