(* ===== verification/Live_Props.thy ===== *)
theory Live_Props
  imports Web_Api Pot_Props Table_Props
begin

text \<open>
  What a live table guarantees over a whole session: its roster is a roster of the table service, the chips on it are always the
  buy-ins, a browser can act only for the seat its key holds and only when the engine offers the action, and what it is shown does
  not depend on the cards of the other seats.
\<close>

section \<open>The engine keeps the number of seats\<close>

lemma length_receive_seats: "length (Seats (snd (scoreAndPay st))) = length (Seats st)"
  by (simp add: scoreAndPay_def split: sum.split)

lemma length_settle: "length (Seats (snd (settle st))) = length (Seats st)"
  by (auto simp: settle_def finish_def Let_def length_receive_seats split: list.split)

lemma length_streets:
  shows "length (Seats (snd (nextStreet st))) = length (Seats st)"
    and "length (Seats (snd (finishStreetTransition st'))) = length (Seats st')"
proof (induction st and st' rule: nextStreet_finishStreetTransition.induct)
  case (1 st)
  obtain need nxt where s: "street_step (Street st) = (need, nxt)" by fastforce
  show ?case
    using 1 [OF _ refl refl s [symmetric, THEN sym, symmetric]] s
    by (subst nextStreet.simps) (auto simp: Let_def length_settle clear_street_def)
next
  case (2 st)
  then show ?case by (subst finishStreetTransition.simps) (auto simp: Let_def length_settle)
qed

lemma length_Apply: "length (Seats (snd (Apply st a))) = length (Seats st)"
proof -
  have set: "length (Seats (set_seat h i s)) = length (Seats h)" for h i s by (simp add: set_seat_def)
  have raise: "length (Seats h') = length (Seats h)" if "apply_raise h i to = Inr h'" for h i to h'
    using that by (auto simp: apply_raise_def Let_def set split: if_splits)
  have kind: "length (Seats h') = length (Seats h)" if "apply_kind h i k to = Inr h'" for h i k to h'
    using that raise by (cases k) (auto simp: Let_def set split: if_splits)
  have adv: "length (Seats (snd (advance h))) = length (Seats h)" for h
    by (simp add: advance_def length_settle length_streets)
  show ?thesis
    by (auto simp: Apply_def Let_def adv mark_acted_def set kind split: sum.split)
qed

lemma New_length: "New cfg = Inr st \<Longrightarrow> length (Seats st) = length (cfgStacks cfg)"
  by (auto simp: New_def Let_def postBlind_def split: if_splits option.splits prod.splits)

section \<open>The roster\<close>

text \<open>A live table's roster is that of an open table: taking a seat is the table service's \<open>Join\<close>, save that a key that holds a
  seat is given it again.\<close>

definition roster :: "('s, 'k, 'p, 'w) live_table \<Rightarrow> poker_table" where
  "roster l = \<lparr>tterms = ltTerms l, tphase = PhaseOpen, tseats = ltSeats l, byIdentity = ltSeatOf l, stallReason = '''', stalledSeat = -1\<rparr>"

lemma roster_simps [simp]:
  "tterms (roster l) = ltTerms l" "tseats (roster l) = ltSeats l" "byIdentity (roster l) = ltSeatOf l" "tphase (roster l) = PhaseOpen"
  by (simp_all add: roster_def)

lemma roster_cong:
  "ltTerms l' = ltTerms l \<Longrightarrow> ltSeats l' = ltSeats l \<Longrightarrow> ltSeatOf l' = ltSeatOf l \<Longrightarrow> roster l' = roster l"
  by (simp add: roster_def)

lemma Live_Join_cases:
  obtains (same) "snd (Live_Join l now k) = l"
  | (seated) so ss where "Live_Join l now k = (Inr (length (ltSeats l)), l\<lparr>ltSeatOf := so, ltSeats := ss\<rparr>)"
    "roster (l\<lparr>ltSeatOf := so, ltSeats := ss\<rparr>) = snd (Join (roster l) now k)" "ltHand l = None"
    "int (length (ltSeats l)) < TermsSeats (ltTerms l)" "length ss = length (ltSeats l) + 1"
proof (cases "norm_key k = '''' \<or> ltSeatOf l (norm_key k) \<noteq> None \<or> int (length (ltSeats l)) \<ge> TermsSeats (ltTerms l) \<or> ltHand l \<noteq> None")
  case True
  then have "snd (Live_Join l now k) = l" by (auto simp: Live_Join_def Let_def split: option.split)
  then show ?thesis by (rule same)
next
  case False
  then show ?thesis by (intro seated) (auto simp: Live_Join_def Join_def Let_def roster_def)
qed

lemma roster_update:
  assumes "roster_ok (roster l)" and "seat < length (ltSeats l)"
    and f: "TIndex (f (ltSeats l ! seat)) = TIndex (ltSeats l ! seat)" "IdentityKey (f (ltSeats l ! seat)) = IdentityKey (ltSeats l ! seat)"
      "Funded (f (ltSeats l ! seat)) \<Longrightarrow> RefundHeld (f (ltSeats l ! seat))"
    and "ltTerms l' = ltTerms l" "ltSeatOf l' = ltSeatOf l" "ltSeats l' = (ltSeats l)[seat := f (ltSeats l ! seat)]"
  shows "roster_ok (roster l')"
proof -
  have "roster l' = update_seat (roster l) (int seat) f" using assms by (simp add: roster_def update_seat_def)
  then show ?thesis using roster_ok_update [of "roster l" "int seat" f] assms by (simp add: seat_exists_def)
qed

section \<open>The session invariant\<close>

definition full :: "('s, 'k, 'p, 'w) live_table \<Rightarrow> bool" where
  "full l \<longleftrightarrow> int (length (ltSeats l)) = TermsSeats (ltTerms l)"

definition buy_ins :: "('s, 'k, 'p, 'w) live_table \<Rightarrow> int" where
  "buy_ins l = int (length (ltSeats l)) * int64_of (BuyInSatoshis (ltTerms l))"

definition pot_total :: "('s, 'k, 'p, 'w) live_table \<Rightarrow> u64" where
  "pot_total l = BuyInSatoshis (ltTerms l) * of_nat (length (ltSeats l))"

text \<open>
  Once chips are out the table is full, the stacks carried between hands and the chips of the hand in play add up to the buy-ins, and
  the session's pot holds their sum.
\<close>

definition chips_ok :: "('s, 'k, 'p, 'w) live_table \<Rightarrow> bool" where
  "chips_ok l \<longleftrightarrow>
     (\<forall>xs. ltStacks l = Some xs \<longrightarrow> length xs = length (ltSeats l) \<and> sum_list xs = buy_ins l)
   \<and> (\<forall>st. ltHand l = Some st \<longrightarrow> wf st \<and> chips st = buy_ins l \<and> length (Seats st) = length (ltSeats l))"

definition pots_ok :: "('s, 'k, 'p, 'w) live_table \<Rightarrow> bool" where
  "pots_ok l \<longleftrightarrow> (\<forall>m. ltPots l = Some m \<longrightarrow> pmArmed m '''' = None
     \<and> (\<forall>lp. ltOpenPotHand l \<noteq> '''' \<longrightarrow> pmPots m (ltOpenPotHand l) = Some lp \<longrightarrow> PotValue (lpPot lp) = pot_total l))"

definition live_ok :: "('s, 'k, 'p, 'w) live_table \<Rightarrow> bool" where
  "live_ok l \<longleftrightarrow> roster_ok (roster l) \<and> chips_ok l \<and> pots_ok l
     \<and> (ltStacks l \<noteq> None \<or> ltHand l \<noteq> None \<or> ltReadyToStart l \<or> ltOpenPotHand l \<noteq> '''' \<longrightarrow> full l)
     \<and> 0 \<le> ltButton l \<and> ltButton l < max 1 (int (length (ltSeats l)))"

lemmas live_ok_defs = live_ok_def chips_ok_def pots_ok_def full_def buy_ins_def pot_total_def

lemmas live_ok_parts = live_ok_def chips_ok_def pots_ok_def buy_ins_def pot_total_def

lemma full_upd [simp]:
  "full (l\<lparr>ltHand := h\<rparr>) = full l" "full (l\<lparr>ltStacks := xs\<rparr>) = full l" "full (l\<lparr>ltMoney := mo\<rparr>) = full l"
  "full (l\<lparr>ltHandNo := n\<rparr>) = full l" "full (l\<lparr>ltButton := b\<rparr>) = full l"
  "full (l\<lparr>ltReadyToStart := r\<rparr>) = full l" "full (l\<lparr>ltOpenPotHand := s\<rparr>) = full l" "full (l\<lparr>ltPots := p\<rparr>) = full l"
  "full (l\<lparr>ltSettlementTxID := s\<rparr>) = full l" "full (l\<lparr>ltSessionID := s\<rparr>) = full l"
  by (simp_all add: full_def)

lemma pot_total_upd [simp]: "pot_total (l\<lparr>ltSessionID := s\<rparr>) = pot_total l"
  by (simp add: pot_total_def)

lemma live_ok_cong:
  assumes "ltTerms l' = ltTerms l" "ltSeats l' = ltSeats l" "ltSeatOf l' = ltSeatOf l" "ltHand l' = ltHand l" "ltStacks l' = ltStacks l"
    "ltReadyToStart l' = ltReadyToStart l" "ltOpenPotHand l' = ltOpenPotHand l" "ltButton l' = ltButton l" "ltPots l' = ltPots l"
  shows "live_ok l' = live_ok l"
  using assms by (simp add: live_ok_defs roster_def)

lemma live_ok_seats:
  assumes "live_ok l" "roster_ok (roster l')" "length (ltSeats l') = length (ltSeats l)" "ltTerms l' = ltTerms l" "ltHand l' = ltHand l"
    "ltStacks l' = ltStacks l" "ltReadyToStart l' = ltReadyToStart l" "ltOpenPotHand l' = ltOpenPotHand l" "ltButton l' = ltButton l"
    "ltPots l' = ltPots l"
  shows "live_ok l'"
proof -
  have "ltSeats l' = [] \<longleftrightarrow> ltSeats l = []" using assms(3) by (metis length_0_conv)
  then show ?thesis using assms by (simp add: live_ok_defs)
qed

lemma seat_of_less: "live_ok l \<Longrightarrow> ltSeatOf l k = Some i \<Longrightarrow> i < length (ltSeats l)"
  by (simp add: live_ok_def roster_ok_def)

lemma live_ok_update:
  assumes "live_ok l" "ltSeatOf l k = Some i"
    and f: "TIndex (f (ltSeats l ! i)) = TIndex (ltSeats l ! i)" "IdentityKey (f (ltSeats l ! i)) = IdentityKey (ltSeats l ! i)"
      "Funded (f (ltSeats l ! i)) \<Longrightarrow> RefundHeld (f (ltSeats l ! i))"
  shows "live_ok (l\<lparr>ltSeats := (ltSeats l)[i := f (ltSeats l ! i)]\<rparr>)"
proof -
  have r: "roster_ok (roster l)" using assms(1) by (simp add: live_ok_def)
  have "roster_ok (roster (l\<lparr>ltSeats := (ltSeats l)[i := f (ltSeats l ! i)]\<rparr>))"
    by (rule roster_update [where f = f, OF r seat_of_less [OF assms(1,2)] f]) simp_all
  then show ?thesis by (rule live_ok_seats [OF assms(1)]) simp_all
qed

section \<open>Every operation keeps it\<close>

lemma live_ok_Join:
  assumes "live_ok l"
  shows "live_ok (snd (Live_Join l now k))"
proof (cases rule: Live_Join_cases [of l now k])
  case (seated so ss)
  have "roster_ok (roster (l\<lparr>ltSeatOf := so, ltSeats := ss\<rparr>))"
    using seated(2) roster_ok_Join [of "roster l"] assms by (simp add: live_ok_def)
  moreover have "ltStacks l = None" "\<not> ltReadyToStart l" "ltOpenPotHand l = ''''" "ltHand l = None"
    using assms seated(3,4) by (auto simp: live_ok_def full_def)
  moreover have "0 \<le> ltButton l" "ltButton l < max 1 (int (length (ltSeats l)) + 1)" using assms by (auto simp: live_ok_def)
  moreover have "pmArmed m '''' = None" if "ltPots l = Some m" for m using assms that by (simp add: live_ok_def pots_ok_def)
  ultimately show ?thesis using seated(1,5) by (simp add: live_ok_def chips_ok_def pots_ok_def)
qed (use assms in simp)

lemma live_ok_Register: "live_ok l \<Longrightarrow> live_ok (snd (RegisterAgent l k url))"
  by (simp add: RegisterAgent_def Let_def) (simp add: live_ok_cong [of "l\<lparr>ltAgentURL := _\<rparr>" l])

lemma carried_ok:
  assumes "live_ok l"
  shows "length (carried_stacks l) = length (ltSeats l)" "sum_list (carried_stacks l) = buy_ins l"
  using assms by (auto simp: carried_stacks_def live_ok_def chips_ok_def buy_ins_def sum_list_replicate split: option.split)

lemma live_ok_start:
  assumes "live_ok l" "full l"
  shows "live_ok (snd (start_dealt deal l))"
proof -
  obtain d dealerless hole where deal: "deal = (d, dealerless, hole)" by (cases deal)
  show ?thesis
  proof (cases "New (deal_config l d)")
    case (Inl e)
    then show ?thesis using assms(1) by (simp add: start_dealt_def deal)
  next
    case (Inr st)
    have "wf st" "chips st = buy_ins l" "length (Seats st) = length (ltSeats l)"
      using New_wf(1,2) [OF Inr] New_length [OF Inr] carried_ok [OF assms(1)] by (simp_all add: deal_config_def)
    with Inr assms show ?thesis
      by (auto simp: start_dealt_def deal live_ok_defs roster_def)
  qed
qed

lemma live_ok_deal:
  assumes "live_ok l" "full l"
  shows "live_ok (snd (snd (dealLocked lib l w)))"
proof -
  let ?l = "l\<lparr>ltStacks := Some (carried_stacks l)\<rparr>"
  have "live_ok ?l" using assms carried_ok [OF assms(1)] by (simp add: live_ok_defs roster_def)
  moreover have "full ?l" using assms(2) by (simp add: full_def)
  ultimately show ?thesis
    using live_ok_start [of ?l] by (simp add: dealLocked_def Let_def split: prod.split sum.split)
qed

lemma live_ok_Ready:
  assumes "live_ok l"
  shows "live_ok (snd (snd (Ready lib now k l w)))"
proof (cases "ltSeatOf l (norm_key k)")
  case (Some seat)
  have m: "live_ok (mark_ready seat l)"
    unfolding mark_ready_def by (rule live_ok_update [OF assms Some]) simp_all
  have money: "live_ok (mark_ready seat l\<lparr>ltMoney := mo\<rparr>)" for mo
    using m by (simp add: live_ok_cong [of "mark_ready seat l\<lparr>ltMoney := mo\<rparr>" "mark_ready seat l"])
  have full: "full (mark_ready seat l\<lparr>ltMoney := mo\<rparr>)"
    if "\<not> int (length (ltSeats (mark_ready seat l))) < TermsSeats (ltTerms (mark_ready seat l))" for mo
    using m that by (simp add: full_def live_ok_def roster_ok_def)
  have ready: "live_ok (mark_ready seat l\<lparr>ltMoney := mo, ltReadyToStart := True\<rparr>)"
    if "\<not> int (length (ltSeats (mark_ready seat l))) < TermsSeats (ltTerms (mark_ready seat l))" for mo
    using money [of mo] full [OF that, of mo] by (simp add: live_ok_defs roster_def)
  show ?thesis
    using Some money full ready
    by (auto simp: Ready_def Let_def live_ok_deal split: prod.split option.split)
qed (simp add: Ready_def assms)

lemma Apply_keeps:
  assumes "wf st"
  shows "wf (snd (Apply st a))" "chips (snd (Apply st a)) = chips st"
    "fst (Apply st a) = None \<Longrightarrow> Done (snd (Apply st a)) \<Longrightarrow> Pot (snd (Apply st a)) = 0"
  using Apply_delivers [OF assms, of a] Apply_rejects [of st a] assms
  by (cases "accepts st a"; simp add: delivers_def)+

lemma live_ok_hand:
  assumes "live_ok l" "ltHand l = Some st" "wf st'" "chips st' = chips st" "length (Seats st') = length (Seats st)"
  shows "live_ok (l\<lparr>ltHand := Some st'\<rparr>)"
  using assms by (simp add: live_ok_parts roster_def)

lemma live_ok_finish:
  assumes "live_ok l" "ltHand l = Some st" "Pot st = 0"
  shows "live_ok (finishHandLocked st (l\<lparr>ltMoney := mo\<rparr>))"
proof -
  have "sum_list (map Stack (Seats st)) = buy_ins l" using assms by (auto simp: live_ok_def chips_ok_def chips_def)
  moreover have "(ltButton l + 1) mod int (length (ltSeats l)) < max 1 (int (length (ltSeats l)))" if "ltSeats l \<noteq> []"
    using that by (intro less_max_iff_disj [THEN iffD2] disjI2) simp
  ultimately show ?thesis
    using assms by (auto simp: live_ok_parts finishHandLocked_def roster_def)
qed

lemma live_ok_Act:
  assumes "live_ok l"
  shows "live_ok (snd (Live_Act l now k act to))"
proof (cases "ltSeatOf l (norm_key k)")
  case s: (Some seat)
  show ?thesis
  proof (cases "ltHand l")
    case h: (Some st)
    have w: "wf st" using assms h by (simp add: live_ok_def chips_ok_def)
    have keep: "live_ok (l\<lparr>ltHand := Some (snd (Apply st a))\<rparr>)" for a
      using live_ok_hand [OF assms h] Apply_keeps [OF w, of a] length_Apply by simp
    have touched: "live_ok (touch seat now (l\<lparr>ltHand := Some (snd (Apply st a))\<rparr>))" for a
      unfolding touch_def by (rule live_ok_update [OF keep, of _ "norm_key k"])
        (use s assms seat_of_less in \<open>auto simp: live_ok_def roster_ok_def\<close>)
    have over: "live_ok (finishHandLocked (snd (Apply st a)) (touch seat now (l\<lparr>ltHand := Some (snd (Apply st a))\<rparr>)\<lparr>ltMoney := mo\<rparr>))"
      if "fst (Apply st a) = None" "Done (snd (Apply st a))" for a mo
      by (rule live_ok_finish [OF touched]) (use Apply_keeps(3) [OF w that] in \<open>simp_all add: touch_def\<close>)
    show ?thesis
      using assms s h keep touched over
      by (auto simp: Live_Act_def Let_def split: sum.split prod.split option.split)
        (metis fst_conv snd_conv)+
  qed (simp add: Live_Act_def s assms)
qed (simp add: Live_Act_def assms)

lemma HandOver_full: "live_ok l \<Longrightarrow> HandOver l \<Longrightarrow> full l"
  by (auto simp: live_ok_def HandOver_def split: option.splits)

lemma live_ok_clear: "live_ok l \<Longrightarrow> live_ok (clear_hand now l)"
  by (auto simp: live_ok_defs clear_hand_def roster_def)

lemma full_clear [simp]: "full (clear_hand now l) = full l"
  by (simp add: full_def clear_hand_def)

lemma live_ok_Next:
  assumes "live_ok l"
  shows "live_ok (snd (snd (NextHand lib now l w)))"
  using assms live_ok_deal [of "clear_hand now l" lib w] live_ok_clear [of l now] HandOver_full [of l]
  by (auto simp: NextHand_def split: prod.split option.split)

lemma live_ok_Prepare:
  assumes "live_ok l"
  shows "live_ok (snd (PrepareNextHand l now))"
proof (cases "HandOver l \<and> \<not> session_over l")
  case True
  with HandOver_full [OF assms] live_ok_clear [OF assms, of now] show ?thesis
    by (auto simp: PrepareNextHand_def live_ok_parts roster_def)
qed (use assms in \<open>auto simp: PrepareNextHand_def\<close>)

lemma live_ok_SitOut: "live_ok l \<Longrightarrow> live_ok (snd (SitOut l k))"
  by (auto simp: SitOut_def live_ok_cong [of "l\<lparr>ltSittingOut := _\<rparr>" l] split: option.split)

lemma live_ok_recordStall: "live_ok l \<Longrightarrow> live_ok (recordStall reason l)"
  by (auto simp: recordStall_def live_ok_defs roster_def)

lemma live_ok_Stall: "live_ok l \<Longrightarrow> live_ok (snd (Live_Stall l now seat reason))"
  by (auto simp: Live_Stall_def live_ok_defs roster_def split: prod.split)

lemma live_ok_pots:
  assumes "live_ok l" "\<And>m. ltPots l = Some m \<Longrightarrow> pmArmed m' '''' = None"
    and "\<And>m lp. ltPots l = Some m \<Longrightarrow> pmPots m' (ltOpenPotHand l) = Some lp \<Longrightarrow>
        \<exists>lp0. pmPots m (ltOpenPotHand l) = Some lp0 \<and> lpPot lp = lpPot lp0"
    and "ltPots l \<noteq> None"
  shows "live_ok (l\<lparr>ltPots := Some m'\<rparr>)"
proof -
  obtain m where m: "ltPots l = Some m" using assms(4) by auto
  have "PotValue (lpPot lp) = pot_total l" if named: "ltOpenPotHand l \<noteq> ''''" "pmPots m' (ltOpenPotHand l) = Some lp" for lp
  proof -
    obtain lp0 where "pmPots m (ltOpenPotHand l) = Some lp0" "lpPot lp = lpPot lp0" using assms(3) [OF m named(2)] by blast
    then show ?thesis using assms(1) named(1) m by (simp add: live_ok_def pots_ok_def)
  qed
  then show ?thesis using assms(1) assms(2) [OF m] by (simp add: live_ok_defs roster_def)
qed

lemma live_ok_Armed:
  assumes "live_ok l"
  shows "live_ok (MarkSeatArmed seat l)"
proof (cases "ltPots l = None \<or> ltOpenPotHand l = ''''")
  case False
  then obtain m where m: "ltPots l = Some m" "ltOpenPotHand l \<noteq> ''''" by auto
  have "pmArmed m '''' = None" using assms m by (simp add: live_ok_def pots_ok_def)
  then have "live_ok (l\<lparr>ltPots := Some (MarkArmed (ltOpenPotHand l) seat m)\<rparr>)"
    using m by (intro live_ok_pots [OF assms]) (auto simp: MarkArmed_def)
  then show ?thesis using m by (simp add: MarkSeatArmed_def)
qed (use assms in \<open>auto simp: MarkSeatArmed_def split: option.split\<close>)

lemma enabled_Some: "enabled_pots l = Some m \<longleftrightarrow> ltPots l = Some m \<and> pmWallet m \<noteq> None"
  by (auto simp: enabled_pots_def Pots_Enabled_def split: option.splits)

lemma live_ok_Open:
  assumes "live_ok l" "full l"
  shows "live_ok (snd (snd (OpenPotForHand lib now height l w)))"
proof (cases "enabled_pots l")
  case (Some m)
  let ?sid = "ltID l @ ''-session''"
  let ?l = "l\<lparr>ltSessionID := ?sid\<rparr>"
  have l: "live_ok ?l" using assms(1) by (simp add: live_ok_cong [of ?l l])
  have m: "ltPots l = Some m" using Some by (simp add: enabled_Some)
  have o: "live_ok (?l\<lparr>ltPots := Some m', ltOpenPotHand := ?sid, ltMoney := mo, ltSettlementTxID := t\<rparr>)"
    if got: "OpenPot (session_pots lib) ?sid seats (pot_total l) height m w = (w', Inr m')" for seats w' m' mo t
  proof -
    obtain lp where "m' = m\<lparr>pmPots := (pmPots m)(?sid \<mapsto> lp)\<rparr>" "PotValue (lpPot lp) = pot_total l"
      by (rule OpenPot_Inr [OF got])
    with assms m show ?thesis by (simp add: live_ok_defs roster_def)
  qed
  have e: "endpointsLocked ?l = endpointsLocked l" by (simp add: endpointsLocked_def)
  show ?thesis
    using Some l o [where t = "''''"] o [where t = "ltSettlementTxID l"]
    by (auto simp: OpenPotForHand_def Let_def pot_opened_def pot_total_def [symmetric] e split: prod.split sum.split option.split)
qed (simp add: OpenPotForHand_def assms)

lemma live_ok_upd [simp]:
  "live_ok (l\<lparr>ltMoney := mo\<rparr>) = live_ok l" "live_ok (l\<lparr>ltStallReason := r\<rparr>) = live_ok l"
  "live_ok (l\<lparr>ltSettlementTxID := t\<rparr>) = live_ok l" "live_ok (l\<lparr>ltSessionID := t\<rparr>) = live_ok l"
  by (rule live_ok_cong; simp)+

lemma live_ok_unready: "live_ok l \<Longrightarrow> live_ok (l\<lparr>ltReadyToStart := False\<rparr>)"
  by (auto simp: live_ok_defs roster_def)

lemma full_Open: "full (snd (snd (OpenPotForHand lib now height l w))) = full l"
  by (auto simp: OpenPotForHand_def Let_def pot_opened_def full_def split: option.split prod.split sum.split)

lemma live_ok_Funded:
  assumes "live_ok l" "full l"
  shows "live_ok (snd (snd (StartFundedHand lib now height l w)))"
proof -
  obtain w1 e l1 where o: "(if ltOpenPotHand l = '''' then OpenPotForHand lib now height l w else (w, None, l)) = (w1, e, l1)"
    by (metis prod_cases3)
  then have "live_ok l1" "full l1"
    using live_ok_Open [OF assms, of lib now height w] full_Open [of lib now height l w] assms by (auto split: if_splits)
  then have "live_ok (l1\<lparr>ltReadyToStart := False\<rparr>)" "full (l1\<lparr>ltReadyToStart := False\<rparr>)" by (simp_all add: live_ok_unready)
  then show ?thesis using o \<open>live_ok l1\<close>
    by (cases e) (auto simp: StartFundedHand_def Let_def live_ok_deal)
qed

lemma live_ok_ApplyHand:
  assumes "live_ok l" "ltPots l = Some m" "ApplyHand lib (ltOpenPotHand l) seats b m w = (w', e, m')"
  shows "live_ok (l\<lparr>ltPots := Some m'\<rparr>)"
proof -
  have a: "pmArmed m '''' = None" using assms(1,2) by (simp add: live_ok_def pots_ok_def)
  show ?thesis
  proof (rule live_ok_pots [OF assms(1)])
    show "pmArmed m' '''' = None"
      using a assms(3) by (cases rule: ApplyHand_cases [of lib "ltOpenPotHand l" seats b m w]) auto
    show "\<exists>lp0. pmPots m0 (ltOpenPotHand l) = Some lp0 \<and> lpPot lp = lpPot lp0"
      if "ltPots l = Some m0" "pmPots m' (ltOpenPotHand l) = Some lp" for m0 lp
      using that assms(2,3) by (cases rule: ApplyHand_cases [of lib "ltOpenPotHand l" seats b m w]) auto
  qed (use assms(2) in simp)
qed

lemma live_ok_Balances:
  assumes "live_ok l"
  shows "live_ok (snd (snd (ApplyHandBalances lib now l w)))"
  using assms live_ok_ApplyHand [OF assms]
  by (auto simp: ApplyHandBalances_def Let_def enabled_Some split: option.split prod.split)

lemma Pot_Settle_closes:
  assumes "Pot_Settle lib hid seats payouts m w = (w', Inr (txid, m'))"
  shows "m' = m\<lparr>pmPots := (pmPots m)(hid := None)\<rparr>"
  using assms
proof (cases rule: Pot_Settle_cases)
  case (signing lp ps st tx w1 w2 sigs)
  obtain w3 c where c: "Settle.Complete (PotSdk lib) (pot_signer lib) (pmWallet m) (pmOriginator m) st (lpPot lp) (projr sigs) (int (length seats)) w2 = (w3, c)"
    by fastforce
  with signing(7) show ?thesis by (cases sigs; cases c) simp_all
qed simp

lemma live_ok_settle:
  assumes "live_ok l" "ltPots l = Some m"
  shows "live_ok (snd (snd (settle_with lib now m seats payouts l w)))"
proof -
  have "live_ok (l\<lparr>ltPots := Some m', ltSettlementTxID := txid, ltOpenPotHand := '''', ltMoney := mo\<rparr>)"
    if "Pot_Settle lib' (ltOpenPotHand l) seats ps m w = (w', Inr (txid, m'))" for lib' ps w w' txid m' mo
    using assms Pot_Settle_closes [OF that] by (auto simp: live_ok_parts roster_def)
  with assms show ?thesis by (auto simp: settle_with_def split: prod.split sum.split)
qed

lemma live_ok_Settle: "live_ok l \<Longrightarrow> live_ok (snd (snd (SettleOnChain lib now l w)))"
  by (auto simp: SettleOnChain_def Let_def enabled_Some live_ok_settle split: option.split)

lemma live_ok_CashOut: "live_ok l \<Longrightarrow> live_ok (snd (snd (CashOut lib now l w)))"
  by (auto simp: CashOut_def Let_def enabled_Some live_ok_settle split: option.split)

lemma live_ok_RunHands:
  assumes "live_ok l"
  shows "live_ok (snd (snd (RunHands lib now height l w)))"
proof -
  have pending: "live_ok (snd (snd (StartFundedHand lib now h l w)))" if "PendingStart l" for h
    using that assms by (intro live_ok_Funded) (auto simp: PendingStart_def live_ok_def)
  obtain w1 e l1 where b: "(if ForValue l then ApplyHandBalances lib now l w else (w, None, l)) = (w1, e, l1)"
    by (metis prod_cases3)
  then have l1: "live_ok l1" using live_ok_Balances [OF assms, of lib now w] assms by (auto split: if_splits)
  show ?thesis
  proof (cases "PendingStart l \<or> \<not> HandOver l")
    case True
    show ?thesis
    proof (cases height)
      case (Inr h)
      obtain w2 e2 l2 where "StartFundedHand lib now h l w = (w2, e2, l2)" by (metis prod_cases3)
      with True Inr pending [of h] assms show ?thesis by (cases e2) (auto simp: RunHands_def live_ok_recordStall)
    qed (use True assms in \<open>auto simp: RunHands_def live_ok_recordStall\<close>)
  next
    case over: False
    show ?thesis
    proof (cases e)
      case None
      have "live_ok (snd (PrepareNextHand l1 now))" "live_ok (snd (snd (NextHand (session_live lib) now l1 w1)))"
        using l1 by (simp_all add: live_ok_Prepare live_ok_Next)
      with over None b show ?thesis by (auto simp: RunHands_def split: prod.split sum.split)
    qed (use over b l1 in \<open>simp add: RunHands_def live_ok_recordStall\<close>)
  qed
qed

lemma live_ok_Exit:
  assumes "live_ok l"
  shows "live_ok (snd (snd (settleSessionOnExit lib deadline now l w)))"
  using live_ok_CashOut [OF assms, of lib now w]
  by (auto simp: settleSessionOnExit_def live_ok_recordStall split: prod.split sum.split)

lemma live_ok_New:
  assumes "NewLiveTable t now = Inr l" "\<And>m. mgr = Some m \<Longrightarrow> pmArmed m = Map.empty"
  shows "live_ok (SetPotManager mgr (SetCoordinator co l))"
proof -
  from assms(1) have "ltTerms l = t" "Terms_Validate t = []" "ltSeats l = []" "ltSeatOf l = Map.empty" "ltStacks l = None" "ltHand l = None"
    "\<not> ltReadyToStart l" "ltOpenPotHand l = ''''" "ltButton l = 0"
    by (auto simp: NewLiveTable_def split: if_splits sum.splits)
  moreover from this(2) have "0 \<le> TermsSeats t" by (auto simp: Terms_Validate_def TMinSeats_def split: if_splits)
  ultimately show ?thesis using assms(2)
    by (simp add: SetPotManager_def SetCoordinator_def live_ok_parts roster_def roster_ok_def)
qed

section \<open>A live table as a machine\<close>

text \<open>What the browsers and the table's own loops do, in any order; an operation that calls out does so on the outside state.\<close>

datatype live_op = LJoin int string | LAgent string string | LReady int string | LAct int string string int | LSitOut string
  | LStall int int string | LArmed int | LTurn int "(string, u32) res" | LExit int int | LSettle int

fun live_step ::
  "('s, 'k, 'p, 'w, 'pt) session_lib \<Rightarrow> 'w \<times> ('s, 'k, 'p, 'w) live_table \<Rightarrow> live_op \<Rightarrow> 'w \<times> ('s, 'k, 'p, 'w) live_table" where
  "live_step lib (w, l) (LJoin now k) = (w, snd (Live_Join l now k))"
| "live_step lib (w, l) (LAgent k url) = (w, snd (RegisterAgent l k url))"
| "live_step lib (w, l) (LReady now k) = (case Ready (session_live lib) now k l w of (w, r) \<Rightarrow> (w, snd r))"
| "live_step lib (w, l) (LAct now k a to) = (w, snd (Live_Act l now k a to))"
| "live_step lib (w, l) (LSitOut k) = (w, snd (SitOut l k))"
| "live_step lib (w, l) (LStall now seat reason) = (w, snd (Live_Stall l now seat reason))"
| "live_step lib (w, l) (LArmed seat) = (w, MarkSeatArmed seat l)"
| "live_step lib (w, l) (LTurn now height) = (case RunHands lib now height l w of (w, r) \<Rightarrow> (w, snd r))"
| "live_step lib (w, l) (LExit deadline now) = (case settleSessionOnExit lib deadline now l w of (w, r) \<Rightarrow> (w, snd r))"
| "live_step lib (w, l) (LSettle now) = (case SettleOnChain lib now l w of (w, r) \<Rightarrow> (w, snd r))"

lemma live_step_ok:
  assumes "live_ok (snd s)"
  shows "live_ok (snd (live_step lib s e))"
proof -
  obtain w l where s: "s = (w, l)" by (cases s)
  with assms have l: "live_ok l" by simp
  show ?thesis unfolding s
    using live_ok_Ready [OF l] live_ok_RunHands [OF l] live_ok_Exit [OF l] live_ok_Settle [OF l]
    by (cases e) (simp_all add: case_prod_beta live_ok_Join live_ok_Register live_ok_Act live_ok_SitOut live_ok_Stall live_ok_Armed l)
qed

interpretation living: machine "live_step lib" "\<lambda>s. live_ok (snd s)" for lib
  by unfold_locales (rule live_step_ok)

end
