(* ===== verification/Live_Safety.thy ===== *)
theory Live_Safety
  imports Live_Props
begin

text \<open>
  The properties of a live table: the chips of a session, who can act, what a browser is shown, how hands are named, and that the
  pot's books always balance.
\<close>

section \<open>What no operation changes\<close>

definition frame :: "('s, 'k, 'p, 'w) live_table \<Rightarrow> terms \<times> string \<times> nat" where
  "frame l = (ltTerms l, ltID l, ltHandNo l)"

lemma frame_deal: "frame (snd (snd (dealLocked lib l w))) = frame l"
  by (auto simp: dealLocked_def start_dealt_def frame_def Let_def split: prod.split sum.split)

lemma frame_Ready: "frame (snd (snd (Ready lib now k l w))) = frame l"
proof -
  have "frame (mark_ready seat l\<lparr>ltMoney := mo\<rparr>) = frame l" for seat mo by (simp add: frame_def mark_ready_def)
  moreover have "frame (mark_ready seat l\<lparr>ltMoney := mo, ltReadyToStart := b\<rparr>) = frame l" for seat mo b
    by (simp add: frame_def mark_ready_def)
  ultimately show ?thesis
    by (auto simp: Ready_def Let_def frame_deal split: option.split prod.split)
qed

text \<open>Only \<open>Act\<close> counts a hand, when it ends one.\<close>

lemma frame_Act:
  "frame (snd (Live_Act l now k a to)) =
     (ltTerms l, ltID l, ltHandNo l + (if fst (Live_Act l now k a to) = None \<and> HandOver (snd (Live_Act l now k a to)) then 1 else 0))"
  by (auto simp: Live_Act_def frame_def HandOver_def Let_def touch_def finishHandLocked_def split: option.split sum.split prod.split)

lemma frame_clear [simp]: "frame (clear_hand now l) = frame l"
  by (simp add: frame_def clear_hand_def)

lemma frame_Next: "frame (snd (snd (NextHand lib now l w))) = frame l"
  using frame_deal [of lib "clear_hand now l" w] by (auto simp: NextHand_def split: prod.split option.split)

lemma frame_Prepare: "frame (snd (PrepareNextHand l now)) = frame l"
  by (auto simp: PrepareNextHand_def frame_def clear_hand_def)

lemma frame_Funded: "frame (snd (snd (StartFundedHand lib now h l w))) = frame l"
proof -
  have "frame (snd (snd (OpenPotForHand lib now h l w))) = frame l"
    by (auto simp: OpenPotForHand_def pot_opened_def frame_def Let_def split: option.split prod.split sum.split)
  moreover obtain w1 e l1 where "(if ltOpenPotHand l = '''' then OpenPotForHand lib now h l w else (w, None, l)) = (w1, e, l1)"
    by (metis prod_cases3)
  ultimately show ?thesis
    using frame_deal [of "session_live lib" "l1\<lparr>ltReadyToStart := False\<rparr>" w1]
    by (cases e) (auto simp: StartFundedHand_def Let_def frame_def split: if_splits)
qed

lemma frame_Balances: "frame (snd (snd (ApplyHandBalances lib now l w))) = frame l"
  by (auto simp: ApplyHandBalances_def frame_def Let_def split: option.split prod.split)

lemma frame_settle: "frame (snd (snd (settle_with lib now m seats payouts l w))) = frame l"
  by (auto simp: settle_with_def frame_def split: prod.split sum.split)

lemma frame_RunHands: "frame (snd (snd (RunHands lib now height l w))) = frame l"
proof -
  have stall: "frame (recordStall r l') = frame l'" for r l' by (simp add: frame_def recordStall_def)
  obtain w1 e l1 where b: "(if ForValue l then ApplyHandBalances lib now l w else (w, None, l)) = (w1, e, l1)"
    by (metis prod_cases3)
  then have l1: "frame l1 = frame l" using frame_Balances [of lib now l w] by (auto split: if_splits)
  show ?thesis
  proof (cases "PendingStart l \<or> \<not> HandOver l")
    case True
    show ?thesis
    proof (cases height)
      case (Inr h)
      obtain w2 e2 l2 where "StartFundedHand lib now h l w = (w2, e2, l2)" by (metis prod_cases3)
      with True Inr frame_Funded [of lib now h l w] show ?thesis by (cases e2) (auto simp: RunHands_def stall)
    qed (use True in \<open>auto simp: RunHands_def stall\<close>)
  next
    case False
    with b l1 frame_Prepare [of l1 now] frame_Next [of "session_live lib" now l1 w1] show ?thesis
      by (cases e) (auto simp: RunHands_def stall split: sum.split prod.split)
  qed
qed

lemma frame_step:
  "frame (snd (live_step lib s e)) = frame (snd s)
   \<or> (\<exists>n. frame (snd (live_step lib s e)) = (ltTerms (snd s), ltID (snd s), ltHandNo (snd s) + n))"
proof -
  obtain w l where s: "s = (w, l)" by (cases s)
  have "frame (snd (Live_Join l now k)) = frame l" for now k
    by (cases rule: Live_Join_cases [of l now k]) (auto simp: frame_def)
  moreover have "frame (snd (snd (settleSessionOnExit lib d now l w))) = frame l" for d now
  proof -
    have "frame (snd (snd (CashOut lib now l w))) = frame l"
      by (auto simp: CashOut_def Let_def frame_settle split: option.split)
    then show ?thesis by (auto simp: settleSessionOnExit_def recordStall_def frame_def split: prod.split sum.split)
  qed
  moreover have "frame (snd (snd (SettleOnChain lib now l w))) = frame l" for now
    by (auto simp: SettleOnChain_def Let_def frame_settle split: option.split)
  moreover have "frame (snd (RegisterAgent l k url)) = frame l" "frame (snd (SitOut l k)) = frame l"
    "frame (snd (Live_Stall l now seat r)) = frame l" "frame (MarkSeatArmed seat l) = frame l" for k url now seat r
    by (auto simp: RegisterAgent_def SitOut_def Live_Stall_def MarkSeatArmed_def frame_def Let_def split: option.split prod.split)
  ultimately show ?thesis unfolding s
    by (cases e) (auto simp: case_prod_beta frame_Ready frame_Act frame_RunHands)
qed

lemma count_step: "ltHandNo (snd s) \<le> ltHandNo (snd (live_step lib s e))"
  using frame_step [of lib s e] by (auto simp: frame_def)

interpretation counting: monotone_machine "live_step lib" "\<lambda>s. live_ok (snd s)" "\<lambda>s. ltHandNo (snd s)" for lib
  by unfold_locales (rule count_step)

lemma frame_run:
  "ltTerms (snd (run (live_step lib) s es)) = ltTerms (snd s)" "ltID (snd (run (live_step lib) s es)) = ltID (snd s)"
proof (induction es arbitrary: s)
  case (Cons e es)
  { case 1 show ?case using Cons(1) [of "live_step lib s e"] frame_step [of lib s e] by (auto simp: frame_def) }
  { case 2 show ?case using Cons(2) [of "live_step lib s e"] frame_step [of lib s e] by (auto simp: frame_def) }
qed simp_all

text \<open>A table reached from a new one.\<close>

definition seated_at ::
  "('s, 'k, 'p, 'w, 'pt) session_lib \<Rightarrow> terms \<Rightarrow> ('s, 'k, 'p, 'w) live_table \<Rightarrow> bool" where
  "seated_at lib t l \<longleftrightarrow>
     (\<exists>now l0 mgr co w0 w es. NewLiveTable t now = Inr l0 \<and> (\<forall>m. mgr = Some m \<longrightarrow> pmPots m = Map.empty \<and> pmArmed m = Map.empty)
        \<and> run (live_step lib) (w0, SetPotManager mgr (SetCoordinator co l0)) es = (w, l))"

lemma seated_ok:
  assumes "seated_at lib t l"
  shows "live_ok l" "ltTerms l = t"
proof -
  from assms obtain now l0 mgr co w0 w es where
    n: "NewLiveTable t now = Inr l0" "\<And>m. mgr = Some m \<Longrightarrow> pmArmed m = Map.empty"
      "run (live_step lib) (w0, SetPotManager mgr (SetCoordinator co l0)) es = (w, l)"
    unfolding seated_at_def by blast
  have "live_ok (SetPotManager mgr (SetCoordinator co l0))" using live_ok_New [OF n(1)] n(2) by blast
  with living.run_inv [of "(w0, SetPotManager mgr (SetCoordinator co l0))" lib es] n(3) show "live_ok l" by simp
  have "ltTerms l0 = t" using n(1) by (auto simp: NewLiveTable_def split: if_splits sum.splits)
  with frame_run [of lib "(w0, SetPotManager mgr (SetCoordinator co l0))" es] n(3) show "ltTerms l = t"
    by (simp add: SetPotManager_def SetCoordinator_def)
qed

section \<open>Chips\<close>


text \<open>A finished hand's stacks, as satoshis, are what the session's pot holds.\<close>

lemma sum_words_of_ints: "sum_list (map (word_of_int :: int \<Rightarrow> u64) xs) = word_of_int (sum_list xs)"
  by (induction xs) simp_all

lemma hand_balances_sum:
  assumes "\<forall>s \<in> set (Seats st). 0 \<le> Stack s"
  shows "sum_list (map snd (hand_balances st)) = word_of_int (sum_list (map Stack (Seats st)))"
proof -
  let ?f = "\<lambda>i. word_of_int (Stack (Seats st ! i)) :: u64"
  have zero: "?f i = 0" if "i < length (Seats st)" "\<not> 0 < Stack (Seats st ! i)" for i
    using assms that by (metis antisym_conv1 linorder_le_less_linear nth_mem of_int_0 order.strict_iff_order)
  have filt: "sum_list (map ?f (filter (\<lambda>i. 0 < Stack (Seats st ! i)) is)) = sum_list (map ?f is)"
    if "set is \<subseteq> {..<length (Seats st)}" for "is"
    using that by (induction "is") (auto simp: zero)
  have "sum_list (map snd (hand_balances st)) = sum_list (map ?f [0..<length (Seats st)])"
    using filt [of "[0..<length (Seats st)]"] by (simp add: hand_balances_def comp_def atLeast0LessThan)
  also have "map ?f [0..<length (Seats st)] = map word_of_int (map Stack (Seats st))"
    by (intro nth_equalityI) simp_all
  finally show ?thesis by (simp only: sum_words_of_ints)
qed

lemma buy_ins_word: "word_of_int (buy_ins l) = pot_total l"
  by (simp add: buy_ins_def pot_total_def int64_of_def mult.commute)


section \<open>Names of hands\<close>

lemma digit_inj: "m < 10 \<Longrightarrow> n < 10 \<Longrightarrow> (char_of (48 + m) :: char) = char_of (48 + n) \<Longrightarrow> m = (n :: nat)"
  by (simp add: char_of_eq_iff take_bit_eq_mod)

lemma decimal_Suc: "decimal n \<noteq> []"
  by (subst decimal.simps) simp

lemma decimal_inj: "decimal m = decimal n \<Longrightarrow> m = n"
proof (induction m arbitrary: n rule: decimal.induct)
  case (1 m)
  show ?case
  proof (cases "m < 10 \<longleftrightarrow> n < 10")
    case True
    show ?thesis
    proof (cases "m < 10")
      case True
      with \<open>m < 10 \<longleftrightarrow> n < 10\<close> 1(2) show ?thesis by (simp add: decimal.simps [of m] decimal.simps [of n] digit_inj)
    next
      case False
      with \<open>m < 10 \<longleftrightarrow> n < 10\<close> 1(2) have "decimal (m div 10) = decimal (n div 10)"
        "(char_of (48 + m mod 10) :: char) = char_of (48 + n mod 10)"
        by (simp_all add: decimal.simps [of m] decimal.simps [of n])
      then have "m div 10 = n div 10" "m mod 10 = n mod 10" using 1(1) [OF False] digit_inj [of "m mod 10" "n mod 10"] by simp_all
      then show ?thesis by (metis div_mult_mod_eq)
    qed
  next
    case False
    have "length (decimal k) = 1 \<longleftrightarrow> k < 10" for k by (subst decimal.simps) (simp add: decimal_Suc)
    with False 1(2) show ?thesis by metis
  qed
qed

text \<open>
  a finished hand's name is never used again. Once an action has ended a hand, the name the next hand will be dealt under, and any name
  after it, differs from the finished hand's: no seat's wallet is asked to commit twice under one name.
\<close>

theorem finished_hand_retires_its_name:
  assumes "seated_at lib t l" and "Live_Act l now key a to = (None, l1)" and "HandOver l1"
    and "run (live_step lib) (w, l1) es = (w', l2)"
  shows "handIDLocked l2 \<noteq> handIDLocked l"
proof -
  have ok: "live_ok l1" using live_ok_Act [OF seated_ok(1) [OF assms(1)], of now key a to] assms(2) by simp
  have "frame l1 = (ltTerms l, ltID l, ltHandNo l + 1)" using frame_Act [of l now key a to] assms(2,3) by simp
  moreover have "ltHandNo l1 \<le> ltHandNo l2" using counting.run_rank [of "(w, l1)" lib es] ok assms(4) by simp
  moreover have "ltID l2 = ltID l1" using frame_run(2) [of lib "(w, l1)" es] assms(4) by simp
  ultimately have "ltID l2 = ltID l" "ltHandNo l2 \<noteq> ltHandNo l" by (simp_all add: frame_def)
  then show ?thesis using decimal_inj by (auto simp: handIDLocked_def)
qed

section \<open>Acting\<close>

definition offers :: "legal_view \<Rightarrow> action_kind \<Rightarrow> int \<Rightarrow> bool" where
  "offers v k to = (YourTurn v \<and> (case k of Fold \<Rightarrow> lvCanFold v | Check \<Rightarrow> lvCanCheck v | Call \<Rightarrow> lvCanCall v
     | Bet \<Rightarrow> lvCanBetRaise v \<and> lvMinTo v \<le> to | Raise \<Rightarrow> lvCanBetRaise v \<and> lvMinTo v \<le> to | UnknownKind u \<Rightarrow> False))"

lemma offers_LegalFor:
  "ltHand l = Some st \<Longrightarrow> \<not> Done st \<Longrightarrow> offers (LegalFor l seat) k to \<longleftrightarrow> ToAct st = seat \<and> offered (Legal st) k to"
  by (cases k) (auto simp: offers_def offered_def LegalFor_def Let_def)


section \<open>What a browser is shown\<close>

text \<open>A table with everything taken out that only other seats may see: their cards, and the deck.\<close>

definition conceal_hand :: "hand \<Rightarrow> hand" where
  "conceal_hand st = st\<lparr>Seats := map (\<lambda>s. s\<lparr>Hole := []\<rparr>) (Seats st), deck := []\<rparr>"

definition conceal :: "int \<Rightarrow> ('s, 'k, 'p, 'w) live_table \<Rightarrow> ('s, 'k, 'p, 'w) live_table" where
  "conceal seat l = l\<lparr>ltHand := map_option conceal_hand (ltHand l), ltHole := (ltHole l) |` {seat}\<rparr>"

lemma conceal_simps [simp]:
  "ToAct (conceal_hand st) = ToAct st" "Done (conceal_hand st) = Done st" "Board (conceal_hand st) = Board st"
  "Street (conceal_hand st) = Street st" "Payouts (conceal_hand st) = Payouts st" "length (Seats (conceal_hand st)) = length (Seats st)"
  "ltSeats (conceal seat l) = ltSeats l" "ltMoney (conceal seat l) = ltMoney l" "ltSeatOf (conceal seat l) = ltSeatOf l"
  "ltHand (conceal seat l) = map_option conceal_hand (ltHand l)" "ltTerms (conceal seat l) = ltTerms l" "ltID (conceal seat l) = ltID l"
  "ltStallReason (conceal seat l) = ltStallReason l" "ltDealerless (conceal seat l) = ltDealerless l" "ltPots (conceal seat l) = ltPots l"
  "ltSettlementTxID (conceal seat l) = ltSettlementTxID l" "ltOpenPotHand (conceal seat l) = ltOpenPotHand l"
  "ltStalledSeat (conceal seat l) = ltStalledSeat l" "ltHole (conceal seat l) seat = ltHole l seat"
  by (simp_all add: conceal_hand_def conceal_def)

lemma Pot_conceal [simp]: "Pot (conceal_hand st) = Pot st"
  by (simp add: Pot_def conceal_hand_def comp_def)

lemma Legal_conceal [simp]:
  assumes "0 \<le> ToAct st" "ToAct st < int (length (Seats st))"
  shows "Legal (conceal_hand st) = Legal st"
  using assms by (simp add: Legal_def conceal_hand_def Let_def nat_less_iff)

lemma row_conceal: "player_row (map_option conceal_hand h) mo s = player_row h mo s"
  by (cases h; cases "Money_State mo (int (TIndex s))") (auto simp: player_row_def conceal_hand_def Let_def)

lemma View_conceal: "View (conceal seat l) now seat = View l now seat"
proof -
  have "FromEngine (map_option conceal_hand h) ss mo = FromEngine h ss mo" for h ss mo
    by (simp add: FromEngine_def row_conceal)
  then show ?thesis
    by (auto simp: View_def Let_def view_phase_def split: option.split)
qed

definition conceal_store :: "int \<Rightarrow> ('s, 'k, 'p, 'w) store \<Rightarrow> ('s, 'k, 'p, 'w) store" where
  "conceal_store seat s = s\<lparr>stLive := map_option (conceal seat) (stLive s), stTables := map (\<lambda>(i, v). (i, strip_holes v)) (stTables s),
     stHole := map_option (\<lambda>m. m |` {seat}) \<circ> stHole s\<rparr>"

text \<open>
  C17: a browser learns only its own seat's cards. What \<open>/api/live\<close> answers a key, and what \<open>/api/table\<close> answers for a seat, is the
  same on the table with every other seat's cards and the whole deck taken out, and with no cards left in the stored rows:
  neither reply depends on them.
\<close>

theorem browser_sees_own_cards_only:
  assumes "stLive s = Some l" and "seated_at lib t l"
  shows "api_live (conceal_store (Live_SeatOf l key) s) now key = api_live s now key
     \<and> api_table (conceal_store seat s) tid (Some seat) = api_table s tid (Some seat)"
proof
  have turn: "0 \<le> ToAct st \<and> ToAct st < int (length (Seats st))" if "ltHand l = Some st" "\<not> Done st" "0 \<le> ToAct st" for st
  proof -
    have "wf st" using seated_ok(1) [OF assms(2)] that(1) by (simp add: live_ok_def chips_ok_def)
    then show ?thesis using that(2,3) by (auto simp: wf_def turn_ok_def)
  qed
  have legal: "Legal (conceal_hand st) = Legal st" if "ltHand l = Some st" "\<not> Done st" for st
  proof (cases "0 \<le> ToAct st")
    case True
    with turn [OF that] show ?thesis by (intro Legal_conceal) simp_all
  qed (simp add: Legal_def)
  have "LegalFor (conceal i l) j = LegalFor l j" for i j
    using legal by (cases "ltHand l") (auto simp: LegalFor_def Let_def)
  moreover have "Winners (conceal i l) = Winners l" for i by (cases "ltHand l") (auto simp: Winners_def)
  moreover have "Live_SeatOf (conceal i l) k = Live_SeatOf l k" for i k by (simp add: Live_SeatOf_def)
  ultimately show "api_live (conceal_store (Live_SeatOf l key) s) now key = api_live s now key"
    using assms(1) by (simp add: api_live_def conceal_store_def Let_def View_conceal)
  have strip: "strip_holes (strip_holes v) = strip_holes v" for v by (simp add: strip_holes_def comp_def)
  show "api_table (conceal_store seat s) tid (Some seat) = api_table s tid (Some seat)"
    by (auto simp: api_table_def Store_Table_def conceal_store_def Let_def map_of_map strip split: option.split)
qed

section \<open>Two sessions, run\<close>

definition duo_session :: "(string, byte, byte, string list, nat) session_lib" where
  "duo_session = live_lib.extend (pot_lib.extend duo_lib (live_lib.fields small_curve (\<lambda>w. (w, Some)) (\<lambda>m w. (w, m))))
     (session_lib.fields (\<lambda>e. ''''))"

lemma duo_session_pots: "session_pots duo_session = duo_lib"
  by (simp add: duo_session_def pot_lib.defs live_lib.defs session_lib.defs)

definition duo_terms :: terms where
  "duo_terms = \<lparr>TermsTableID = ''t'', BuyInSatoshis = 5000, TermsSmallBlind = 50, TermsBigBlind = 100, TermsSeats = 2,
     RefundLockHeight = 900000\<rparr>"

definition duo_fresh :: "(string, byte, byte, string list) live_table" where
  "duo_fresh = projr (NewLiveTable duo_terms 0)"

lemma duo_new: "NewLiveTable duo_terms 0 = Inr duo_fresh"
proof -
  have "\<not> isl (NewLiveTable duo_terms 0 :: (live_error, (string, byte, byte, string list) live_table) res)" by code_simp
  then show ?thesis unfolding duo_fresh_def by simp
qed

abbreviation duo_run ::
  "(string, byte, byte, string list) pot_manager option \<Rightarrow> live_op list \<Rightarrow> string list \<times> (string, byte, byte, string list) live_table" where
  "duo_run mgr es \<equiv> run (live_step duo_session) ([], SetPotManager mgr (SetCoordinator None duo_fresh)) es"

lemma duo_seated:
  assumes "\<forall>m. mgr = Some m \<longrightarrow> pmPots m = Map.empty \<and> pmArmed m = Map.empty"
  shows "seated_at duo_session duo_terms (snd (duo_run mgr es))"
  unfolding seated_at_def using duo_new assms by (metis prod.collapse)

definition chips_play :: "live_op list" where
  "chips_play = [LJoin 1 ''0'', LJoin 2 ''1'', LReady 3 ''0'', LReady 4 ''1'']"

definition chips_table :: "(string, byte, byte, string list) live_table" where
  "chips_table = snd (duo_run None chips_play)"

lemma chips_seated: "seated_at duo_session duo_terms chips_table"
  unfolding chips_table_def by (rule duo_seated) simp

lemma chips_dealt:
  "ltStacks chips_table = Some [5000, 5000]"
  "map_option (\<lambda>st. (ToAct st, Done st, length (Seats st), sum_list (map Stack (Seats st)), Pot st)) (ltHand chips_table)
     = Some (0, False, 2, 9850, 150)"
  "map_option length (ltHole chips_table 0) = Some 2" "map_option length (ltHole chips_table 1) = Some 2"
  "Live_SeatOf chips_table ''0'' = 0"
  by code_simp+

lemma chips_hand:
  obtains st where "ltHand chips_table = Some st" "ToAct st = 0" "\<not> Done st" "length (Seats st) = 2"
  using chips_dealt(2) by (auto simp: map_option_eq_Some)


definition chips_folded :: "(string, byte, byte, string list) live_table" where
  "chips_folded = snd (Live_Act chips_table 5 ''0'' ''fold'' 0)"

lemma chips_folds: "Live_Act chips_table 5 ''0'' ''fold'' 0 = (None, chips_folded)" "HandOver chips_folded"
proof -
  have "fst (Live_Act chips_table 5 ''0'' ''fold'' 0) = None" by code_simp
  then show "Live_Act chips_table 5 ''0'' ''fold'' 0 = (None, chips_folded)" unfolding chips_folded_def by (metis prod.collapse)
  show "HandOver chips_folded" by code_simp
qed

theorem finished_hand_retires_its_name_witness:
  "handIDLocked chips_table = ''t-h0''
   \<and> handIDLocked (snd (run (live_step duo_session) ([], chips_folded) [LTurn 6 (Inr 800)])) \<noteq> handIDLocked chips_table"
proof
  show "handIDLocked chips_table = ''t-h0''" by code_simp
  show "handIDLocked (snd (run (live_step duo_session) ([], chips_folded) [LTurn 6 (Inr 800)])) \<noteq> handIDLocked chips_table"
    using finished_hand_retires_its_name [OF chips_seated chips_folds prod.collapse [symmetric]] .
qed


definition chips_store :: "(string, byte, byte, string list) store" where
  "chips_store = SetLive NewStore chips_table"

theorem browser_sees_own_cards_only_witness:
  "map_option length (ltHole chips_table 1) = Some 2
   \<and> api_live (conceal_store 0 chips_store) 9 ''0'' = api_live chips_store 9 ''0''
   \<and> api_table (conceal_store 0 chips_store) ''t'' (Some 0) = api_table chips_store ''t'' (Some 0)"
proof -
  have "stLive chips_store = Some chips_table" by (simp add: chips_store_def SetLive_def)
  from browser_sees_own_cards_only [OF this chips_seated, where key = "''0''" and now = 9 and seat = 0 and tid = "''t''"] show ?thesis
    by (simp add: chips_dealt(4,5))
qed

section \<open>A session for value\<close>

definition value_joins :: "live_op list" where
  "value_joins = [LJoin 1 ''0'', LJoin 2 ''1'', LAgent ''0'' ''0'', LAgent ''1'' ''1'', LReady 3 ''0'', LReady 4 ''1'']"

definition value_seated :: "(string, byte, byte, string list) live_table" where
  "value_seated = snd (duo_run (Some duo_manager) value_joins)"

lemma value_ready: "PendingStart value_seated" "ltOpenPotHand value_seated = ''''" "endpointsLocked value_seated = duo"
  "ltID value_seated = ''t''" "ltTerms value_seated = duo_terms" "length (ltSeats value_seated) = 2"
  by code_simp+


lemma pots_kept:
  "ltPots (snd (live_step lib s (LJoin now k))) = ltPots (snd s)" "ltPots (snd (live_step lib s (LAgent k url))) = ltPots (snd s)"
  "ltPots (snd (live_step lib s (LReady now k))) = ltPots (snd s)"
proof -
  obtain w l where s: "s = (w, l)" by (cases s)
  have d: "ltPots l2 = ltPots l1" if "dealLocked lib' l1 w1 = (w2, e, l2)" for lib' l1 w1 w2 e l2
    using that by (auto simp: dealLocked_def start_dealt_def Let_def split: prod.splits sum.splits)
  show "ltPots (snd (live_step lib s (LJoin now k))) = ltPots (snd s)" "ltPots (snd (live_step lib s (LAgent k url))) = ltPots (snd s)"
    by (auto simp: s Live_Join_def RegisterAgent_def Let_def split: option.split)
  show "ltPots (snd (live_step lib s (LReady now k))) = ltPots (snd s)"
    by (auto simp: s Ready_def Let_def mark_ready_def dest!: d split: option.split prod.split)
qed

lemma value_pots: "ltPots value_seated = Some duo_manager"
  by (simp add: value_seated_def value_joins_def pots_kept SetPotManager_def del: live_step.simps)

lemma value_world: "fst (duo_run (Some duo_manager) value_joins) = []"
  by code_simp

definition value_funded :: "(string, byte, byte, string list) live_table" where
  "value_funded = snd (pot_opened 5 800 ''t-session'' duo (value_seated\<lparr>ltSessionID := ''t-session'',
     ltPots := Some (duo_manager\<lparr>pmPots := [''t-session'' \<mapsto> duo_signed duo_pot 944]\<rparr>)\<rparr>))"

definition value_opened :: "(string, byte, byte, string list) live_table" where
  "value_opened = value_funded\<lparr>ltReadyToStart := False\<rparr>"

lemma value_opens:
  "ltPots value_opened = Some (duo_manager\<lparr>pmPots := [''t-session'' \<mapsto> duo_signed duo_pot 944]\<rparr>)" "ltOpenPotHand value_opened = ''t-session''"
  by (simp_all add: value_opened_def value_funded_def pot_opened_def Let_def split: prod.split option.split)

definition value_dealt :: "(string, byte, byte, string list) live_table" where
  "value_dealt = snd (snd (dealLocked (session_live duo_session) value_opened [''create'']))"

lemma value_deals:
  "fst (snd (dealLocked (session_live duo_session) value_opened [''create''])) = None"
  "fst (dealLocked (session_live duo_session) value_opened [''create'']) = [''create'']"
  by code_simp+

lemma value_opens_pot: "OpenPotForHand duo_session 5 800 value_seated [] =
    ([''create''], None, value_funded)"
proof -
  have e: "endpointsLocked (value_seated\<lparr>ltSessionID := ''t-session''\<rparr>) = duo" using value_ready(3) by (simp add: endpointsLocked_def)
  have m: "enabled_pots value_seated = Some duo_manager" by (simp add: enabled_Some value_pots) (simp add: duo_manager_def)
  have "fst (pot_opened 5 800 ''t-session'' duo (value_seated\<lparr>ltSessionID := ''t-session'',
     ltPots := Some (duo_manager\<lparr>pmPots := [''t-session'' \<mapsto> duo_signed duo_pot 944]\<rparr>)\<rparr>)) = None"
    by code_simp
  moreover have "BuyInSatoshis duo_terms * 2 = 10000" "length duo = 2" by (simp_all add: duo_terms_def duo_def)
  ultimately show ?thesis
    by (simp add: OpenPotForHand_def m value_ready Let_def e duo_session_pots value_funded_def prod_eq_iff duo_opens_any)
qed

lemma value_turn: "live_step duo_session ([], value_seated) (LTurn 5 (Inr 800)) = ([''create''], value_dealt)"
proof -
  have h: "ltHand value_funded = None"
  proof -
    have "ltHand value_seated = None" using value_ready(1) by (simp add: PendingStart_def)
    then show ?thesis by (auto simp: value_funded_def pot_opened_def Let_def split: prod.split option.split)
  qed
  have "dealLocked (session_live duo_session) value_opened [''create''] = ([''create''], None, value_dealt)"
    using value_deals by (simp add: value_dealt_def prod_eq_iff)
  then show ?thesis
    using value_ready(1,2) h by (simp add: RunHands_def StartFundedHand_def value_opens_pot value_opened_def [symmetric] Let_def)
qed

definition value_folded :: "(string, byte, byte, string list) live_table" where
  "value_folded = snd (Live_Act value_dealt 6 ''0'' ''fold'' 0)"

lemma value_clean: "\<forall>m. Some duo_manager = Some m \<longrightarrow> pmPots m = Map.empty \<and> pmArmed m = Map.empty"
  by (simp add: duo_manager_def)

lemma value_reached: "seated_at duo_session duo_terms value_folded"
proof -
  have "duo_run (Some duo_manager) value_joins = ([], value_seated)" using value_world by (simp add: value_seated_def prod_eq_iff)
  then have "duo_run (Some duo_manager) (value_joins @ [LTurn 5 (Inr 800), LAct 6 ''0'' ''fold'' 0]) = ([''create''], value_folded)"
    using value_turn by (simp add: run_append value_folded_def)
  then have "value_folded = snd (duo_run (Some duo_manager) (value_joins @ [LTurn 5 (Inr 800), LAct 6 ''0'' ''fold'' 0]))" by simp
  then show ?thesis by (metis duo_seated value_clean)
qed

lemma value_pot: "map_option Pot (ltHand value_folded) = Some 0"
  by code_simp

lemma value_kept: "ltPots value_folded = ltPots value_opened" "ltOpenPotHand value_folded = ltOpenPotHand value_opened"
proof -
  have "ltPots value_dealt = ltPots value_opened" "ltOpenPotHand value_dealt = ltOpenPotHand value_opened"
    by (auto simp: value_dealt_def dealLocked_def start_dealt_def Let_def split: prod.split sum.split)
  then show "ltPots value_folded = ltPots value_opened" "ltOpenPotHand value_folded = ltOpenPotHand value_opened"
    by (auto simp: value_folded_def Live_Act_def Let_def touch_def finishHandLocked_def split: option.split sum.split prod.split)
qed


end
