(* ===== verification/Spec2Isabelle.thy ===== *)
theory Spec2Isabelle
  imports Engine_Props Session Money Settle Pot_Ledger Broadcast Hand_Player_Props Agent_Deal_Props Relay Live_Safety
begin

text \<open>
  Placeholder header.
\<close>

end
